(* ===== verification/AuthKit_Prelude.thy ===== *)
theory AuthKit_Prelude
  imports Main "HOL-Library.Word" "HOL-Library.AList"
begin

text \<open>
  Shared vocabulary of the development: Rust's integer types, panics as values, \<open>str\<close> as
  the list of its UTF-8 bytes, the few methods of \<open>str\<close> and \<open>Iterator\<close> the crate calls, and
  \<open>HashMap\<close> as an association list with distinct keys. The lemmas are the ones the component
  theories rewrite with; the collections \<open>hm_simps\<close> and \<open>str_simps\<close> gather them.
\<close>

named_theorems hm_simps "what the operations of a hash map do to its lookup function"
named_theorems str_simps "splitting, joining and trimming strings"

section \<open>Integers, panics, results\<close>

type_synonym u8 = "8 word"
type_synonym u32 = "32 word"
type_synonym u64 = "64 word"

text \<open>
  A call either returns or panics. \<open>Result<T, E>\<close> is \<open>E + T\<close>, with \<open>Inl\<close> the error.
\<close>

datatype 'a outcome = Ret 'a | Panic

fun and_then :: "'a outcome \<Rightarrow> ('a \<Rightarrow> 'b outcome) \<Rightarrow> 'b outcome" where
  "and_then (Ret x) f = f x"
| "and_then Panic f = Panic"

lemma and_then_Ret_iff: "and_then p f = Ret y \<longleftrightarrow> (\<exists>x. p = Ret x \<and> f x = Ret y)"
  by (cases p) auto

text \<open>\<open>Option::or\<close> (\<open>or_else\<close> with a pure closure), and indexing, which panics out of range.\<close>

definition or_else :: "'a option \<Rightarrow> 'a option \<Rightarrow> 'a option" where
  "or_else a b = (case a of None \<Rightarrow> b | Some x \<Rightarrow> Some x)"

definition index_at :: "'a list \<Rightarrow> nat \<Rightarrow> 'a outcome" where
  "index_at xs i = (if i < length xs then Ret (xs ! i) else Panic)"

text \<open>\<open>u32::pow\<close>: with overflow checks (a debug build) it panics, without them it wraps.\<close>

definition u32_pow :: "bool \<Rightarrow> nat \<Rightarrow> nat \<Rightarrow> u32 outcome" where
  "u32_pow overflow_checks b e =
     (if overflow_checks \<and> 2 ^ 32 \<le> b ^ e then Panic else Ret (word_of_nat (b ^ e)))"

text \<open>\<open>u64::checked_add_signed\<close> and the division operator, which panics on zero.\<close>

definition checked_add_signed :: "u64 \<Rightarrow> int \<Rightarrow> u64 option" where
  "checked_add_signed a d =
     (if 0 \<le> uint a + d \<and> uint a + d < 2 ^ 64 then Some (word_of_int (uint a + d)) else None)"

definition u64_div :: "u64 \<Rightarrow> u64 \<Rightarrow> u64 outcome" where
  "u64_div a b = (if b = 0 then Panic else Ret (a div b))"

definition u64_rem :: "u64 \<Rightarrow> u64 \<Rightarrow> u64 outcome" where
  "u64_rem a b = (if b = 0 then Panic else Ret (a mod b))"

lemma checked_add_signed_Some:
  "checked_add_signed a d = Some c \<longleftrightarrow> uint c = uint a + d"
proof
  assume "checked_add_signed a d = Some c"
  then have range: "0 \<le> uint a + d" "uint a + d < 2 ^ 64" and c: "c = word_of_int (uint a + d)"
    by (auto simp only: checked_add_signed_def split: if_splits)
  show "uint c = uint a + d"
    unfolding c using range by (simp only: uint_word_of_int) simp
next
  assume c: "uint c = uint a + d"
  have "0 \<le> uint c" "uint c < 2 ^ 64"
    using uint_lt2p [of c] by simp_all
  with c have "checked_add_signed a d = Some (word_of_int (uint c))"
    by (simp only: checked_add_signed_def c [symmetric] if_True simp_thms)
  then show "checked_add_signed a d = Some c"
    by simp
qed

text \<open>\<open>to_be_bytes\<close> and \<open>from_be_bytes\<close>, the most significant byte first.\<close>

definition to_be_bytes :: "nat \<Rightarrow> 'w::len word \<Rightarrow> u8 list" where
  "to_be_bytes n w = map (\<lambda>i. ucast (drop_bit (8 * i) w)) (rev [0..<n])"

definition from_be_bytes :: "u8 list \<Rightarrow> 'w::len word" where
  "from_be_bytes bs = foldl (\<lambda>acc b. acc * 256 + ucast b) 0 bs"

definition be_value :: "u8 list \<Rightarrow> nat" where
  "be_value bs = foldl (\<lambda>acc b. acc * 256 + unat b) 0 bs"

lemma from_be_bytes_be_value: "from_be_bytes bs = (word_of_nat (be_value bs) :: 'w::len word)"
proof (induction bs rule: rev_induct)
  case (snoc b bs)
  have "ucast b = (word_of_nat (unat b) :: 'w word)"
    by simp
  with snoc show ?case
    by (simp add: from_be_bytes_def be_value_def)
qed (simp add: from_be_bytes_def be_value_def)

lemma be_value_bound: "be_value bs < 256 ^ length bs"
proof (induction bs rule: rev_induct)
  case (snoc b bs)
  have "unat b < 256"
    using unsigned_less [of b, where ?'a = nat] by simp
  with snoc show ?case
    by (simp add: be_value_def)
qed (simp add: be_value_def)

lemma length_to_be_bytes [simp]: "length (to_be_bytes n w) = n"
  by (simp add: to_be_bytes_def)

lemma be_value_append: "be_value (bs @ [b]) = be_value bs * 256 + unat b"
  by (simp add: be_value_def)

lemma to_be_bytes_Suc: "to_be_bytes (Suc n) w = to_be_bytes n (drop_bit 8 w) @ [ucast w]"
proof -
  have "[0..<Suc n] = 0 # map Suc [0..<n]"
    by (simp add: upt_conv_Cons map_Suc_upt)
  then show ?thesis
    by (simp add: to_be_bytes_def rev_map add.commute)
qed

lemma be_value_to_be_bytes: "be_value (to_be_bytes n w) = unat w mod 256 ^ n"
proof (induction n arbitrary: w)
  case 0
  then show ?case
    by (simp add: to_be_bytes_def be_value_def)
next
  case (Suc n)
  have "unat (ucast w :: u8) = unat w mod 256"
    by (simp add: unsigned_ucast_eq take_bit_eq_mod)
  moreover have "unat (drop_bit 8 w) = unat w div 256"
    by (subst unat_drop_bit_eq) (simp add: drop_bit_eq_div)
  ultimately show ?case
    by (simp add: to_be_bytes_Suc be_value_append Suc.IH mod_mult2_eq mult.commute)
qed

lemma from_be_bytes_to_be_bytes [simp]: "from_be_bytes (to_be_bytes 4 w) = (w :: u32)"
proof -
  have "unat w mod 256 ^ 4 = unat w"
    using unsigned_less [of w, where ?'a = nat] by simp
  then show ?thesis
    by (simp add: from_be_bytes_be_value be_value_to_be_bytes)
qed

section \<open>Strings as UTF-8 bytes\<close>

definition as_bytes :: "string \<Rightarrow> u8 list" where
  "as_bytes s = map of_char s"

lemma of_char_less_256: "(of_char c :: nat) < 256"
proof -
  have "(of_char c :: nat) mod 256 < 256"
    by simp
  then show ?thesis
    by (simp only: of_char_mod_256)
qed

lemma unat_of_char_u8 [simp]: "unat (of_char c :: u8) = of_char c"
proof -
  have "(of_char c :: u8) = word_of_nat (of_char c)"
    by (cases c) simp
  moreover have "(of_char c :: nat) < 2 ^ 8"
    using of_char_less_256 [of c] by simp
  ultimately show ?thesis
    by (simp add: unat_of_nat take_bit_nat_eq_self)
qed

lemma of_char_u8_inject [simp]: "(of_char c :: u8) = of_char d \<longleftrightarrow> c = d"
proof
  assume "(of_char c :: u8) = of_char d"
  then have "(of_char c :: nat) = of_char d"
    by (metis unat_of_char_u8)
  then show "c = d"
    by simp
qed simp

lemma as_bytes_inject [simp]: "as_bytes s = as_bytes t \<longleftrightarrow> s = t"
  unfolding as_bytes_def by (rule inj_map_eq_map) (auto intro: injI)

lemma length_as_bytes [simp]: "length (as_bytes s) = length s"
  by (simp add: as_bytes_def)

lemma of_char_unat [simp]: "(of_char (char_of (unat b) :: char) :: u8) = b"
proof -
  have "(of_char (char_of (unat b) :: char) :: u8) = of_nat (of_char (char_of (unat b) :: char))"
    by (simp only: of_nat_of_char)
  also have "\<dots> = of_nat (unat b mod 256)"
    by (simp only: of_char_of)
  also have "\<dots> = b"
    using unsigned_less [of b, where 'a = nat] by simp
  finally show ?thesis .
qed

text \<open>\<open>str::split\<close> on an ASCII delimiter: one piece more than there are delimiters.\<close>

fun split_on :: "char \<Rightarrow> string \<Rightarrow> string list" where
  "split_on d [] = [[]]"
| "split_on d (c # cs) =
     (if c = d then [] # split_on d cs
      else case split_on d cs of [] \<Rightarrow> [[c]] | p # ps \<Rightarrow> (c # p) # ps)"

text \<open>\<open>str::split_once\<close>: the text before and after the first delimiter.\<close>

fun split_once :: "char \<Rightarrow> string \<Rightarrow> (string \<times> string) option" where
  "split_once d [] = None"
| "split_once d (c # cs) =
     (if c = d then Some ([], cs) else map_option (\<lambda>(a, b). (c # a, b)) (split_once d cs))"

text \<open>\<open>Iterator::find_map\<close>.\<close>

fun find_map :: "('a \<Rightarrow> 'b option) \<Rightarrow> 'a list \<Rightarrow> 'b option" where
  "find_map f [] = None"
| "find_map f (x # xs) = (case f x of None \<Rightarrow> find_map f xs | Some y \<Rightarrow> Some y)"

fun intercalate :: "string \<Rightarrow> string list \<Rightarrow> string" where
  "intercalate sep [] = []"
| "intercalate sep [p] = p"
| "intercalate sep (p # q # ps) = p @ sep @ intercalate sep (q # ps)"

lemma split_on_not_Nil [simp]: "split_on d s \<noteq> []"
  by (induction s) (auto split: list.splits)

lemma split_on_append [str_simps]:
  "d \<notin> set p \<Longrightarrow> split_on d (p @ d # s) = p # split_on d s"
  by (induction p) auto

lemma split_on_no_delim [str_simps]: "d \<notin> set p \<Longrightarrow> split_on d p = [p]"
  by (induction p) auto

lemma intercalate_split_on [str_simps]: "intercalate [d] (split_on d s) = s"
proof (induction s)
  case (Cons c s)
  then show ?case
    by (cases "split_on d s" rule: list.exhaust; cases "tl (split_on d s)") auto
qed simp

lemma split_on_pieces: "p \<in> set (split_on d s) \<Longrightarrow> d \<notin> set p"
  by (induction s arbitrary: p) (auto split: list.splits if_splits)

lemma split_on_intercalate [str_simps]:
  "ps \<noteq> [] \<Longrightarrow> \<forall>p \<in> set ps. d \<notin> set p \<Longrightarrow> split_on d (intercalate [d] ps) = ps"
  by (induction ps rule: induct_list012) (auto simp: str_simps)

lemma split_once_append [str_simps]:
  "d \<notin> set a \<Longrightarrow> split_once d (a @ d # b) = Some (a, b)"
  by (induction a) auto

lemma split_once_Some: "split_once d s = Some (a, b) \<longleftrightarrow> s = a @ d # b \<and> d \<notin> set a"
proof (induction s arbitrary: a)
  case (Cons c s)
  then show ?case
    by (cases a) (auto split: if_splits)
qed simp

lemma split_once_None: "split_once d s = None \<longleftrightarrow> d \<notin> set s"
  by (induction s) auto

lemma find_map_Some: "find_map f xs = Some y \<Longrightarrow> \<exists>x \<in> set xs. f x = Some y"
  by (induction xs) (auto split: option.splits)

lemma find_map_None: "find_map f xs = None \<longleftrightarrow> (\<forall>x \<in> set xs. f x = None)"
  by (induction xs) (auto split: option.splits)

text \<open>
  \<open>str::trim\<close> strips the 25 code points of Unicode's \<open>White_Space\<close> from both ends;
  \<open>white_space\<close> lists their UTF-8 encodings. No encoding is a prefix or a suffix of the
  encoding of another code point, so stripping bytes and stripping characters agree.
\<close>

definition white_space :: "string list" where
  "white_space =
     map (\<lambda>b. [char_of b]) [0x09, 0x0A, 0x0B, 0x0C, 0x0D, 0x20 :: nat]
     @ map (\<lambda>b. [char_of (0xC2 :: nat), char_of b]) [0x85, 0xA0 :: nat]
     @ [map char_of [0xE1, 0x9A, 0x80 :: nat]]
     @ map (\<lambda>b. [char_of (0xE2 :: nat), char_of (0x80 :: nat), char_of b])
         [0x80, 0x81, 0x82, 0x83, 0x84, 0x85, 0x86, 0x87, 0x88, 0x89, 0x8A, 0xA8, 0xA9, 0xAF :: nat]
     @ [map char_of [0xE2, 0x81, 0x9F :: nat], map char_of [0xE3, 0x80, 0x80 :: nat]]"

fun strip_prefix :: "string \<Rightarrow> string \<Rightarrow> string option" where
  "strip_prefix [] s = Some s"
| "strip_prefix (p # ps) [] = None"
| "strip_prefix (p # ps) (c # cs) = (if p = c then strip_prefix ps cs else None)"

fun strip_leading :: "string list \<Rightarrow> string \<Rightarrow> string" where
  "strip_leading pats s =
     (case find_map (\<lambda>p. strip_prefix p s) pats of
        None \<Rightarrow> s
      | Some s' \<Rightarrow> if length s' < length s then strip_leading pats s' else s)"

declare strip_leading.simps [simp del]

definition trim :: "string \<Rightarrow> string" where
  "trim s = rev (strip_leading (map rev white_space) (rev (strip_leading white_space s)))"

text \<open>
  \<open>str::to_uppercase\<close>, code point by code point: ASCII is spelled out, the table for the
  other code points (a sequence of bytes to a sequence of bytes) is the argument \<open>up\<close>.
\<close>

definition ascii_upper :: "char \<Rightarrow> char" where
  "ascii_upper c = (if 0x61 \<le> (of_char c :: nat) \<and> (of_char c :: nat) \<le> 0x7A
     then char_of ((of_char c :: nat) - 32) else c)"

definition utf8_tail :: "char \<Rightarrow> nat" where
  "utf8_tail c = (if (of_char c :: nat) < 0xE0 then 1 else if (of_char c :: nat) < 0xF0 then 2 else 3)"

fun to_uppercase :: "(string \<Rightarrow> string) \<Rightarrow> string \<Rightarrow> string" where
  "to_uppercase up [] = []"
| "to_uppercase up (c # cs) =
     (if (of_char c :: nat) < 0x80 then ascii_upper c # to_uppercase up cs
      else up (c # take (utf8_tail c) cs) @ to_uppercase up (drop (utf8_tail c) cs))"

text \<open>Printable ASCII without the space: never trimmed, and its own encoding.\<close>

definition graphic :: "char \<Rightarrow> bool" where
  "graphic c \<longleftrightarrow> 0x21 \<le> (of_char c :: nat) \<and> (of_char c :: nat) \<le> 0x7E"

lemma strip_prefix_Some: "strip_prefix p s = Some r \<longleftrightarrow> s = p @ r"
  by (induction p s rule: strip_prefix.induct) auto

lemma strip_leading_id:
  assumes "\<forall>p \<in> set pats. p \<noteq> [] \<and> \<not> graphic (hd p)" and "s = [] \<or> graphic (hd s)"
  shows "strip_leading pats s = s"
proof -
  have "strip_prefix p s = None" if "p \<in> set pats" for p
  proof (rule ccontr)
    assume "strip_prefix p s \<noteq> None"
    then obtain r where "s = p @ r"
      by (auto simp: strip_prefix_Some)
    with assms that show False
      by (cases p) auto
  qed
  then have "find_map (\<lambda>p. strip_prefix p s) pats = None"
    by (simp add: find_map_None)
  then show ?thesis
    by (simp add: strip_leading.simps [of pats s])
qed

lemma white_space_not_graphic:
  "\<forall>p \<in> set white_space. p \<noteq> [] \<and> \<not> graphic (hd p)"
  "\<forall>p \<in> set (map rev white_space). p \<noteq> [] \<and> \<not> graphic (hd p)"
  by (simp_all add: white_space_def graphic_def)

lemma trim_id:
  assumes "s = [] \<or> graphic (hd s) \<and> graphic (last s)"
  shows "trim s = s"
proof -
  have "strip_leading white_space s = s"
    using assms by (intro strip_leading_id white_space_not_graphic) auto
  moreover have "strip_leading (map rev white_space) (rev s) = rev s"
    using assms by (intro strip_leading_id white_space_not_graphic) (auto simp: hd_rev)
  ultimately show ?thesis
    by (simp add: trim_def)
qed

lemma trim_space: "trim (CHR '' '' # s) = trim s"
proof -
  have "find_map (\<lambda>p. strip_prefix p (CHR '' '' # s)) white_space = Some s"
    by (simp add: white_space_def char_of_eq_iff)
  then have "strip_leading white_space (CHR '' '' # s) = strip_leading white_space s"
    by (simp add: strip_leading.simps [of white_space "CHR '' '' # s"])
  then show ?thesis
    by (simp add: trim_def)
qed

lemma trim_graphic [str_simps]: "\<forall>c \<in> set s. graphic c \<Longrightarrow> trim s = s"
  by (rule trim_id) auto

lemma to_uppercase_ascii:
  "\<forall>c \<in> set s. (of_char c :: nat) < 0x80 \<and> ascii_upper c = c \<Longrightarrow> to_uppercase up s = s"
  by (induction s) auto

lemma to_uppercase_id:
  "\<forall>c \<in> set s. graphic c \<and> ascii_upper c = c \<Longrightarrow> to_uppercase up s = s"
  by (rule to_uppercase_ascii) (auto simp: graphic_def)

section \<open>Decimal formatting\<close>

definition digit_char :: "nat \<Rightarrow> char" where
  "digit_char d = char_of (48 + d)"

fun show_nat :: "nat \<Rightarrow> string" where
  "show_nat n = (if n < 10 then [digit_char n] else show_nat (n div 10) @ [digit_char (n mod 10)])"

declare show_nat.simps [simp del]

text \<open>The format specification \<open>{:0>width$}\<close>: fill on the left up to a minimal width.\<close>

definition pad_left :: "char \<Rightarrow> nat \<Rightarrow> string \<Rightarrow> string" where
  "pad_left c w s = replicate (w - length s) c @ s"

text \<open>The number a string of decimal digits denotes.\<close>

definition digit_value :: "char \<Rightarrow> nat" where
  "digit_value c = of_char c - 48"

definition decimal_value :: "string \<Rightarrow> nat" where
  "decimal_value s = foldl (\<lambda>a c. 10 * a + digit_value c) 0 s"

definition is_digit :: "char \<Rightarrow> bool" where
  "is_digit c \<longleftrightarrow> 48 \<le> (of_char c :: nat) \<and> (of_char c :: nat) \<le> 57"

lemma of_char_digit_char: "d < 10 \<Longrightarrow> (of_char (digit_char d) :: nat) = 48 + d"
  by (simp add: digit_char_def)

lemma is_digit_digit_char: "d < 10 \<Longrightarrow> is_digit (digit_char d)"
  by (simp add: is_digit_def of_char_digit_char)

lemma show_nat_digits: "c \<in> set (show_nat n) \<Longrightarrow> is_digit c"
proof (induction n rule: show_nat.induct)
  case (1 n)
  then show ?case
    by (auto simp: show_nat.simps [of n] is_digit_digit_char split: if_splits)
qed

lemma decimal_value_show_nat [simp]: "decimal_value (show_nat n) = n"
proof (induction n rule: show_nat.induct)
  case (1 n)
  then show ?case
    by (simp add: show_nat.simps [of n] decimal_value_def digit_value_def of_char_digit_char)
qed

lemma length_show_nat_le: "1 \<le> d \<Longrightarrow> n < 10 ^ d \<Longrightarrow> length (show_nat n) \<le> d"
proof (induction n arbitrary: d rule: show_nat.induct)
  case (1 n)
  show ?case
  proof (cases "n < 10")
    case True
    with 1 show ?thesis
      by (simp add: show_nat.simps [of n])
  next
    case False
    with 1 obtain e where d: "d = Suc e" "1 \<le> e"
      by (cases d; cases "d = 1") (auto simp: Suc_le_eq)
    with 1 have "n div 10 < 10 ^ e"
      by (auto simp: div_less_iff_less_mult algebra_simps)
    with 1 False d have "length (show_nat (n div 10)) \<le> e"
      by simp
    with False d show ?thesis
      by (simp add: show_nat.simps [of n])
  qed
qed

lemma show_nat_not_Nil [simp]: "show_nat n \<noteq> []"
  by (simp add: show_nat.simps [of n])

lemma decimal_value_pad [simp]: "decimal_value (pad_left CHR ''0'' w s) = decimal_value s"
proof -
  have "foldl (\<lambda>a c. 10 * a + digit_value c) 0 (replicate k CHR ''0'') = 0" for k
    by (induction k) (auto simp: digit_value_def)
  then show ?thesis
    by (simp add: decimal_value_def pad_left_def)
qed

lemma length_pad_left [simp]: "length (pad_left c w s) = max w (length s)"
  by (auto simp: pad_left_def)

lemma set_pad_left: "x \<in> set (pad_left c w s) \<Longrightarrow> x = c \<or> x \<in> set s"
  by (auto simp: pad_left_def split: if_splits)

section \<open>HashMap\<close>

text \<open>
  A \<open>std::collections::HashMap\<close>. The iteration order of the real map is unspecified and no
  result below depends on it; \<open>hm_inv\<close> says that no key occurs twice.
\<close>

type_synonym ('k, 'v) hashmap = "('k \<times> 'v) list"

definition hm_inv :: "('k, 'v) hashmap \<Rightarrow> bool" where
  "hm_inv m \<longleftrightarrow> distinct (map fst m)"

definition hm_get :: "('k, 'v) hashmap \<Rightarrow> 'k \<Rightarrow> 'v option" where
  "hm_get m k = map_of m k"

definition hm_insert :: "'k \<Rightarrow> 'v \<Rightarrow> ('k, 'v) hashmap \<Rightarrow> ('k, 'v) hashmap" where
  "hm_insert k v m = AList.update k v m"

definition hm_remove :: "'k \<Rightarrow> ('k, 'v) hashmap \<Rightarrow> ('k, 'v) hashmap" where
  "hm_remove k m = filter (\<lambda>(k', v). k' \<noteq> k) m"

definition hm_retain :: "('k \<Rightarrow> 'v \<Rightarrow> bool) \<Rightarrow> ('k, 'v) hashmap \<Rightarrow> ('k, 'v) hashmap" where
  "hm_retain P m = filter (\<lambda>(k, v). P k v) m"

definition hm_len :: "('k, 'v) hashmap \<Rightarrow> nat" where
  "hm_len m = length m"

definition hm_contains :: "('k, 'v) hashmap \<Rightarrow> 'k \<Rightarrow> bool" where
  "hm_contains m k \<longleftrightarrow> hm_get m k \<noteq> None"

lemma hm_inv_Nil [simp]: "hm_inv []"
  by (simp add: hm_inv_def)

lemma hm_get_Nil [simp]: "hm_get [] k = None"
  by (simp add: hm_get_def)

lemma hm_get_insert [hm_simps]: "hm_get (hm_insert k v m) = (hm_get m)(k \<mapsto> v)"
  by (simp add: hm_get_def hm_insert_def fun_eq_iff update_conv)

lemma hm_inv_insert [intro, hm_simps]: "hm_inv m \<Longrightarrow> hm_inv (hm_insert k v m)"
  by (simp add: hm_inv_def hm_insert_def distinct_update)

lemma hm_inv_filter: "hm_inv m \<Longrightarrow> hm_inv (filter P m)"
  by (auto simp: hm_inv_def distinct_map intro: inj_on_subset)

lemma hm_inv_retain [intro, hm_simps]: "hm_inv m \<Longrightarrow> hm_inv (hm_retain P m)"
  by (simp add: hm_retain_def hm_inv_filter)

lemma hm_inv_remove [intro, hm_simps]: "hm_inv m \<Longrightarrow> hm_inv (hm_remove k m)"
  by (simp add: hm_remove_def hm_inv_filter)

lemma hm_get_retain [hm_simps]:
  "hm_inv m \<Longrightarrow> hm_get (hm_retain P m) k =
     (case hm_get m k of None \<Rightarrow> None | Some v \<Rightarrow> if P k v then Some v else None)"
proof (induction m)
  case (Cons x m)
  obtain k' v where x: "x = (k', v)"
    by fastforce
  have "map_of (filter (\<lambda>(k, v). P k v) m) k' = None"
    using Cons.prems by (auto simp: x hm_inv_def map_of_eq_None_iff)
  moreover have "hm_inv m"
    using Cons.prems by (simp add: hm_inv_def)
  ultimately show ?case
    using Cons.IH by (auto simp: x hm_get_def hm_retain_def)
qed (simp add: hm_retain_def)

lemma hm_get_remove [hm_simps]: "hm_get (hm_remove k m) = (hm_get m)(k := None)"
  by (induction m) (auto simp: hm_get_def hm_remove_def fun_eq_iff)

lemma hm_len_card: "hm_inv m \<Longrightarrow> hm_len m = card (dom (hm_get m))"
proof -
  assume "hm_inv m"
  then have "card (set (map fst m)) = length (map fst m)"
    by (simp only: hm_inv_def distinct_card)
  then show ?thesis
    by (simp add: hm_len_def hm_get_def [abs_def] dom_map_of_conv_image_fst)
qed

lemma finite_dom_hm_get [simp]: "finite (dom (hm_get m))"
  by (simp add: hm_get_def [abs_def] finite_dom_map_of)

lemma hm_len_insert [hm_simps]:
  "hm_inv m \<Longrightarrow> hm_len (hm_insert k v m) = (if hm_contains m k then hm_len m else Suc (hm_len m))"
  by (auto simp: hm_len_card hm_inv_insert hm_get_insert hm_contains_def card_insert_if domIff)

lemma hm_len_retain: "hm_len (hm_retain P m) \<le> hm_len m"
  by (simp add: hm_len_def hm_retain_def)

lemma hm_len_remove: "hm_len (hm_remove k m) \<le> hm_len m"
  by (simp add: hm_len_def hm_remove_def)

end
