(* ===== verification/Session_Store.thy ===== *)
theory Session_Store
  imports AuthKit_Prelude
begin

text \<open>
  \<open>src/domain/session_store.rs\<close>: the port \<open>SessionStore\<close> (a locale) and its in-memory adapter
  (definitions, an interpretation of the locale, and the histories of calls a store can go
  through). Every method holds the mutex from its first line to its return, so a run of the
  store is a sequence of whole calls.

  Three things the methods read are not in the crate and are fields of \<open>call_env\<close>, one value
  per call: the wall clock (\<open>Utc::now()\<close>, read once by the eviction and once more by
  \<open>bind_state\<close>; nothing makes it monotonic), \<open>subtle\<close>'s byte comparison, and \<open>chrono\<close>'s
  addition of a duration to an instant, \<open>None\<close> where it panics because the date is out of
  range. Instants and durations are integers, in nanoseconds.
\<close>

section \<open>Data\<close>

datatype session_store_error =
    Poisoned
  | AtCapacity nat

definition session_store_error_display :: "session_store_error \<Rightarrow> string" where
  "session_store_error_display e = (case e of
     Poisoned \<Rightarrow> ''session store lock poisoned''
   | AtCapacity n \<Rightarrow> ''session store at capacity (max_entries='' @ show_nat n @ '')'')"

record entry =
  session_id :: string
  expires_at :: int

record in_memory_store =
  inner :: "(string, entry) hashmap"
  poisoned :: bool
  ttl :: int
  max_entries :: nat

record call_env =
  now_evict :: int
  now_bind :: int
  ct_eq :: "u8 list \<Rightarrow> u8 list \<Rightarrow> bool"
  add_duration :: "int \<Rightarrow> int \<Rightarrow> int option"

text \<open>What the two crates document: \<open>ct_eq\<close> is equality, a sum that is in range is the sum.\<close>

definition env_ok :: "call_env \<Rightarrow> bool" where
  "env_ok e \<longleftrightarrow> (\<forall>a b. ct_eq e a b = (a = b))
     \<and> (\<forall>t d u. add_duration e t d = Some u \<longrightarrow> u = t + d)"

section \<open>Operations\<close>

definition DEFAULT_MAX_ENTRIES :: nat where
  "DEFAULT_MAX_ENTRIES = 65536"

definition duration_minutes :: "int \<Rightarrow> int" where
  "duration_minutes n = n * 60 * 1000000000"

definition store_with_capacity :: "int \<Rightarrow> nat \<Rightarrow> in_memory_store" where
  "store_with_capacity d n = \<lparr>inner = [], poisoned = False, ttl = d, max_entries = n\<rparr>"

definition store_with_ttl :: "int \<Rightarrow> in_memory_store" where
  "store_with_ttl d = store_with_capacity d DEFAULT_MAX_ENTRIES"

definition store_default :: in_memory_store where
  "store_default = store_with_capacity (duration_minutes 15) DEFAULT_MAX_ENTRIES"

definition store_new :: in_memory_store where
  "store_new = store_default"

definition store_len :: "in_memory_store \<Rightarrow> nat" where
  "store_len s = (if poisoned s then 0 else hm_len (inner s))"

definition store_is_empty :: "in_memory_store \<Rightarrow> bool" where
  "store_is_empty s \<longleftrightarrow> store_len s = 0"

definition evict_expired :: "int \<Rightarrow> (string, entry) hashmap \<Rightarrow> (string, entry) hashmap" where
  "evict_expired now m = hm_retain (\<lambda>_ en. now < expires_at en) m"

text \<open>
  \<open>bind_state\<close>. The addition comes after the eviction and before the insertion; when it panics
  the guard is dropped by unwinding, which keeps the eviction and poisons the mutex.
\<close>

definition bind_state ::
  "call_env \<Rightarrow> string \<Rightarrow> string \<Rightarrow> in_memory_store
     \<Rightarrow> (session_store_error + unit) outcome \<times> in_memory_store" where
  "bind_state e state_token sid s =
     (if poisoned s then (Ret (Inl Poisoned), s)
      else let m = evict_expired (now_evict e) (inner s) in
        if max_entries s \<noteq> 0 \<and> max_entries s \<le> hm_len m \<and> \<not> hm_contains m state_token
        then (Ret (Inl (AtCapacity (max_entries s))), s\<lparr>inner := m\<rparr>)
        else case add_duration e (now_bind e) (ttl s) of
            None \<Rightarrow> (Panic, s\<lparr>inner := m, poisoned := True\<rparr>)
          | Some t \<Rightarrow> (Ret (Inr ()),
              s\<lparr>inner := hm_insert state_token \<lparr>session_id = sid, expires_at = t\<rparr> m\<rparr>))"

definition verify_state ::
  "call_env \<Rightarrow> string \<Rightarrow> string \<Rightarrow> in_memory_store
     \<Rightarrow> (session_store_error + bool) outcome \<times> in_memory_store" where
  "verify_state e state_token sid s =
     (if poisoned s then (Ret (Inl Poisoned), s)
      else let m = evict_expired (now_evict e) (inner s) in
        (Ret (Inr (case hm_get m state_token of
             None \<Rightarrow> False
           | Some en \<Rightarrow> ct_eq e (as_bytes (session_id en)) (as_bytes sid))),
         s\<lparr>inner := m\<rparr>))"

definition revoke_state ::
  "string \<Rightarrow> in_memory_store \<Rightarrow> (session_store_error + unit) outcome \<times> in_memory_store" where
  "revoke_state state_token s =
     (if poisoned s then (Ret (Inl Poisoned), s)
      else (Ret (Inr ()), s\<lparr>inner := hm_remove state_token (inner s)\<rparr>))"

section \<open>The port\<close>

text \<open>
  What a client of \<open>dyn SessionStore\<close> may rely on, with \<open>bound c s\<close> the bindings that count for
  a call made in the environment \<open>c\<close>: verification answers whether the token is bound to this
  very session and changes no binding, revocation unbinds one token, and once a token is bound
  again no earlier session is bound to it.
\<close>

locale session_store_port =
  fixes bind :: "'c \<Rightarrow> string \<Rightarrow> string \<Rightarrow> 's \<Rightarrow> (session_store_error + unit) outcome \<times> 's"
    and verify :: "'c \<Rightarrow> string \<Rightarrow> string \<Rightarrow> 's \<Rightarrow> (session_store_error + bool) outcome \<times> 's"
    and revoke :: "string \<Rightarrow> 's \<Rightarrow> (session_store_error + unit) outcome \<times> 's"
    and bound :: "'c \<Rightarrow> 's \<Rightarrow> string \<Rightarrow> string option"
    and invar :: "'s \<Rightarrow> bool"
    and callok :: "'c \<Rightarrow> bool"
  assumes bind_invar: "invar s \<Longrightarrow> invar (snd (bind c t i s))"
    and verify_invar: "invar s \<Longrightarrow> invar (snd (verify c t i s))"
    and revoke_invar: "invar s \<Longrightarrow> invar (snd (revoke t s))"
    and verify_returns: "verify c t i s \<noteq> (Panic, s')"
    and verify_answer:
      "callok c \<Longrightarrow> invar s \<Longrightarrow> verify c t i s = (Ret (Inr b), s') \<Longrightarrow> b \<longleftrightarrow> bound c s t = Some i"
    and verify_frame: "invar s \<Longrightarrow> bound c (snd (verify c t i s)) = bound c s"
    and bind_binds:
      "invar s \<Longrightarrow> bind c t i s = (Ret (Inr ()), s') \<Longrightarrow> bound c' s' t = Some j \<Longrightarrow> j = i"
    and bind_frame: "invar s \<Longrightarrow> t' \<noteq> t \<Longrightarrow> bound c (snd (bind c t i s)) t' = bound c s t'"
    and revoke_unbinds:
      "invar s \<Longrightarrow> revoke t s = (Ret (Inr ()), s') \<Longrightarrow> bound c s' t = None"
    and revoke_frame: "invar s \<Longrightarrow> t' \<noteq> t \<Longrightarrow> bound c (snd (revoke t s)) t' = bound c s t'"
begin

lemma verify_accepts:
  "callok c \<Longrightarrow> invar s \<Longrightarrow> fst (verify c t i s) = Ret (Inr True) \<Longrightarrow> bound c s t = Some i"
  by (metis verify_answer prod.collapse)

lemma verify_again:
  assumes "callok c" and "invar s" and "verify c t i s = (Ret (Inr b), s')"
    and "verify c t i s' = (Ret (Inr b'), s'')"
  shows "b' = b"
proof -
  have "invar s'" and "bound c s' = bound c s"
    using assms(2,3) verify_invar [of s c t i] verify_frame [of s c t i] by simp_all
  then show ?thesis
    using assms verify_answer by metis
qed

lemma rebound_not_verified:
  assumes "callok c'" and "invar s" and "bind c t i s = (Ret (Inr ()), s')" and "j \<noteq> i"
  shows "fst (verify c' t j s') \<noteq> Ret (Inr True)"
proof
  assume "fst (verify c' t j s') = Ret (Inr True)"
  moreover have "invar s'"
    using assms(2,3) bind_invar [of s c t i] by simp
  ultimately have "bound c' s' t = Some j"
    using assms(1) by (simp add: verify_accepts)
  then show False
    using assms(2,3,4) bind_binds by metis
qed

lemma revoked_not_verified:
  assumes "callok c" and "invar s" and "revoke t s = (Ret (Inr ()), s')"
  shows "fst (verify c t i s') \<noteq> Ret (Inr True)"
proof
  assume "fst (verify c t i s') = Ret (Inr True)"
  moreover have "invar s'"
    using assms(2,3) revoke_invar [of s t] by simp
  ultimately have "bound c s' t = Some i"
    using assms(1) by (simp add: verify_accepts)
  then show False
    using assms(2,3) revoke_unbinds by (metis option.distinct(1))
qed

end

section \<open>The in-memory store implements the port\<close>

definition store_inv :: "in_memory_store \<Rightarrow> bool" where
  "store_inv s \<longleftrightarrow> hm_inv (inner s) \<and> (max_entries s \<noteq> 0 \<longrightarrow> hm_len (inner s) \<le> max_entries s)"

text \<open>The abstract content: token to session and expiry; \<open>live\<close> keeps what has not expired.\<close>

definition bindings :: "in_memory_store \<Rightarrow> string \<Rightarrow> (string \<times> int) option" where
  "bindings s t = map_option (\<lambda>en. (session_id en, expires_at en)) (hm_get (inner s) t)"

definition live :: "int \<Rightarrow> (string \<Rightarrow> (string \<times> int) option) \<Rightarrow> string \<Rightarrow> (string \<times> int) option" where
  "live now b t = (case b t of None \<Rightarrow> None | Some (i, x) \<Rightarrow> if now < x then Some (i, x) else None)"

definition bound_session :: "call_env \<Rightarrow> in_memory_store \<Rightarrow> string \<Rightarrow> string option" where
  "bound_session e s t = map_option fst (live (now_evict e) (bindings s) t)"

lemma hm_inv_evict [intro, simp]: "hm_inv m \<Longrightarrow> hm_inv (evict_expired now m)"
  by (auto simp: evict_expired_def hm_simps)

lemma hm_get_evict [hm_simps]:
  "hm_inv m \<Longrightarrow> hm_get (evict_expired now m) t =
     (case hm_get m t of None \<Rightarrow> None | Some en \<Rightarrow> if now < expires_at en then Some en else None)"
  by (simp add: evict_expired_def hm_simps)

lemma hm_len_evict: "hm_len (evict_expired now m) \<le> hm_len m"
  by (simp add: evict_expired_def hm_len_retain)

lemmas store_op_defs = bind_state_def verify_state_def revoke_state_def

lemma bindings_evict:
  "hm_inv (inner s) \<Longrightarrow> bindings (s\<lparr>inner := evict_expired now (inner s)\<rparr>) = live now (bindings s)"
  by (auto simp: bindings_def live_def hm_simps fun_eq_iff split: option.splits)

lemma live_idem [simp]: "live now (live now b) = live now b"
  by (auto simp: live_def fun_eq_iff split: option.splits)

lemma live_later: "now \<le> now' \<Longrightarrow> live now' (live now b) = live now' b"
  by (auto simp: live_def fun_eq_iff split: option.splits)

lemma store_inv_evict:
  "store_inv s \<Longrightarrow> store_inv (s\<lparr>inner := evict_expired now (inner s), poisoned := p\<rparr>)"
  using hm_len_evict [of now "inner s"] by (auto simp: store_inv_def)

lemma store_inv_bind: "store_inv s \<Longrightarrow> store_inv (snd (bind_state e t i s))"
  using hm_len_evict [of "now_evict e" "inner s"]
  by (auto simp: bind_state_def Let_def store_inv_def hm_simps split: option.splits)

lemma store_inv_verify: "store_inv s \<Longrightarrow> store_inv (snd (verify_state e t i s))"
  using hm_len_evict [of "now_evict e" "inner s"]
  by (auto simp: verify_state_def Let_def store_inv_def)

lemma store_inv_revoke: "store_inv s \<Longrightarrow> store_inv (snd (revoke_state t s))"
  using hm_len_remove [of t "inner s"]
  by (auto simp: revoke_state_def store_inv_def hm_simps)

lemma store_inv_with_capacity [simp]: "store_inv (store_with_capacity d n)"
  by (simp add: store_inv_def store_with_capacity_def hm_len_def)

lemma verify_state_answer:
  assumes "env_ok e" and "store_inv s"
  shows "verify_state e t i s =
    (if poisoned s then (Ret (Inl Poisoned), s)
     else (Ret (Inr (bound_session e s t = Some i)),
           s\<lparr>inner := evict_expired (now_evict e) (inner s)\<rparr>))"
  using assms
  by (auto simp: verify_state_def bound_session_def bindings_def live_def env_ok_def store_inv_def
      hm_simps Let_def split: option.splits)

lemma bound_session_verify_same:
  "store_inv s \<Longrightarrow> bound_session e (snd (verify_state e t i s)) = bound_session e s"
  by (auto simp: verify_state_def bound_session_def Let_def store_inv_def bindings_evict fun_eq_iff)

lemma bindings_insert:
  "bindings (s\<lparr>inner := hm_insert t en m\<rparr>) =
     (bindings (s\<lparr>inner := m\<rparr>))(t \<mapsto> (session_id en, expires_at en))"
  by (auto simp: bindings_def hm_simps fun_eq_iff)

lemma bindings_poisoned [simp]: "bindings (s\<lparr>poisoned := p\<rparr>) = bindings s"
  by (simp add: bindings_def fun_eq_iff)

lemma bind_state_bindings:
  assumes "store_inv s" and "bind_state e t i s = (r, s')"
  shows "bindings s' = (if poisoned s then bindings s
     else if r = Ret (Inr ())
     then (live (now_evict e) (bindings s))
            (t \<mapsto> (i, the (add_duration e (now_bind e) (ttl s))))
     else live (now_evict e) (bindings s))"
proof -
  have "bindings (s\<lparr>inner := evict_expired (now_evict e) (inner s), poisoned := p\<rparr>) =
      live (now_evict e) (bindings s)" for p
    using assms(1) bindings_evict [of s "now_evict e"] by (simp add: store_inv_def bindings_def fun_eq_iff)
  then show ?thesis
    using assms(2) bindings_evict [of s "now_evict e"] assms(1)
    by (auto simp: bind_state_def Let_def bindings_insert store_inv_def
        split: if_splits option.splits)
qed

interpretation mem: session_store_port bind_state verify_state revoke_state bound_session store_inv env_ok
proof (unfold_locales, goal_cases)
  case (4 c t i s s')
  show ?case
    by (auto simp: verify_state_def Let_def)
next
  case (5 c s t i b s')
  then show ?case
    by (auto simp: verify_state_answer split: if_splits)
next
  case (7 s c t i s' c' j)
  then show ?case
    by (auto simp: bound_session_def live_def bind_state_bindings [OF 7(1,2)] bind_state_def
        split: if_splits)
next
  case (8 s t' t c i)
  then show ?case
    using bind_state_bindings [of s c t i] by (cases "bind_state c t i s")
      (auto simp: bound_session_def live_def split: option.splits)
next
  case (9 s t s' c)
  then show ?case
    by (auto simp: revoke_state_def bound_session_def bindings_def live_def hm_simps split: if_splits)
next
  case (10 s t' t c)
  then show ?case
    by (auto simp: revoke_state_def bound_session_def bindings_def live_def hm_simps)
qed (simp_all add: store_inv_bind store_inv_verify store_inv_revoke bound_session_verify_same)

lemma verify_state_stable:
  assumes "env_ok e" and "store_inv s" and "verify_state e t i s = (Ret (Inr b), s')"
  shows "verify_state e t i s' = (Ret (Inr b), s')"
proof -
  have np: "\<not> poisoned s" and s': "s' = s\<lparr>inner := evict_expired (now_evict e) (inner s)\<rparr>"
    using assms(3) by (auto simp: verify_state_def Let_def split: if_splits)
  have "evict_expired (now_evict e) (inner s') = inner s'"
    by (simp add: s' evict_expired_def hm_retain_def)
  then have "verify_state e t i s' = (fst (verify_state e t i s'), s')"
    using np by (simp add: verify_state_def Let_def s')
  moreover obtain b' where "fst (verify_state e t i s') = Ret (Inr b')"
    using np by (simp add: verify_state_def Let_def s')
  ultimately show ?thesis
    using mem.verify_again [OF assms] by simp
qed

section \<open>Histories\<close>

text \<open>
  What a store has been through, newest call first, with the result of each call. The store
  starts empty; a call may be made in any environment whose crates behave as documented, so
  the clock readings of a history are arbitrary.
\<close>

datatype store_event =
    Bound call_env string string "(session_store_error + unit) outcome"
  | Verified call_env string string "(session_store_error + bool) outcome"
  | Revoked string "(session_store_error + unit) outcome"

inductive store_history :: "int \<Rightarrow> nat \<Rightarrow> store_event list \<Rightarrow> in_memory_store \<Rightarrow> bool"
  for d :: int and n :: nat where
  created: "store_history d n [] (store_with_capacity d n)"
| bind: "store_history d n evs s \<Longrightarrow> env_ok e \<Longrightarrow> bind_state e t i s = (r, s')
    \<Longrightarrow> store_history d n (Bound e t i r # evs) s'"
| verify: "store_history d n evs s \<Longrightarrow> env_ok e \<Longrightarrow> verify_state e t i s = (a, s')
    \<Longrightarrow> store_history d n (Verified e t i a # evs) s'"
| revoke: "store_history d n evs s \<Longrightarrow> revoke_state t s = (r, s')
    \<Longrightarrow> store_history d n (Revoked t r # evs) s'"

inductive_cases store_history_NilE: "store_history d n [] s"
inductive_simps store_history_Nil: "store_history d n [] s"
inductive_simps store_history_Bound: "store_history d n (Bound e t i r # evs) s"
inductive_simps store_history_Revoked: "store_history d n (Revoked t r # evs) s"

text \<open>The last binding of a token that no later revocation removed, with its expiry.\<close>

fun last_binding :: "int \<Rightarrow> store_event list \<Rightarrow> string \<Rightarrow> (string \<times> int) option" where
  "last_binding d [] t = None"
| "last_binding d (Bound e u i r # evs) t =
     (if u = t \<and> r = Ret (Inr ()) then Some (i, now_bind e + d) else last_binding d evs t)"
| "last_binding d (Verified e u i a # evs) t = last_binding d evs t"
| "last_binding d (Revoked u r # evs) t =
     (if u = t \<and> r = Ret (Inr ()) then None else last_binding d evs t)"

fun eviction_times :: "store_event list \<Rightarrow> int list" where
  "eviction_times [] = []"
| "eviction_times (Bound e u i r # evs) = now_evict e # eviction_times evs"
| "eviction_times (Verified e u i a # evs) = now_evict e # eviction_times evs"
| "eviction_times (Revoked u r # evs) = eviction_times evs"

definition tracks :: "(string \<Rightarrow> (string \<times> int) option) \<Rightarrow> (string \<Rightarrow> (string \<times> int) option)
    \<Rightarrow> int set \<Rightarrow> bool" where
  "tracks b h ts \<longleftrightarrow> (\<forall>t. b t = h t \<or> b t = None \<and> (\<exists>i x. h t = Some (i, x) \<and> (\<exists>now \<in> ts. x \<le> now)))"

lemma tracks_live: "tracks b h ts \<Longrightarrow> tracks (live now b) h (insert now ts)"
  unfolding tracks_def
proof (rule allI)
  fix t
  assume b: "\<forall>t. b t = h t \<or> b t = None \<and> (\<exists>i x. h t = Some (i, x) \<and> (\<exists>now \<in> ts. x \<le> now))"
  then show "live now b t = h t \<or> live now b t = None \<and>
      (\<exists>i x. h t = Some (i, x) \<and> (\<exists>now \<in> insert now ts. x \<le> now))"
    using spec [OF b, of t] by (cases "h t") (auto simp: live_def split: if_splits)
qed

lemma tracks_mono: "tracks b h ts \<Longrightarrow> tracks b h (insert now ts)"
  unfolding tracks_def by blast

lemma tracks_upd: "tracks b h ts \<Longrightarrow> tracks (b(t := v)) (h(t := v)) ts"
  by (simp add: tracks_def)

lemma last_binding_upd:
  "last_binding d (Bound e u i r # evs) =
     (if r = Ret (Inr ()) then (last_binding d evs)(u \<mapsto> (i, now_bind e + d)) else last_binding d evs)"
  "last_binding d (Revoked u r # evs) =
     (if r = Ret (Inr ()) then (last_binding d evs)(u := None) else last_binding d evs)"
  "last_binding d (Verified e u j a # evs) = last_binding d evs"
  by (auto simp: fun_eq_iff)

lemma store_op_config:
  "ttl (snd (bind_state e t i s)) = ttl s" "max_entries (snd (bind_state e t i s)) = max_entries s"
  "ttl (snd (verify_state e t i s)) = ttl s" "max_entries (snd (verify_state e t i s)) = max_entries s"
  "ttl (snd (revoke_state t s)) = ttl s" "max_entries (snd (revoke_state t s)) = max_entries s"
  by (auto simp: store_op_defs Let_def split: option.splits)

lemma store_history_inv:
  "store_history d n evs s \<Longrightarrow> store_inv s \<and> ttl s = d \<and> max_entries s = n"
proof (induction rule: store_history.induct)
  case created
  then show ?case
    by (simp add: store_with_capacity_def store_inv_def hm_len_def)
next
  case (bind evs s e t i r s')
  then show ?case
    using store_inv_bind [of s e t i] store_op_config(1,2) [of e t i s] by simp
next
  case (verify evs s e t i a s')
  then show ?case
    using store_inv_verify [of s e t i] store_op_config(3,4) [of e t i s] by simp
next
  case (revoke evs s t r s')
  then show ?case
    using store_inv_revoke [of s t] store_op_config(5,6) [of t s] by simp
qed

lemma bind_state_expiry:
  assumes "env_ok e" and "bind_state e t i s = (Ret (Inr ()), s')"
  shows "\<not> poisoned s" and "add_duration e (now_bind e) (ttl s) = Some (now_bind e + ttl s)"
proof -
  show "\<not> poisoned s"
    using assms(2) by (auto simp: bind_state_def)
  obtain x where "add_duration e (now_bind e) (ttl s) = Some x"
    using assms(2) by (auto simp: bind_state_def Let_def split: if_splits option.splits)
  with assms(1) show "add_duration e (now_bind e) (ttl s) = Some (now_bind e + ttl s)"
    by (auto simp: env_ok_def)
qed

lemma store_history_tracks:
  "store_history d n evs s \<Longrightarrow> tracks (bindings s) (last_binding d evs) (set (eviction_times evs))"
proof (induction rule: store_history.induct)
  case created
  then show ?case
    by (simp add: tracks_def bindings_def store_with_capacity_def)
next
  case (bind evs s e t i r s')
  note inv = store_history_inv [OF bind.hyps(1)]
  have b: "bindings s' = (if poisoned s then bindings s
     else if r = Ret (Inr ()) then (live (now_evict e) (bindings s))(t \<mapsto> (i, now_bind e + d))
     else live (now_evict e) (bindings s))"
    using bind_state_bindings [OF _ bind.hyps(3)] bind_state_expiry [OF bind.hyps(2)] bind.hyps(3) inv
    by auto
  show ?case
  proof (cases "poisoned s")
    case True
    then have "r \<noteq> Ret (Inr ())"
      using bind.hyps(3) by (auto simp: bind_state_def)
    with True show ?thesis
      using bind.IH by (simp add: b last_binding_upd tracks_mono del: last_binding.simps)
  next
    case False
    have evs: "set (eviction_times (Bound e t i r # evs)) = insert (now_evict e) (set (eviction_times evs))"
      by simp
    show ?thesis
      unfolding b last_binding_upd evs using False tracks_live [OF bind.IH, of "now_evict e"]
      by (cases "r = Ret (Inr ())") (simp_all only: if_True if_False tracks_upd simp_thms)
  qed
next
  case (verify evs s e t i a s')
  have "bindings s' = bindings s \<or> bindings s' = live (now_evict e) (bindings s)"
    using verify.hyps(3) bindings_evict [of s] store_history_inv [OF verify.hyps(1)]
    by (auto simp: verify_state_def Let_def store_inv_def split: if_splits)
  then show ?case
    using verify.IH by (auto simp: last_binding_upd intro: tracks_live tracks_mono)
next
  case (revoke evs s t r s')
  have "bindings s' = (if r = Ret (Inr ()) then (bindings s)(t := None) else bindings s)"
    using revoke.hyps(2)
    by (auto simp: revoke_state_def bindings_def hm_simps fun_eq_iff split: if_splits)
  then show ?case
    using revoke.IH unfolding last_binding_upd eviction_times.simps
    by (cases "r = Ret (Inr ())") (simp_all only: if_True if_False tracks_upd simp_thms)
qed

lemma last_binding_Some:
  "last_binding d evs t = Some (i, x) \<Longrightarrow> \<exists>e'. Bound e' t i (Ret (Inr ())) \<in> set evs \<and> x = now_bind e' + d"
  by (induction d evs t rule: last_binding.induct) (auto split: if_splits)

lemma verified_last_binding:
  assumes "store_history d n evs s" and "env_ok e" and "fst (verify_state e t i s) = Ret (Inr True)"
  shows "\<exists>x. last_binding d evs t = Some (i, x) \<and> now_evict e < x"
proof -
  have "bound_session e s t = Some i"
    using assms mem.verify_accepts store_history_inv by blast
  then show ?thesis
    using store_history_tracks [OF assms(1), unfolded tracks_def, THEN spec [of _ t]]
    by (cases "last_binding d evs t") (auto simp: bound_session_def live_def split: if_splits)
qed

lemma bound_event_of_verified:
  assumes "store_history d n evs s" and "env_ok e" and "fst (verify_state e t i s) = Ret (Inr True)"
  shows "\<exists>e'. Bound e' t i (Ret (Inr ())) \<in> set evs \<and> now_evict e < now_bind e' + d"
  using verified_last_binding [OF assms] last_binding_Some by blast

section \<open>Properties\<close>

text \<open>The environment the witnesses use: both crates on their documented domain.\<close>

definition sample_env :: "int \<Rightarrow> call_env" where
  "sample_env now = \<lparr>now_evict = now, now_bind = now, ct_eq = (=),
     add_duration = (\<lambda>t d. if \<bar>t + d\<bar> \<le> 8 * 10 ^ 21 then Some (t + d) else None)\<rparr>"

lemma sample_env_ok [simp]: "env_ok (sample_env now)"
  by (simp add: env_ok_def sample_env_def)

lemmas store_eval = store_with_capacity_def bind_state_def verify_state_def revoke_state_def
  evict_expired_def hm_retain_def hm_insert_def hm_remove_def hm_len_def hm_contains_def hm_get_def
  sample_env_def Let_def

text \<open>
  C1. Verification is exact. In every history of a store, with arbitrary calls in any order
  and a clock that does not run behind the reading this call makes, \<open>verify_state\<close> answers
  \<open>Ok(true)\<close> exactly when the last binding of the token that was not revoked since names this
  very session and has not expired, and it never panics.
\<close>

theorem verify_state_exact:
  assumes "store_history d n evs s" and "env_ok e"
    and "\<forall>now \<in> set (eviction_times evs). now \<le> now_evict e" and "\<not> poisoned s"
  shows "fst (verify_state e t i s) =
    Ret (Inr (\<exists>x. last_binding d evs t = Some (i, x) \<and> now_evict e < x))"
proof -
  have "store_inv s"
    using store_history_inv [OF assms(1)] by simp
  then have "fst (verify_state e t i s) = Ret (Inr (bound_session e s t = Some i))"
    using assms(2,4) by (simp add: verify_state_answer)
  also have "bound_session e s t = Some i \<longleftrightarrow>
      (\<exists>x. last_binding d evs t = Some (i, x) \<and> now_evict e < x)"
    using store_history_tracks [OF assms(1), unfolded tracks_def, THEN spec [of _ t]] assms(3)
    by (cases "last_binding d evs t") (auto simp: bound_session_def live_def split: if_splits)
  finally show ?thesis .
qed

theorem verify_state_exact_witness:
  "\<exists>evs s. store_history 10 2 evs s \<and> \<not> poisoned s
     \<and> fst (verify_state (sample_env 5) ''st'' ''alice'' s) = Ret (Inr True)
     \<and> fst (verify_state (sample_env 5) ''st'' ''mallory'' s) = Ret (Inr False)"
proof -
  let ?b = "bind_state (sample_env 0) ''st'' ''alice'' (store_with_capacity 10 2)"
  have h: "store_history 10 2 [Bound (sample_env 0) ''st'' ''alice'' (fst ?b)] (snd ?b)"
    by (rule store_history.bind [OF store_history.created]) simp_all
  have r: "fst ?b = Ret (Inr ())" and p: "\<not> poisoned (snd ?b)"
    by (simp_all add: store_eval)
  have "fst (verify_state (sample_env 5) ''st'' i (snd ?b)) = Ret (Inr (i = ''alice''))" for i
    using verify_state_exact [OF h, of "sample_env 5" "''st''" i] r p
    by (auto simp: sample_env_def [of 0] sample_env_def [of 5] env_ok_def)
  with h p show ?thesis
    by (intro exI conjI) auto
qed

text \<open>
  C13. The capacity ceiling holds in every history: with a ceiling other than 0 (the opt-out)
  the store never holds more than \<open>max_entries\<close> bindings, whatever was called and whatever the
  clock said.
\<close>

theorem store_capacity_never_exceeded:
  assumes "store_history d n evs s" and "n \<noteq> 0"
  shows "hm_len (inner s) \<le> n \<and> store_len s \<le> n"
  using store_history_inv [OF assms(1)] assms(2) by (auto simp: store_inv_def store_len_def)

theorem store_capacity_never_exceeded_witness:
  "\<exists>s. store_history 10 1 [Bound (sample_env 0) ''b'' ''y'' (Ret (Inl (AtCapacity 1))),
        Bound (sample_env 0) ''a'' ''x'' (Ret (Inr ()))] s \<and> hm_len (inner s) \<le> 1 \<and> store_len s \<le> 1"
proof -
  let ?s1 = "snd (bind_state (sample_env 0) ''a'' ''x'' (store_with_capacity 10 1))"
  let ?s2 = "snd (bind_state (sample_env 0) ''b'' ''y'' ?s1)"
  have "store_history 10 1 [Bound (sample_env 0) ''a'' ''x'' (Ret (Inr ()))] ?s1"
    by (rule store_history.bind [OF store_history.created sample_env_ok]) (simp add: store_eval)
  then have h: "store_history 10 1 [Bound (sample_env 0) ''b'' ''y'' (Ret (Inl (AtCapacity 1))),
      Bound (sample_env 0) ''a'' ''x'' (Ret (Inr ()))] ?s2"
    by (rule store_history.bind [OF _ sample_env_ok]) (simp add: store_eval)
  show ?thesis
    using h store_capacity_never_exceeded [OF h one_neq_zero] by blast
qed

text \<open>The specification of \<open>bind_state\<close> on the abstract content.\<close>

definition spec_bind ::
  "int \<Rightarrow> int \<Rightarrow> nat \<Rightarrow> string \<Rightarrow> string \<Rightarrow> (string \<Rightarrow> (string \<times> int) option)
     \<Rightarrow> session_store_error + (string \<Rightarrow> (string \<times> int) option)" where
  "spec_bind now x cap t i b =
     (if cap \<noteq> 0 \<and> cap \<le> card (dom (live now b)) \<and> live now b t = None
      then Inl (AtCapacity cap) else Inr ((live now b)(t \<mapsto> (i, x))))"

text \<open>
  \<open>bind_state\<close> refines a map with expiry. On the abstract content of the store it drops
  what has expired, refuses a new token when the rest fills the ceiling (an existing one is
  always rebound), and otherwise sets the token to the session with the expiry \<open>chrono\<close>
  computed; the error and the resulting content are those of the specification.
\<close>

theorem bind_state_refines_spec:
  assumes "store_inv s" and "\<not> poisoned s"
    and "add_duration e (now_bind e) (ttl s) = Some x" and "bind_state e t i s = (r, s')"
  shows "\<not> poisoned s' \<and> (case spec_bind (now_evict e) x (max_entries s) t i (bindings s) of
       Inl err \<Rightarrow> r = Ret (Inl err) \<and> bindings s' = live (now_evict e) (bindings s)
     | Inr b \<Rightarrow> r = Ret (Inr ()) \<and> bindings s' = b)"
proof -
  let ?m = "evict_expired (now_evict e) (inner s)"
  have inv: "hm_inv ?m" and live: "live (now_evict e) (bindings s) = bindings (s\<lparr>inner := ?m\<rparr>)"
    using assms(1) by (simp_all add: store_inv_def bindings_evict)
  have "dom (live (now_evict e) (bindings s)) = dom (hm_get ?m)"
    unfolding live by (auto simp: bindings_def)
  then have card: "card (dom (live (now_evict e) (bindings s))) = hm_len ?m"
    using inv by (simp add: hm_len_card)
  have get: "live (now_evict e) (bindings s) t = None \<longleftrightarrow> \<not> hm_contains ?m t"
    unfolding live by (simp add: bindings_def hm_contains_def)
  show ?thesis
    unfolding bind_state_bindings [OF assms(1,4)] spec_bind_def card get
    using assms(2,3,4) by (auto simp: bind_state_def Let_def split: if_splits)
qed

theorem bind_state_refines_spec_witness:
  "case spec_bind 0 10 2 ''t'' ''i'' (bindings (store_with_capacity 10 2)) of
     Inl err \<Rightarrow> False
   | Inr b \<Rightarrow> bindings (snd (bind_state (sample_env 0) ''t'' ''i'' (store_with_capacity 10 2))) = b"
proof -
  let ?s = "store_with_capacity 10 2"
  have "\<not> poisoned ?s" and "add_duration (sample_env 0) (now_bind (sample_env 0)) (ttl ?s) = Some 10"
    by (simp_all add: store_eval)
  from bind_state_refines_spec [OF store_inv_with_capacity this surjective_pairing, of "''t''" "''i''"]
  show ?thesis
    by (auto simp: store_eval split: sum.splits)
qed

text \<open>
  Soundness without any assumption on the clock. When \<open>verify_state\<close> accepts a token for a
  session, the history holds a successful \<open>bind_state\<close> of exactly this pair, and the TTL counted
  from that call's clock reading has not run out; in particular a store with a non-positive TTL
  never accepts at or after the time of the binding.
\<close>

theorem verify_state_sound:
  assumes "store_history d n evs s" and "env_ok e" and "fst (verify_state e t i s) = Ret (Inr True)"
  shows "\<exists>e'. Bound e' t i (Ret (Inr ())) \<in> set evs \<and> now_evict e < now_bind e' + d"
  using assms by (rule bound_event_of_verified)

theorem verify_state_sound_witness:
  "\<exists>e'. Bound e' ''t'' ''i'' (Ret (Inr ())) \<in> set [Bound (sample_env 0) ''t'' ''i'' (Ret (Inr ()))]
     \<and> now_evict (sample_env 9) < now_bind e' + 10"
proof (rule verify_state_sound)
  let ?s = "snd (bind_state (sample_env 0) ''t'' ''i'' (store_with_capacity 10 2))"
  show "store_history 10 2 [Bound (sample_env 0) ''t'' ''i'' (Ret (Inr ()))] ?s"
    by (rule store_history.bind [OF store_history.created sample_env_ok]) (simp add: store_eval)
  show "fst (verify_state (sample_env 9) ''t'' ''i'' ?s) = Ret (Inr True)"
    by (simp add: store_eval)
qed simp

text \<open>
  A panic inside \<open>bind_state\<close> fails closed for good. \<open>bind_state\<close> panics only where
  \<open>chrono\<close>'s addition does; from then on every method, in every environment, returns
  \<open>Err(Poisoned)\<close> and changes nothing, and \<open>len()\<close> reports 0 whatever the map still holds.
\<close>

theorem bind_panic_poisons:
  assumes "bind_state e t i s = (Panic, s')"
  shows "add_duration e (now_bind e) (ttl s) = None
    \<and> (\<forall>e' u j. bind_state e' u j s' = (Ret (Inl Poisoned), s')
        \<and> verify_state e' u j s' = (Ret (Inl Poisoned), s')
        \<and> revoke_state u s' = (Ret (Inl Poisoned), s')) \<and> store_len s' = 0"
  using assms
  by (auto simp: store_op_defs Let_def store_len_def split: if_splits option.splits)

theorem bind_panic_poisons_witness:
  "store_len (snd (bind_state (sample_env 1) ''t'' ''i'' (store_with_ttl (10 ^ 30)))) = 0"
proof -
  have "bind_state (sample_env 1) ''t'' ''i'' (store_with_ttl (10 ^ 30)) =
      (Panic, (store_with_ttl (10 ^ 30))\<lparr>poisoned := True\<rparr>)"
    by (simp add: store_eval store_with_ttl_def DEFAULT_MAX_ENTRIES_def)
  from bind_panic_poisons [OF this] this show ?thesis
    by simp
qed

text \<open>
  Rebinding and revocation take effect at once. After a successful \<open>bind_state\<close> of a token
  no other session verifies with it, after a successful \<open>revoke_state\<close> none does, and both leave
  what any other token is bound to as it was.
\<close>

theorem rebind_and_revoke_take_effect:
  assumes "store_inv s" and "env_ok e"
    and "bind_state e\<^sub>0 t i s = (Ret (Inr ()), s\<^sub>1)" and "revoke_state t s = (Ret (Inr ()), s\<^sub>2)"
    and "j \<noteq> i" and "u \<noteq> t"
  shows "fst (verify_state e t j s\<^sub>1) \<noteq> Ret (Inr True) \<and> fst (verify_state e t j s\<^sub>2) \<noteq> Ret (Inr True)
    \<and> bound_session e\<^sub>0 s\<^sub>1 u = bound_session e\<^sub>0 s u \<and> bound_session e s\<^sub>2 u = bound_session e s u"
  using mem.rebound_not_verified [OF assms(2,1,3,5)] mem.revoked_not_verified [OF assms(2,1,4)]
    mem.bind_frame [OF assms(1,6), of e\<^sub>0 i] mem.revoke_frame [OF assms(1,6), of e]
  unfolding assms(3,4) snd_conv by (intro conjI)

theorem rebind_and_revoke_take_effect_witness:
  "fst (verify_state (sample_env 3) ''t'' ''b''
      (snd (bind_state (sample_env 1) ''t'' ''a'' (store_with_capacity 10 2)))) \<noteq> Ret (Inr True)"
proof -
  let ?s = "store_with_capacity 10 2"
  have b: "bind_state (sample_env 1) ''t'' ''a'' ?s =
      (Ret (Inr ()), snd (bind_state (sample_env 1) ''t'' ''a'' ?s))"
    and r: "revoke_state ''t'' ?s = (Ret (Inr ()), snd (revoke_state ''t'' ?s))"
    by (simp_all add: store_eval)
  have ne: "''b'' \<noteq> ''a''" "''u'' \<noteq> ''t''"
    by simp_all
  show ?thesis
    by (rule rebind_and_revoke_take_effect
        [OF store_inv_with_capacity sample_env_ok b r ne, THEN conjunct1])
qed

end
