(* ===== verification/Simulation_Locale.thy ===== *)
theory Simulation_Locale
  imports AuthKit_Prelude
begin

text \<open>
  Sequences of calls on a component and forward simulation. A component is a step function
  from a call and a state to a reply and the next state; \<open>run\<close> threads the state through a list
  of calls and returns the replies. The locale \<open>lockstep\<close> says that a component follows a
  specification call by call, under the condition \<open>admit\<close> the specification puts on a call; it
  gives that whole runs have the same replies.
\<close>

section \<open>Runs\<close>

fun run :: "('c \<Rightarrow> 's \<Rightarrow> 'r \<times> 's) \<Rightarrow> 'c list \<Rightarrow> 's \<Rightarrow> 'r list \<times> 's" where
  "run f [] s = ([], s)"
| "run f (c # cs) s =
     (let (r, s1) = f c s; (rs, s2) = run f cs s1 in (r # rs, s2))"

definition replies :: "('c \<Rightarrow> 's \<Rightarrow> 'r \<times> 's) \<Rightarrow> 'c list \<Rightarrow> 's \<Rightarrow> 'r list" where
  "replies f cs s = fst (run f cs s)"

definition final :: "('c \<Rightarrow> 's \<Rightarrow> 'r \<times> 's) \<Rightarrow> 'c list \<Rightarrow> 's \<Rightarrow> 's" where
  "final f cs s = snd (run f cs s)"

lemma replies_simps [simp]:
  "replies f [] s = []"
  "replies f (c # cs) s = fst (f c s) # replies f cs (snd (f c s))"
  by (simp_all add: replies_def split_beta Let_def)

lemma final_simps [simp]:
  "final f [] s = s"
  "final f (c # cs) s = final f cs (snd (f c s))"
  by (simp_all add: final_def split_beta Let_def)

lemma length_replies [simp]: "length (replies f cs s) = length cs"
  by (induction cs arbitrary: s) simp_all

lemma run_append:
  "replies f (cs @ ds) s = replies f cs s @ replies f ds (final f cs s)"
  "final f (cs @ ds) s = final f ds (final f cs s)"
  by (induction cs arbitrary: s) simp_all

text \<open>The calls of a run are admitted one after the other by the specification.\<close>

fun admitted :: "('c \<Rightarrow> 'a \<Rightarrow> bool) \<Rightarrow> ('c \<Rightarrow> 'a \<Rightarrow> 'r \<times> 'a) \<Rightarrow> 'c list \<Rightarrow> 'a \<Rightarrow> bool" where
  "admitted adm f [] a \<longleftrightarrow> True"
| "admitted adm f (c # cs) a \<longleftrightarrow> adm c a \<and> admitted adm f cs (snd (f c a))"

section \<open>Forward simulation\<close>

locale lockstep =
  fixes step :: "'c \<Rightarrow> 's \<Rightarrow> 'r \<times> 's"
    and spec :: "'c \<Rightarrow> 'a \<Rightarrow> 'r \<times> 'a"
    and rel :: "'s \<Rightarrow> 'a \<Rightarrow> bool"
    and admit :: "'c \<Rightarrow> 'a \<Rightarrow> bool"
  assumes step_reply: "rel s a \<Longrightarrow> admit c a \<Longrightarrow> fst (step c s) = fst (spec c a)"
    and step_rel: "rel s a \<Longrightarrow> admit c a \<Longrightarrow> rel (snd (step c s)) (snd (spec c a))"
begin

lemma run_simulated:
  assumes "rel s a" and "admitted admit spec cs a"
  shows "replies step cs s = replies spec cs a \<and> rel (final step cs s) (final spec cs a)"
  using assms by (induction cs arbitrary: s a) (simp_all add: step_reply step_rel)

lemmas replies_simulated = run_simulated [THEN conjunct1]
lemmas final_simulated = run_simulated [THEN conjunct2]

end

section \<open>Separation\<close>

text \<open>
  One party's calls among those of others. \<open>own_replies\<close> are the replies to the calls that are
  \<open>mine\<close>. \<open>own_calls\<close> are these calls as they are made alone: \<open>alone\<close> turns a call into what it is
  without the others, and may write into it what the call finds in the state at that moment and
  does not owe to the component. The locale gives, from conditions on single calls, that the
  replies are those \<open>own_calls\<close> get from a component of their own.
\<close>

fun own_replies :: "('c \<Rightarrow> bool) \<Rightarrow> ('c \<Rightarrow> 's \<Rightarrow> 'r \<times> 's) \<Rightarrow> 'c list \<Rightarrow> 's \<Rightarrow> 'r list" where
  "own_replies mine f [] s = []"
| "own_replies mine f (c # cs) s =
     (if mine c then [fst (f c s)] else []) @ own_replies mine f cs (snd (f c s))"

fun own_calls :: "('c \<Rightarrow> bool) \<Rightarrow> ('c \<Rightarrow> 's \<Rightarrow> 'd) \<Rightarrow> ('c \<Rightarrow> 's \<Rightarrow> 'r \<times> 's) \<Rightarrow> 'c list \<Rightarrow> 's \<Rightarrow> 'd list" where
  "own_calls mine alone f [] s = []"
| "own_calls mine alone f (c # cs) s =
     (if mine c then [alone c s] else []) @ own_calls mine alone f cs (snd (f c s))"

lemma own_calls_filter [simp]: "own_calls mine (\<lambda>c s. c) f cs s = filter mine cs"
  by (induction cs arbitrary: s) simp_all

lemma own_replies_filter:
  "own_replies mine f cs s = map snd (filter (mine \<circ> fst) (zip cs (replies f cs s)))"
  by (induction cs arbitrary: s) simp_all

lemma own_replies_cong:
  assumes "replies f cs s = replies g cs a"
  shows "own_replies mine f cs s = own_replies mine g cs a"
  by (simp add: own_replies_filter assms)

locale separation =
  fixes step :: "'c \<Rightarrow> 's \<Rightarrow> 'r \<times> 's"
    and solo_step :: "'d \<Rightarrow> 'a \<Rightarrow> 'r \<times> 'a"
    and mine :: "'c \<Rightarrow> bool"
    and alone :: "'c \<Rightarrow> 's \<Rightarrow> 'd"
    and rel :: "'s \<Rightarrow> 'a \<Rightarrow> bool"
    and admit :: "'c \<Rightarrow> 's \<Rightarrow> bool"
  assumes mine_reply:
      "rel s a \<Longrightarrow> admit c s \<Longrightarrow> mine c \<Longrightarrow> fst (step c s) = fst (solo_step (alone c s) a)"
    and mine_rel:
      "rel s a \<Longrightarrow> admit c s \<Longrightarrow> mine c \<Longrightarrow> rel (snd (step c s)) (snd (solo_step (alone c s) a))"
    and other_rel: "rel s a \<Longrightarrow> admit c s \<Longrightarrow> \<not> mine c \<Longrightarrow> rel (snd (step c s)) a"
begin

lemma separated:
  assumes "rel s a" and "admitted admit step cs s"
  shows "own_replies mine step cs s = replies solo_step (own_calls mine alone step cs s) a"
  using assms
  by (induction cs arbitrary: s a) (simp_all add: mine_reply mine_rel other_rel)

end

end
