(* ===== verification/Store_Refinement.thy ===== *)
theory Store_Refinement
  imports Session_Store Simulation_Locale
begin

text \<open>
  The in-memory store against the contract of the port, over whole sequences of calls. The
  specification keeps a map from tokens to a session and an expiry and never removes an expired
  entry: expiry is decided when a call looks. The implementation evicts on every \<open>bind_state\<close>
  and \<open>verify_state\<close>; as long as the wall clock does not run backwards no reply of any method
  tells the two apart.
\<close>

section \<open>Calls of the port\<close>

datatype store_call =
    CallBind call_env string string
  | CallVerify call_env string string
  | CallRevoke string

datatype store_reply =
    Unit_Reply "(session_store_error + unit) outcome"
  | Bool_Reply "(session_store_error + bool) outcome"

fun store_step :: "store_call \<Rightarrow> in_memory_store \<Rightarrow> store_reply \<times> in_memory_store" where
  "store_step (CallBind e t i) s = map_prod Unit_Reply id (bind_state e t i s)"
| "store_step (CallVerify e t i) s = map_prod Bool_Reply id (verify_state e t i s)"
| "store_step (CallRevoke t) s = map_prod Unit_Reply id (revoke_state t s)"

section \<open>The specification\<close>

text \<open>
  \<open>clock\<close> is the latest reading a call made; it is read by the admission condition only. A
  panic of \<open>chrono\<close>'s addition leaves a broken store, which refuses every call.
\<close>

record lazy_store =
  content :: "string \<Rightarrow> (string \<times> int) option"
  broken :: bool
  lifetime :: int
  ceiling :: nat
  clock :: int

definition lazy_new :: "int \<Rightarrow> nat \<Rightarrow> int \<Rightarrow> lazy_store" where
  "lazy_new d n now =
     \<lparr>content = (\<lambda>t. None), broken = False, lifetime = d, ceiling = n, clock = now\<rparr>"

definition alive :: "int \<Rightarrow> lazy_store \<Rightarrow> string \<Rightarrow> (string \<times> int) option" where
  "alive now a = live now (content a)"

fun lazy_step :: "store_call \<Rightarrow> lazy_store \<Rightarrow> store_reply \<times> lazy_store" where
  "lazy_step (CallBind e t i) a =
     (if broken a then (Unit_Reply (Ret (Inl Poisoned)), a)
      else let a = a\<lparr>clock := now_evict e\<rparr> in
        if ceiling a \<noteq> 0 \<and> ceiling a \<le> card (dom (alive (now_evict e) a))
             \<and> alive (now_evict e) a t = None
        then (Unit_Reply (Ret (Inl (AtCapacity (ceiling a)))), a)
        else if add_duration e (now_bind e) (lifetime a) = None
        then (Unit_Reply Panic, a\<lparr>broken := True\<rparr>)
        else (Unit_Reply (Ret (Inr ())),
              a\<lparr>content := (content a)(t \<mapsto> (i, now_bind e + lifetime a))\<rparr>))"
| "lazy_step (CallVerify e t i) a =
     (if broken a then (Bool_Reply (Ret (Inl Poisoned)), a)
      else (Bool_Reply (Ret (Inr (\<exists>x. alive (now_evict e) a t = Some (i, x)))),
            a\<lparr>clock := now_evict e\<rparr>))"
| "lazy_step (CallRevoke t) a =
     (if broken a then (Unit_Reply (Ret (Inl Poisoned)), a)
      else (Unit_Reply (Ret (Inr ())), a\<lparr>content := (content a)(t := None)\<rparr>))"

text \<open>A call is admitted when its crates behave and its clock reading is not before the last one.\<close>

fun on_time :: "store_call \<Rightarrow> lazy_store \<Rightarrow> bool" where
  "on_time (CallBind e t i) a \<longleftrightarrow> env_ok e \<and> clock a \<le> now_evict e"
| "on_time (CallVerify e t i) a \<longleftrightarrow> env_ok e \<and> clock a \<le> now_evict e"
| "on_time (CallRevoke t) a \<longleftrightarrow> True"

section \<open>Simulation\<close>

definition lazy_rel :: "in_memory_store \<Rightarrow> lazy_store \<Rightarrow> bool" where
  "lazy_rel s a \<longleftrightarrow> store_inv s \<and> poisoned s = broken a \<and> ttl s = lifetime a
     \<and> max_entries s = ceiling a
     \<and> (\<forall>now \<ge> clock a. live now (bindings s) = live now (content a))"

lemma live_upd: "live now (b(t := v)) = (live now b)(t := live now (\<lambda>_. v) t)"
  by (auto simp: live_def fun_eq_iff)

lemma card_live:
  "store_inv s \<Longrightarrow> card (dom (live now (bindings s))) = hm_len (evict_expired now (inner s))"
proof -
  assume inv: "store_inv s"
  then have "dom (live now (bindings s)) = dom (hm_get (evict_expired now (inner s)))"
    by (auto simp: store_inv_def bindings_evict [symmetric] bindings_def)
  with inv show ?thesis
    by (simp add: store_inv_def hm_len_card)
qed

lemma live_contains:
  "store_inv s \<Longrightarrow> live now (bindings s) t = None \<longleftrightarrow> \<not> hm_contains (evict_expired now (inner s)) t"
  by (auto simp: store_inv_def bindings_evict [symmetric] bindings_def hm_contains_def)

lemma lazy_relD:
  assumes "lazy_rel s a"
  shows "store_inv s" "poisoned s = broken a" "ttl s = lifetime a" "max_entries s = ceiling a"
    and "clock a \<le> now \<Longrightarrow> live now (bindings s) = live now (content a)"
  using assms by (simp_all add: lazy_rel_def)

lemma bind_simulated:
  assumes R: "lazy_rel s a" and adm: "on_time (CallBind e t i) a"
  shows "fst (store_step (CallBind e t i) s) = fst (lazy_step (CallBind e t i) a)
    \<and> lazy_rel (snd (store_step (CallBind e t i) s)) (snd (lazy_step (CallBind e t i) a))"
proof -
  let ?now = "now_evict e"
  note inv = lazy_relD(1) [OF R] and cfg = lazy_relD(2,3,4) [OF R]
  have ok: "env_ok e" and late: "clock a \<le> ?now"
    using adm by simp_all
  have same: "live ?now (bindings s) = live ?now (content a)"
    by (rule lazy_relD(5) [OF R late])
  obtain r s' where b: "bind_state e t i s = (r, s')"
    by fastforce
  note bnd = bind_state_bindings [OF inv b]
  have inv': "store_inv s'" and cfg': "ttl s' = ttl s" "max_entries s' = max_entries s"
    using store_inv_bind [OF inv, of e t i] store_op_config(1,2) [of e t i s] by (simp_all add: b)
  have sum: "add_duration e (now_bind e) (ttl s) = Some x \<Longrightarrow> x = now_bind e + ttl s" for x
    using ok by (simp add: env_ok_def)
  have reply: "r = (if poisoned s then Ret (Inl Poisoned)
      else if ceiling a \<noteq> 0 \<and> ceiling a \<le> card (dom (live ?now (content a)))
           \<and> live ?now (content a) t = None then Ret (Inl (AtCapacity (ceiling a)))
      else if add_duration e (now_bind e) (ttl s) = None then Panic else Ret (Inr ()))"
    unfolding same [symmetric] card_live [OF inv] live_contains [OF inv] cfg(3) [symmetric]
    using b by (auto simp: bind_state_def Let_def split: option.splits if_splits)
  have broken': "poisoned s' = (poisoned s \<or> r = Panic)"
    using b by (auto simp: bind_state_def Let_def split: option.splits if_splits)
  have agree: "live now (bindings s') = live now
      (if r = Ret (Inr ()) then (content a)(t \<mapsto> (i, now_bind e + ttl s)) else content a)"
    if np: "\<not> poisoned s" and now: "?now \<le> now" for now
  proof (cases "r = Ret (Inr ())")
    case True
    then have "add_duration e (now_bind e) (ttl s) = Some (now_bind e + ttl s)"
      using bind_state_expiry(2) [OF ok] b by blast
    then have "bindings s' = (live ?now (bindings s))(t \<mapsto> (i, now_bind e + ttl s))"
      using True np by (simp add: bnd)
    then show ?thesis
      using True now same lazy_relD(5) [OF R, of now] late by (simp add: live_upd live_later)
  next
    case False
    then show ?thesis
      using np now lazy_relD(5) [OF R, of now] late by (simp add: bnd live_later)
  qed
  show ?thesis
  proof (cases "poisoned s")
    case True
    then show ?thesis
      using R cfg by (simp add: bind_state_def)
  next
    case False
    then show ?thesis
      using inv' cfg cfg' broken' agree reply
      by (auto simp: b lazy_rel_def alive_def Let_def)
  qed
qed

lemma verify_simulated:
  assumes R: "lazy_rel s a" and adm: "on_time (CallVerify e t i) a"
  shows "fst (store_step (CallVerify e t i) s) = fst (lazy_step (CallVerify e t i) a)
    \<and> lazy_rel (snd (store_step (CallVerify e t i) s)) (snd (lazy_step (CallVerify e t i) a))"
proof -
  note inv = lazy_relD(1) [OF R] and cfg = lazy_relD(2,3,4) [OF R]
  have ok: "env_ok e" and late: "clock a \<le> now_evict e"
    using adm by simp_all
  have "bindings (s\<lparr>inner := evict_expired (now_evict e) (inner s)\<rparr>) = live (now_evict e) (bindings s)"
    using inv by (simp add: store_inv_def bindings_evict)
  moreover have "store_inv (s\<lparr>inner := evict_expired (now_evict e) (inner s)\<rparr>)"
    using store_inv_evict [OF inv, where now = "now_evict e" and p = "poisoned s"] by simp
  ultimately show ?thesis
    using R cfg late lazy_relD(5) [OF R]
    by (auto simp: verify_state_answer [OF ok inv] lazy_rel_def bound_session_def alive_def live_later)
qed

lemma revoke_simulated:
  assumes R: "lazy_rel s a"
  shows "fst (store_step (CallRevoke t) s) = fst (lazy_step (CallRevoke t) a)
    \<and> lazy_rel (snd (store_step (CallRevoke t) s)) (snd (lazy_step (CallRevoke t) a))"
proof -
  have "store_inv (snd (revoke_state t s))"
    using store_inv_revoke lazy_relD(1) [OF R] .
  moreover have "bindings (s\<lparr>inner := hm_remove t (inner s)\<rparr>) = (bindings s)(t := None)"
    by (auto simp: bindings_def hm_simps fun_eq_iff)
  ultimately show ?thesis
    using R by (auto simp: lazy_rel_def revoke_state_def live_upd)
qed

interpretation lazy: lockstep store_step lazy_step lazy_rel on_time
proof
  fix s :: in_memory_store and a :: lazy_store and c :: store_call
  assume R: "lazy_rel s a" and adm: "on_time c a"
  have "fst (store_step c s) = fst (lazy_step c a) \<and> lazy_rel (snd (store_step c s)) (snd (lazy_step c a))"
  proof (cases c)
    case (CallBind e t i)
    then show ?thesis
      using bind_simulated [OF R] adm by blast
  next
    case (CallVerify e t i)
    then show ?thesis
      using verify_simulated [OF R] adm by blast
  next
    case (CallRevoke t)
    then show ?thesis
      using revoke_simulated [OF R] by blast
  qed
  then show "fst (store_step c s) = fst (lazy_step c a)"
    and "lazy_rel (snd (store_step c s)) (snd (lazy_step c a))"
    by simp_all
qed

section \<open>Runs on a clock that does not go back\<close>

fun readings :: "store_call list \<Rightarrow> int list" where
  "readings [] = []"
| "readings (CallBind e t i # cs) = now_evict e # readings cs"
| "readings (CallVerify e t i # cs) = now_evict e # readings cs"
| "readings (CallRevoke t # cs) = readings cs"

fun crates_ok :: "store_call \<Rightarrow> bool" where
  "crates_ok (CallBind e t i) \<longleftrightarrow> env_ok e"
| "crates_ok (CallVerify e t i) \<longleftrightarrow> env_ok e"
| "crates_ok (CallRevoke t) \<longleftrightarrow> True"

lemma clock_bounded:
  "on_time c a \<Longrightarrow> clock a \<le> x \<Longrightarrow> \<forall>r \<in> set (readings [c]). r \<le> x \<Longrightarrow> clock (snd (lazy_step c a)) \<le> x"
  by (cases c) (simp_all add: Let_def)

lemma admitted_sorted:
  "sorted (clock a # readings cs) \<Longrightarrow> list_all crates_ok cs \<Longrightarrow> admitted on_time lazy_step cs a"
proof (induction cs arbitrary: a)
  case (Cons c cs)
  have cs: "sorted (readings cs)" and a: "\<forall>r \<in> set (readings (c # cs)). clock a \<le> r"
    and c: "\<forall>r \<in> set (readings [c]). \<forall>r' \<in> set (readings cs). r \<le> r'"
    using Cons.prems(1) by (cases c; simp)+
  have adm: "on_time c a"
    using Cons.prems(2) a by (cases c) simp_all
  moreover have "\<forall>r \<in> set (readings cs). clock (snd (lazy_step c a)) \<le> r"
    using clock_bounded [OF adm] a c by (cases c) simp_all
  ultimately show ?case
    using Cons.IH [of "snd (lazy_step c a)"] Cons.prems(2) cs by simp
qed simp

lemma lazy_rel_new: "lazy_rel (store_with_capacity d n) (lazy_new d n now)"
  by (simp add: lazy_rel_def lazy_new_def store_with_capacity_def bindings_def live_def store_inv_def
      hm_len_def fun_eq_iff)

text \<open>
  C4. Eviction is invisible. Take any sequence of \<open>bind_state\<close>, \<open>verify_state\<close> and
  \<open>revoke_state\<close> calls on a new store, whose clock readings do not decrease. Every reply (the
  answers, \<open>AtCapacity\<close> with its number, the panic of an overflowing expiry and \<open>Poisoned\<close> after
  it) is that of the map that never evicts, in which an entry counts while its expiry lies
  ahead of the call's clock, and the ceiling counts only those entries.
\<close>

theorem store_refines_lazy_map:
  assumes "sorted (now # readings cs)" and "list_all crates_ok cs"
  shows "replies store_step cs (store_with_capacity d n) = replies lazy_step cs (lazy_new d n now)"
  using assms lazy.replies_simulated [OF lazy_rel_new admitted_sorted]
  by (simp add: lazy_new_def)

text \<open>
  The clock must not go back: a binding that one call finds expired is gone for a later call
  with an earlier reading, while the map that never evicts still has it.
\<close>

definition backwards :: "store_call list" where
  "backwards = [CallBind (sample_env 0) ''t'' ''i'', CallVerify (sample_env 20) ''t'' ''i'',
     CallVerify (sample_env 5) ''t'' ''i'']"

lemma backwards_clock_tells:
  "replies store_step backwards (store_with_capacity 10 2) \<noteq> replies lazy_step backwards (lazy_new 10 2 0)"
  by (simp add: backwards_def store_eval lazy_new_def alive_def live_def)

theorem store_refines_lazy_map_witness:
  "replies lazy_step
     [CallBind (sample_env 0) ''a'' ''x'', CallBind (sample_env 9) ''b'' ''y'',
      CallBind (sample_env 10) ''b'' ''y'', CallVerify (sample_env 11) ''b'' ''y''] (lazy_new 10 1 0) =
   [Unit_Reply (Ret (Inr ())), Unit_Reply (Ret (Inl (AtCapacity 1))), Unit_Reply (Ret (Inr ())),
    Bool_Reply (Ret (Inr True))]"
  (is "replies lazy_step ?cs _ = ?rs")
proof -
  have srt: "sorted (0 # readings ?cs)"
    by (simp add: sample_env_def)
  have ok: "list_all crates_ok ?cs"
    by simp
  have "replies store_step ?cs (store_with_capacity 10 1) = ?rs"
    by (simp add: store_eval)
  with store_refines_lazy_map [OF srt ok, of 10 1] show ?thesis
    by simp
qed

end
