(* ===== verification/Store_Isolation.thy ===== *)
theory Store_Isolation
  imports Store_Refinement
begin

text \<open>
  Clients of one in-memory store of \<open>src/domain/session_store.rs\<close> that use different tokens do not
  influence each other: a login answers as if the store were its own, as long as the store never
  fills up. The argument runs on the map of \<open>Store_Refinement\<close> that never evicts, where calls on
  other tokens change other tokens only, and comes back to the store by the refinement.
\<close>

section \<open>The calls on some tokens\<close>

fun call_token :: "store_call \<Rightarrow> string" where
  "call_token (CallBind e t i) = t"
| "call_token (CallVerify e t i) = t"
| "call_token (CallRevoke t) = t"

text \<open>The two answers through which other clients show: a full store, and a panic that poisons it.\<close>

fun undisturbed :: "store_reply \<Rightarrow> bool" where
  "undisturbed (Unit_Reply Panic) \<longleftrightarrow> False"
| "undisturbed (Unit_Reply (Ret (Inl (AtCapacity n)))) \<longleftrightarrow> False"
| "undisturbed _ \<longleftrightarrow> True"

definition restricted_to :: "(string \<Rightarrow> bool) \<Rightarrow> lazy_store \<Rightarrow> lazy_store \<Rightarrow> bool" where
  "restricted_to T a a' \<longleftrightarrow> \<not> broken a \<and> \<not> broken a' \<and> lifetime a' = lifetime a \<and> ceiling a' = ceiling a
     \<and> finite (dom (content a)) \<and> content a' = content a |` {t. T t}"

lemma alive_restricted:
  "restricted_to T a a' \<Longrightarrow> alive now a' = alive now a |` {t. T t}"
  by (auto simp: restricted_to_def alive_def live_def restrict_map_def fun_eq_iff)

lemma card_alive_restricted:
  assumes "restricted_to T a a'"
  shows "card (dom (alive now a')) \<le> card (dom (alive now a))"
proof (rule card_mono)
  have "dom (alive now a) \<subseteq> dom (content a)"
    by (auto simp: alive_def live_def split: option.splits)
  then show "finite (dom (alive now a))"
    using assms by (auto simp: restricted_to_def intro: finite_subset)
  show "dom (alive now a') \<subseteq> dom (alive now a)"
    by (auto simp: alive_restricted [OF assms])
qed

lemma restricted_own:
  assumes R: "restricted_to T a a'" and quiet: "undisturbed (fst (lazy_step c a))" and own: "T (call_token c)"
  shows "fst (lazy_step c a) = fst (lazy_step c a')
    \<and> restricted_to T (snd (lazy_step c a)) (snd (lazy_step c a'))"
proof (cases c)
  case (CallBind e t i)
  have same: "alive (now_evict e) a' t = alive (now_evict e) a t"
    using own by (simp add: alive_restricted [OF R] CallBind)
  have room: "\<not> (ceiling a \<noteq> 0 \<and> ceiling a \<le> card (dom (alive (now_evict e) a)) \<and> alive (now_evict e) a t = None)"
    and sum: "add_duration e (now_bind e) (lifetime a) \<noteq> None"
    using quiet R by (auto simp: CallBind restricted_to_def alive_def Let_def split: if_splits)
  with same card_alive_restricted [OF R, of "now_evict e"]
  have room': "\<not> (ceiling a \<noteq> 0 \<and> ceiling a \<le> card (dom (alive (now_evict e) a')) \<and> alive (now_evict e) a' t = None)"
    by auto
  show ?thesis
    using R own room room' sum
    by (auto simp: CallBind restricted_to_def alive_def Let_def restrict_map_def fun_eq_iff)
next
  case (CallVerify e t i)
  have "alive (now_evict e) a' t = alive (now_evict e) a t"
    using own by (simp add: alive_restricted [OF R] CallVerify)
  then show ?thesis
    using R by (simp add: CallVerify restricted_to_def)
next
  case (CallRevoke t)
  then show ?thesis
    using R own by (auto simp: restricted_to_def restrict_map_def fun_eq_iff)
qed

lemma restricted_other:
  assumes R: "restricted_to T a a'" and quiet: "undisturbed (fst (lazy_step c a))"
    and other: "\<not> T (call_token c)"
  shows "restricted_to T (snd (lazy_step c a)) a'"
  using assms
  by (cases c) (auto simp: restricted_to_def Let_def restrict_map_def fun_eq_iff split: if_splits)

interpretation tokens: separation lazy_step lazy_step "T \<circ> call_token" "\<lambda>c a. c" "restricted_to T"
  "\<lambda>c a. undisturbed (fst (lazy_step c a))" for T
  by unfold_locales
    (auto intro: restricted_own [THEN conjunct1] restricted_own [THEN conjunct2] restricted_other)

lemma quiet_admitted:
  "\<forall>r \<in> set (replies f cs a). P r \<Longrightarrow> admitted (\<lambda>c a. P (fst (f c a))) f cs a"
  by (induction cs arbitrary: a) simp_all

section \<open>Back to the store\<close>

lemma readings_filter:
  "set (readings (filter P cs)) \<subseteq> set (readings cs) \<and> (sorted (readings cs) \<longrightarrow> sorted (readings (filter P cs)))"
proof (induction cs)
  case (Cons c cs)
  then show ?case
    by (cases c) auto
qed simp

lemma store_replies_lazy:
  assumes "sorted (now # readings cs)" and "list_all crates_ok cs"
  shows "replies store_step cs (store_with_capacity d n) = replies lazy_step cs (lazy_new d n now)"
  using lazy.replies_simulated [OF lazy_rel_new admitted_sorted] assms by (simp add: lazy_new_def)

text \<open>
  C8. Logins are isolated. Take any sequence of calls on a new store with clock readings that
  do not decrease, in which no \<open>bind_state\<close> found the store full and none panicked. For any set of
  tokens, the replies to the calls on these tokens are those that these calls alone get from a
  store of their own: what other clients bind, verify, revoke or let expire changes none of them.
\<close>

theorem tokens_isolated:
  assumes "sorted (now # readings cs)" and "list_all crates_ok cs"
    and "\<forall>r \<in> set (replies store_step cs (store_with_capacity d n)). undisturbed r"
  shows "own_replies (T \<circ> call_token) store_step cs (store_with_capacity d n) =
    replies store_step (filter (T \<circ> call_token) cs) (store_with_capacity d n)"
proof -
  let ?own = "filter (T \<circ> call_token) cs"
  note whole = store_replies_lazy [OF assms(1,2), of d n]
  have own: "sorted (now # readings ?own)" "list_all crates_ok ?own"
    using assms(1,2) readings_filter [of "T \<circ> call_token" cs] by (auto simp: list_all_iff)
  have "restricted_to T (lazy_new d n now) (lazy_new d n now)"
    by (simp add: restricted_to_def lazy_new_def fun_eq_iff restrict_map_def)
  from tokens.separated [OF this quiet_admitted [OF assms(3) [unfolded whole]]]
  show ?thesis
    using own_replies_cong [OF whole] store_replies_lazy [OF own, of d n] by simp
qed

theorem tokens_isolated_witness:
  "own_replies ((\<lambda>t. t = ''b'') \<circ> call_token) store_step
     [CallBind (sample_env 0) ''a'' ''x'', CallBind (sample_env 1) ''b'' ''y'', CallRevoke ''a'',
      CallVerify (sample_env 2) ''b'' ''y''] (store_with_capacity 10 2) =
   [Unit_Reply (Ret (Inr ())), Bool_Reply (Ret (Inr True))]"
  (is "own_replies _ _ ?cs ?st = _")
proof -
  have srt: "sorted (0 # readings ?cs)"
    by (simp add: sample_env_def)
  have ok: "list_all crates_ok ?cs"
    by simp
  have quiet: "\<forall>r \<in> set (replies store_step ?cs ?st). undisturbed r"
    by (simp add: store_eval)
  have "replies store_step (filter ((\<lambda>t. t = ''b'') \<circ> call_token) ?cs) ?st =
      [Unit_Reply (Ret (Inr ())), Bool_Reply (Ret (Inr True))]"
    by (simp add: store_eval)
  with tokens_isolated [OF srt ok quiet, of "\<lambda>t. t = ''b''"] show ?thesis
    by (simp only:)
qed

end
