(* ===== verification/Store_Liveness.thy ===== *)
theory Store_Liveness
  imports Session_Store
begin

text \<open>
  What a client of the in-memory store of \<open>src/domain/session_store.rs\<close> can count on in the long
  run: a binding is not lost before its time, and a full store frees itself.
\<close>

section \<open>A binding that nobody touches\<close>

text \<open>No call of the history rebinds or revokes the token with success.\<close>

fun leaves :: "string \<Rightarrow> store_event \<Rightarrow> bool" where
  "leaves t (Bound e u j r) \<longleftrightarrow> u = t \<longrightarrow> r \<noteq> Ret (Inr ())"
| "leaves t (Verified e u j a) \<longleftrightarrow> True"
| "leaves t (Revoked u r) \<longleftrightarrow> u = t \<longrightarrow> r \<noteq> Ret (Inr ())"

inductive_simps store_history_Verified: "store_history d n (Verified e t i a # evs) s"

lemma live_keeps:
  "bindings s t = Some (i, x) \<Longrightarrow> now < x \<Longrightarrow> live now (bindings s) t = Some (i, x)"
  by (simp add: live_def)

lemma bind_state_keeps:
  assumes "store_inv s" and "bind_state e u j s = (r, s')" and "u = t \<longrightarrow> r \<noteq> Ret (Inr ())"
    and "bindings s t = Some (i, x)" and "now_evict e < x"
  shows "bindings s' t = Some (i, x)"
  using bind_state_bindings [OF assms(1,2)] live_keeps [OF assms(4,5)] assms(3,4) by auto

lemma verify_state_keeps:
  assumes "store_inv s" and "verify_state e u j s = (a, s')"
    and "bindings s t = Some (i, x)" and "now_evict e < x"
  shows "bindings s' t = Some (i, x)"
  using assms(1,2,3) live_keeps [OF assms(3,4)] bindings_evict [of s "now_evict e"]
  by (auto simp: verify_state_def Let_def store_inv_def split: if_splits)

lemma revoke_state_keeps:
  assumes "revoke_state u s = (r, s')" and "u = t \<longrightarrow> r \<noteq> Ret (Inr ())" and "bindings s t = Some (i, x)"
  shows "bindings s' t = Some (i, x)"
  using assms by (auto simp: revoke_state_def bindings_def hm_simps split: if_splits)

lemma history_keeps:
  assumes "store_history d n (after @ Bound e\<^sub>0 t i (Ret (Inr ())) # before) s"
    and "list_all (leaves t) after" and "\<forall>now \<in> set (eviction_times after). now < now_bind e\<^sub>0 + d"
  shows "bindings s t = Some (i, now_bind e\<^sub>0 + d)"
  using assms
proof (induction after arbitrary: s)
  case Nil
  then obtain s0 where h: "store_history d n before s0" and e: "env_ok e\<^sub>0"
      and b: "bind_state e\<^sub>0 t i s0 = (Ret (Inr ()), s)"
    by (auto simp: store_history_Bound)
  have "store_inv s0" and "ttl s0 = d"
    using store_history_inv [OF h] by simp_all
  then show ?case
    using bind_state_bindings [OF _ b] bind_state_expiry [OF e b] by simp
next
  case (Cons ev after)
  show ?case
  proof (cases ev)
    case (Bound e u j r)
    with Cons.prems(1) obtain s0
      where h: "store_history d n (after @ Bound e\<^sub>0 t i (Ret (Inr ())) # before) s0"
        and b: "bind_state e u j s0 = (r, s)"
      by (auto simp: store_history_Bound)
    have "bindings s0 t = Some (i, now_bind e\<^sub>0 + d)"
      using Cons.IH [OF h] Cons.prems(2,3) Bound by simp
    then show ?thesis
      using bind_state_keeps [OF _ b] store_history_inv [OF h] Cons.prems(2,3) Bound by simp
  next
    case (Verified e u j a)
    with Cons.prems(1) obtain s0
      where h: "store_history d n (after @ Bound e\<^sub>0 t i (Ret (Inr ())) # before) s0"
        and v: "verify_state e u j s0 = (a, s)"
      by (auto simp: store_history_Verified)
    have "bindings s0 t = Some (i, now_bind e\<^sub>0 + d)"
      using Cons.IH [OF h] Cons.prems(2,3) Verified by simp
    then show ?thesis
      using verify_state_keeps [OF _ v] store_history_inv [OF h] Cons.prems(3) Verified by simp
  next
    case (Revoked u r)
    with Cons.prems(1) obtain s0
      where h: "store_history d n (after @ Bound e\<^sub>0 t i (Ret (Inr ())) # before) s0"
        and r: "revoke_state u s0 = (r, s)"
      by (auto simp: store_history_Revoked)
    have "bindings s0 t = Some (i, now_bind e\<^sub>0 + d)"
      using Cons.IH [OF h] Cons.prems(2,3) Revoked by simp
    then show ?thesis
      using revoke_state_keeps [OF r] Cons.prems(2) Revoked by simp
  qed
qed

section \<open>A store whose bindings have all expired\<close>

lemma history_expired:
  assumes "store_history d n evs s"
    and "\<forall>e' u j. Bound e' u j (Ret (Inr ())) \<in> set evs \<longrightarrow> now_bind e' + d \<le> now"
  shows "evict_expired now (inner s) = []"
proof -
  let ?m = "evict_expired now (inner s)"
  have inv: "hm_inv (inner s)"
    using store_history_inv [OF assms(1)] by (simp add: store_inv_def)
  have "live now (bindings s) u = None" for u
  proof (cases "bindings s u")
    case (Some p)
    obtain i x where p: "p = (i, x)"
      by fastforce
    have "last_binding d evs u = Some (i, x)"
      using store_history_tracks [OF assms(1), unfolded tracks_def, THEN spec [of _ u]] Some p by auto
    then have "x \<le> now"
      using last_binding_Some assms(2) by blast
    with Some p show ?thesis
      by (simp add: live_def)
  qed (simp add: live_def)
  then have "dom (hm_get ?m) = {}"
    using bindings_evict [OF inv, of now] by (auto simp: bindings_def fun_eq_iff)
  then have "hm_len ?m = 0"
    using inv by (simp add: hm_len_card)
  then show ?thesis
    by (simp add: hm_len_def)
qed

section \<open>Properties\<close>

text \<open>
  C20. A binding lives out its time. After a successful \<open>bind_state\<close>, whatever happened before and
  whatever other calls follow, as many as there may be, with a store at its ceiling, failing calls
  and a clock that jumps in both directions: as long as no reading reaches the expiry and no call
  rebinds or revokes the token with success, \<open>verify_state\<close> accepts the token for this session
  and for no other.
\<close>

theorem binding_survives:
  assumes "store_history d n (after @ Bound e\<^sub>0 t i (Ret (Inr ())) # before) s"
    and "list_all (leaves t) after" and "\<forall>now \<in> set (eviction_times after). now < now_bind e\<^sub>0 + d"
    and "now_evict e < now_bind e\<^sub>0 + d" and "env_ok e" and "\<not> poisoned s"
  shows "fst (verify_state e t j s) = Ret (Inr (j = i))"
proof -
  have "store_inv s"
    using store_history_inv [OF assms(1)] by simp
  moreover have "bound_session e s t = Some i"
    using history_keeps [OF assms(1-3)] live_keeps assms(4) by (simp add: bound_session_def)
  ultimately show ?thesis
    using assms(5,6) by (auto simp: verify_state_answer)
qed

theorem binding_survives_witness:
  "let s1 = snd (bind_state (sample_env 0) ''t'' ''i'' (store_with_capacity 10 1));
       s2 = snd (bind_state (sample_env 9) ''u'' ''j'' s1);
       s3 = snd (verify_state (sample_env (- 5)) ''t'' ''x'' s2)
   in fst (verify_state (sample_env 4) ''t'' ''i'' s3) = Ret (Inr True)"
proof -
  let ?s1 = "snd (bind_state (sample_env 0) ''t'' ''i'' (store_with_capacity 10 1))"
  let ?s2 = "snd (bind_state (sample_env 9) ''u'' ''j'' ?s1)"
  let ?s3 = "snd (verify_state (sample_env (- 5)) ''t'' ''x'' ?s2)"
  let ?after = "[Verified (sample_env (- 5)) ''t'' ''x'' (Ret (Inr False)),
    Bound (sample_env 9) ''u'' ''j'' (Ret (Inl (AtCapacity 1)))]"
  have "store_history 10 1 [Bound (sample_env 0) ''t'' ''i'' (Ret (Inr ()))] ?s1"
    by (rule store_history.bind [OF store_history.created sample_env_ok]) (simp add: store_eval)
  then have "store_history 10 1 [Bound (sample_env 9) ''u'' ''j'' (Ret (Inl (AtCapacity 1))),
      Bound (sample_env 0) ''t'' ''i'' (Ret (Inr ()))] ?s2"
    by (rule store_history.bind [OF _ sample_env_ok]) (simp add: store_eval)
  then have h: "store_history 10 1 (?after @ [Bound (sample_env 0) ''t'' ''i'' (Ret (Inr ()))]) ?s3"
    unfolding append.simps by (rule store_history.verify [OF _ sample_env_ok]) (simp add: store_eval)
  have "fst (verify_state (sample_env 4) ''t'' ''i'' ?s3) = Ret (Inr (''i'' = ''i''))"
    by (rule binding_survives [OF h _ _ _ sample_env_ok]) (simp_all add: store_eval)
  then show ?thesis
    by (simp only: Let_def simp_thms)
qed

text \<open>
  C27. A full store frees itself. Once the TTL of every binding of the history has run out, at the
  reading of a call of \<open>bind_state\<close> for whose date \<open>chrono\<close> can compute an expiry, that call
  succeeds, whatever filled the store before, and leaves exactly the new binding in it; nobody
  has to revoke anything.
\<close>

theorem full_store_recovers:
  assumes "store_history d n evs s" and "env_ok e" and "\<not> poisoned s"
    and "\<forall>e' u j. Bound e' u j (Ret (Inr ())) \<in> set evs \<longrightarrow> now_bind e' + d \<le> now_evict e"
    and "add_duration e (now_bind e) d \<noteq> None"
  shows "fst (bind_state e t i s) = Ret (Inr ())
    \<and> bindings (snd (bind_state e t i s)) = [t \<mapsto> (i, now_bind e + d)]"
proof -
  have "add_duration e (now_bind e) d = Some (now_bind e + d)"
    using assms(2,5) by (auto simp: env_ok_def)
  moreover have "ttl s = d" "max_entries s = n"
    using store_history_inv [OF assms(1)] by simp_all
  ultimately have "bind_state e t i s = (Ret (Inr ()),
      s\<lparr>inner := hm_insert t \<lparr>session_id = i, expires_at = now_bind e + d\<rparr> []\<rparr>)"
    using assms(3) by (cases n) (simp_all add: bind_state_def history_expired [OF assms(1,4)] hm_len_def)
  then show ?thesis
    by (simp add: bindings_def fun_eq_iff hm_insert_def hm_get_def)
qed

theorem full_store_recovers_witness:
  "let s1 = snd (bind_state (sample_env 0) ''t'' ''i'' (store_with_capacity 10 1))
   in fst (bind_state (sample_env 9) ''u'' ''j'' s1) = Ret (Inl (AtCapacity 1))
    \<and> fst (bind_state (sample_env 10) ''u'' ''j'' s1) = Ret (Inr ())"
proof -
  let ?s1 = "snd (bind_state (sample_env 0) ''t'' ''i'' (store_with_capacity 10 1))"
  have h: "store_history 10 1 [Bound (sample_env 0) ''t'' ''i'' (Ret (Inr ()))] ?s1"
    by (rule store_history.bind [OF store_history.created sample_env_ok]) (simp add: store_eval)
  have "fst (bind_state (sample_env 10) ''u'' ''j'' ?s1) = Ret (Inr ())"
    by (rule full_store_recovers [OF h, THEN conjunct1]) (auto simp: store_eval env_ok_def)
  moreover have "fst (bind_state (sample_env 9) ''u'' ''j'' ?s1) = Ret (Inl (AtCapacity 1))"
    by (simp add: store_eval)
  ultimately show ?thesis
    by (simp only: Let_def simp_thms)
qed

end
