(* ===== verification/Pkce_Middleware.thy ===== *)
theory Pkce_Middleware
  imports Session_Store
begin

text \<open>
  \<open>src/middleware/pkce_state_session.rs\<close>: the axum middleware that lets an OAuth callback
  through only when its \<open>state\<close> is bound to the session of its cookie. The store is any
  \<open>dyn SessionStore\<close>, so the handler takes the store's \<open>verify\<close> method as an argument, and what
  holds for every store is proved once, in the locale \<open>session_store_port\<close>.

  A request is what the handler reads of it: \<open>uri().query()\<close> and the first \<open>Cookie\<close> header.
  \<open>http_env\<close> holds the two library functions on the way: \<open>HeaderValue::to_str\<close> of the \<open>http\<close>
  crate and \<open>percent_decode_str(..).decode_utf8()\<close> of \<open>percent_encoding\<close>. The rest of the chain
  (\<open>next.run(request)\<close>) is a function of the request. The \<open>tracing\<close> events are returned as a log.
\<close>

section \<open>Requests, responses, audit events\<close>

record http_env =
  header_to_str :: "u8 list \<Rightarrow> string option"
  percent_decode_utf8 :: "string \<Rightarrow> string option"

record http_request =
  uri_query :: "string option"
  cookie_header :: "u8 list option"

record invalid_state_body =
  body_error :: string
  body_description :: string

datatype 'r response =
    JsonResponse nat invalid_state_body
  | NextResponse 'r

datatype audit_level = Info | Warn

record audit_event =
  audit_level :: audit_level
  audit_outcome :: string
  audit_reason :: "string option"
  audit_error :: "string option"
  audit_message :: string

text \<open>The description contains an em dash, three bytes in UTF-8.\<close>

definition INVALID_STATE_DESCRIPTION :: string where
  "INVALID_STATE_DESCRIPTION =
     ''CSRF check failed '' @ map char_of [0xE2, 0x80, 0x94 :: nat] @ '' state not bound to session''"

definition STATE_MAX_LEN :: nat where
  "STATE_MAX_LEN = 1024"

definition invalid_state_response :: "'r response" where
  "invalid_state_response = JsonResponse 401
     \<lparr>body_error = ''invalid_state'', body_description = INVALID_STATE_DESCRIPTION\<rparr>"

definition allow_event :: audit_event where
  "allow_event = \<lparr>audit_level = Info, audit_outcome = ''allow'', audit_reason = None,
     audit_error = None, audit_message = ''oauth callback accepted''\<rparr>"

definition reject_event :: "string \<Rightarrow> string option \<Rightarrow> audit_event" where
  "reject_event reason err = \<lparr>audit_level = Warn, audit_outcome = ''reject'',
     audit_reason = Some reason, audit_error = err, audit_message = ''oauth callback rejected''\<rparr>"

lemma invalid_not_next [simp]:
  "invalid_state_response \<noteq> NextResponse r" "NextResponse r \<noteq> invalid_state_response"
  by (simp_all add: invalid_state_response_def)

section \<open>Extraction\<close>

definition query_param :: "string \<Rightarrow> string \<Rightarrow> string option" where
  "query_param query key =
     find_map (\<lambda>pair. case split_once CHR ''='' pair of
         None \<Rightarrow> None
       | Some (name, val) \<Rightarrow> if name = key then Some val else None)
       (split_on CHR ''&'' query)"

definition cookie_value :: "string \<Rightarrow> string \<Rightarrow> string option" where
  "cookie_value cookie_hdr key =
     find_map (\<lambda>pair. case split_once CHR ''='' (trim pair) of
         None \<Rightarrow> None
       | Some (name, val) \<Rightarrow> if trim name = key then Some (trim val) else None)
       (split_on CHR '';'' cookie_hdr)"

definition extract_session_id :: "http_env \<Rightarrow> http_request \<Rightarrow> string option" where
  "extract_session_id x req =
     Option.bind (Option.bind (cookie_header req) (header_to_str x)) (\<lambda>cookie.
       or_else (or_else (or_else (cookie_value cookie ''session_id'')
         (cookie_value cookie ''authkit_session''))
         (cookie_value cookie ''authvault_session''))
         (cookie_value cookie ''sid''))"

definition extract_state_token :: "http_env \<Rightarrow> http_request \<Rightarrow> string option" where
  "extract_state_token x req =
     Option.bind (Option.bind (uri_query req) (\<lambda>query. query_param query ''state'')) (\<lambda>raw.
       Option.bind (percent_decode_utf8 x raw) (\<lambda>decoded.
         if STATE_MAX_LEN < length decoded then None else Some decoded))"

section \<open>The middleware\<close>

definition enforce_pkce_state_session ::
  "http_env \<Rightarrow> ('c \<Rightarrow> string \<Rightarrow> string \<Rightarrow> 's \<Rightarrow> (session_store_error + bool) outcome \<times> 's)
     \<Rightarrow> 'c \<Rightarrow> http_request \<Rightarrow> (http_request \<Rightarrow> 'r) \<Rightarrow> 's
     \<Rightarrow> ('r response \<times> audit_event list) outcome \<times> 's" where
  "enforce_pkce_state_session x verify c req next_run s =
     (case extract_state_token x req of
        None \<Rightarrow> (Ret (invalid_state_response, [reject_event ''missing_or_oversized_state'' None]), s)
      | Some state_token \<Rightarrow>
     (case extract_session_id x req of
        None \<Rightarrow> (Ret (invalid_state_response, [reject_event ''missing_session_cookie'' None]), s)
      | Some sid \<Rightarrow>
     (case verify c state_token sid s of
        (Ret (Inr True), s') \<Rightarrow> (Ret (NextResponse (next_run req), [allow_event]), s')
      | (Ret (Inr False), s') \<Rightarrow>
          (Ret (invalid_state_response, [reject_event ''state_session_mismatch'' None]), s')
      | (Ret (Inl err), s') \<Rightarrow>
          (Ret (invalid_state_response,
             [reject_event ''store_error'' (Some (session_store_error_display err))]), s')
      | (Panic, s') \<Rightarrow> (Panic, s'))))"

text \<open>The store after the call is the one it found or the one its single \<open>verify\<close> call left.\<close>

lemma enforce_store:
  "snd (enforce_pkce_state_session x verify c req nx s) =
     (case (extract_state_token x req, extract_session_id x req) of
        (Some t, Some i) \<Rightarrow> snd (verify c t i s) | _ \<Rightarrow> s)"
  by (auto simp: enforce_pkce_state_session_def
      split: option.splits prod.splits outcome.splits sum.splits bool.splits)

section \<open>What holds over every store\<close>

context session_store_port
begin

lemma enforce_returns: "\<exists>r log. fst (enforce_pkce_state_session x verify c req nx s) = Ret (r, log)"
  using verify_returns
  by (auto simp: enforce_pkce_state_session_def
      split: option.splits prod.splits outcome.splits sum.splits bool.splits)

lemma enforce_invar:
  "invar s \<Longrightarrow> invar (snd (enforce_pkce_state_session x verify c req nx s))"
  by (auto simp: enforce_store verify_invar split: option.splits)

lemma enforce_frame:
  "invar s \<Longrightarrow> bound c (snd (enforce_pkce_state_session x verify c req nx s)) = bound c s"
  by (auto simp: enforce_store verify_frame split: option.splits)

lemma enforce_next_verified:
  assumes "fst (enforce_pkce_state_session x verify c req nx s) = Ret (NextResponse r, log)"
  shows "\<exists>t i. extract_state_token x req = Some t \<and> extract_session_id x req = Some i
    \<and> fst (verify c t i s) = Ret (Inr True) \<and> r = nx req \<and> log = [allow_event]"
  using assms
  by (auto simp: enforce_pkce_state_session_def invalid_state_response_def
      split: option.splits prod.splits outcome.splits sum.splits bool.splits)

lemma enforce_next_bound:
  assumes "callok c" and "invar s"
    and "fst (enforce_pkce_state_session x verify c req nx s) = Ret (NextResponse r, log)"
  shows "\<exists>t i. extract_state_token x req = Some t \<and> extract_session_id x req = Some i
    \<and> bound c s t = Some i"
  using enforce_next_verified [OF assms(3)] verify_accepts [OF assms(1,2)] by blast

end

section \<open>Query strings and cookie headers\<close>

definition render_pair :: "string \<times> string \<Rightarrow> string" where
  "render_pair p = fst p @ CHR ''='' # snd p"

lemma split_render_pair [str_simps]:
  "CHR ''='' \<notin> set (fst p) \<Longrightarrow> split_once CHR ''='' (render_pair p) = Some p"
  by (simp add: render_pair_def split_once_append)

lemma find_map_cong: "(\<And>x. x \<in> set xs \<Longrightarrow> f x = g x) \<Longrightarrow> find_map f xs = find_map g xs"
  by (induction xs) (auto split: option.splits)

lemma find_map_lookup:
  "find_map (\<lambda>(n, v). if n = k then Some v else None) ps = map_of ps k"
  by (induction ps) auto

lemma find_map_map: "find_map f (map g xs) = find_map (\<lambda>x. f (g x)) xs"
  by (induction xs) (auto split: option.splits)

definition query_of :: "(string \<times> string) list \<Rightarrow> string" where
  "query_of ps = intercalate ''&'' (map render_pair ps)"

definition cookie_of :: "(string \<times> string) list \<Rightarrow> string" where
  "cookie_of ps = intercalate ''; '' (map render_pair ps)"

definition query_pairs_ok :: "(string \<times> string) list \<Rightarrow> bool" where
  "query_pairs_ok ps \<longleftrightarrow> list_all (\<lambda>(n, v). CHR ''='' \<notin> set n \<and> CHR ''&'' \<notin> set n \<and> CHR ''&'' \<notin> set v) ps"

definition cookie_pairs_ok :: "(string \<times> string) list \<Rightarrow> bool" where
  "cookie_pairs_ok ps \<longleftrightarrow> list_all (\<lambda>(n, v). CHR ''='' \<notin> set n \<and> CHR '';'' \<notin> set n \<and> CHR '';'' \<notin> set v
     \<and> list_all graphic n \<and> list_all graphic v) ps"

lemma split_on_query_of:
  "query_pairs_ok ps \<Longrightarrow> ps \<noteq> [] \<Longrightarrow> split_on CHR ''&'' (query_of ps) = map render_pair ps"
  unfolding query_of_def
  by (rule split_on_intercalate) (auto simp: query_pairs_ok_def render_pair_def list_all_iff)

lemma query_param_query_of: "query_pairs_ok ps \<Longrightarrow> query_param (query_of ps) k = map_of ps k"
proof (cases "ps = []")
  case True
  then show ?thesis
    by (simp add: query_param_def query_of_def)
next
  case False
  assume ok: "query_pairs_ok ps"
  have "query_param (query_of ps) k =
      find_map (\<lambda>p. case split_once CHR ''='' (render_pair p) of None \<Rightarrow> None
        | Some (name, val) \<Rightarrow> if name = k then Some val else None) ps"
    by (simp add: query_param_def split_on_query_of [OF ok False] find_map_map)
  also have "\<dots> = find_map (\<lambda>(n, v). if n = k then Some v else None) ps"
    using ok by (intro find_map_cong) (auto simp: query_pairs_ok_def list_all_iff str_simps)
  finally show ?thesis
    by (simp add: find_map_lookup)
qed

lemma split_on_cookie_of:
  "cookie_pairs_ok (p # ps) \<Longrightarrow> split_on CHR '';'' (cookie_of (p # ps)) =
     render_pair p # map (\<lambda>q. CHR '' '' # render_pair q) ps"
proof (induction ps arbitrary: p)
  case Nil
  then show ?case
    by (auto simp: cookie_of_def cookie_pairs_ok_def render_pair_def intro!: split_on_no_delim)
next
  case (Cons q ps)
  have "CHR '';'' \<notin> set (render_pair p)"
    using Cons.prems by (auto simp: cookie_pairs_ok_def render_pair_def)
  moreover have "cookie_of (p # q # ps) = render_pair p @ CHR '';'' # CHR '' '' # cookie_of (q # ps)"
    by (simp add: cookie_of_def)
  moreover have "split_on CHR '';'' (CHR '' '' # cookie_of (q # ps)) =
      (CHR '' '' # render_pair q) # map (\<lambda>q. CHR '' '' # render_pair q) ps"
    using Cons.IH [of q] Cons.prems by (simp add: cookie_pairs_ok_def)
  ultimately show ?case
    by (simp add: split_on_append)
qed

lemma trim_render_pair: "cookie_pairs_ok [p] \<Longrightarrow> trim (render_pair p) = render_pair p"
  by (rule trim_graphic) (auto simp: cookie_pairs_ok_def render_pair_def list_all_iff graphic_def)

lemma cookie_value_cookie_of: "cookie_pairs_ok ps \<Longrightarrow> cookie_value (cookie_of ps) k = map_of ps k"
proof (cases ps)
  case Nil
  then show ?thesis
    by (simp add: cookie_value_def cookie_of_def trim_graphic)
next
  case (Cons p qs)
  assume ok: "cookie_pairs_ok ps"
  let ?f = "\<lambda>pair. case split_once CHR ''='' (trim pair) of None \<Rightarrow> None
    | Some (name, val) \<Rightarrow> if trim name = k then Some (trim val) else None"
  have f: "?f (render_pair q) = (case q of (n, v) \<Rightarrow> if n = k then Some v else None)"
    if "q \<in> set ps" for q
    using ok that
    by (auto simp: trim_render_pair cookie_pairs_ok_def list_all_iff str_simps split: prod.split)
  have "cookie_value (cookie_of ps) k =
      find_map ?f (render_pair p # map (\<lambda>q. CHR '' '' # render_pair q) qs)"
    using ok split_on_cookie_of [of p qs] by (simp add: cookie_value_def Cons)
  also have "find_map ?f (map (\<lambda>q. CHR '' '' # render_pair q) qs) = find_map ?f (map render_pair qs)"
    by (simp add: find_map_map trim_space)
  then have "find_map ?f (render_pair p # map (\<lambda>q. CHR '' '' # render_pair q) qs) =
      find_map ?f (map render_pair ps)"
    by (simp only: Cons list.map find_map.simps)
  also have "\<dots> = find_map (\<lambda>(n, v). if n = k then Some v else None) ps"
    unfolding find_map_map by (rule find_map_cong) (rule f)
  finally show ?thesis
    by (simp add: find_map_lookup)
qed

lemma enforce_bound:
  assumes "env_ok c" and "store_inv s" and "\<not> poisoned s"
    and "extract_state_token x req = Some t" and "extract_session_id x req = Some i"
  shows "fst (enforce_pkce_state_session x verify_state c req nx s) = Ret
    (if bound_session c s t = Some i then (NextResponse (nx req), [allow_event])
     else (invalid_state_response, [reject_event ''state_session_mismatch'' None]))"
  using assms by (auto simp: enforce_pkce_state_session_def verify_state_answer)

section \<open>Properties\<close>

text \<open>The library functions of the witnesses, right on ASCII without percent signs.\<close>

definition sample_http :: http_env where
  "sample_http = \<lparr>header_to_str = (\<lambda>bs. Some (map (\<lambda>b. char_of (unat b)) bs)), percent_decode_utf8 = Some\<rparr>"

definition sample_request :: "string \<Rightarrow> string \<Rightarrow> http_request" where
  "sample_request q c = \<lparr>uri_query = Some q, cookie_header = Some (as_bytes c)\<rparr>"

lemma header_to_str_sample [simp]: "header_to_str sample_http (as_bytes c) = Some c"
  by (simp add: sample_http_def as_bytes_def o_def)

lemma extract_state_token_query_of:
  assumes "query_pairs_ok ps" and "uri_query req = Some (query_of ps)"
  shows "extract_state_token x req =
    Option.bind (Option.bind (map_of ps ''state'') (percent_decode_utf8 x))
      (\<lambda>t. if STATE_MAX_LEN < length t then None else Some t)"
  using assms by (simp add: extract_state_token_def query_param_query_of)

lemma extract_session_id_cookie_of:
  assumes "cookie_pairs_ok cs" and "cookie_header req = Some h" and "header_to_str x h = Some (cookie_of cs)"
  shows "extract_session_id x req =
    find_map (map_of cs) [''session_id'', ''authkit_session'', ''authvault_session'', ''sid'']"
  using assms
  by (simp add: extract_session_id_def cookie_value_cookie_of or_else_def split: option.split)

lemmas sample_pairs_ok = query_pairs_ok_def cookie_pairs_ok_def graphic_def

lemma sample_extraction:
  "extract_state_token sample_http (sample_request ''state=s1'' ''sid=u1'') = Some ''s1''"
  "extract_session_id sample_http (sample_request ''state=s1'' ''sid=u1'') = Some ''u1''"
  by (simp_all add: extract_state_token_def extract_session_id_def sample_request_def query_param_def
      cookie_value_def or_else_def trim_graphic graphic_def sample_http_def [THEN arg_cong, of percent_decode_utf8]
      STATE_MAX_LEN_def)

lemma query_param_state: "CHR ''&'' \<notin> set v \<Longrightarrow> query_param (''state='' @ v) ''state'' = Some v"
  using query_param_query_of [of "[(''state'', v)]" "''state''"]
  by (simp add: query_pairs_ok_def query_of_def render_pair_def)

text \<open>
  C3. The decision of the middleware over the in-memory store, on every branch: missing or
  oversized state, missing cookie, unusable store, binding that does not match or has expired,
  and the one branch that runs the rest of the chain, with the response and the audit log of each.
\<close>

theorem enforce_decision:
  assumes "env_ok c" and "store_inv s"
  shows "fst (enforce_pkce_state_session x verify_state c req nx s) = Ret
    (case (extract_state_token x req, extract_session_id x req) of
       (None, _) \<Rightarrow> (invalid_state_response, [reject_event ''missing_or_oversized_state'' None])
     | (Some t, None) \<Rightarrow> (invalid_state_response, [reject_event ''missing_session_cookie'' None])
     | (Some t, Some i) \<Rightarrow>
         if poisoned s then (invalid_state_response,
             [reject_event ''store_error'' (Some ''session store lock poisoned'')])
         else if bound_session c s t = Some i then (NextResponse (nx req), [allow_event])
         else (invalid_state_response, [reject_event ''state_session_mismatch'' None]))"
  using assms
  by (auto simp: enforce_pkce_state_session_def verify_state_answer session_store_error_display_def
      split: option.splits)

theorem enforce_decision_witness:
  "fst (enforce_pkce_state_session sample_http verify_state (sample_env 5)
      (sample_request (query_of [(''state'', ''s1'')]) (cookie_of [(''sid'', ''u1'')])) (\<lambda>_. ''ok'')
      (snd (bind_state (sample_env 0) ''s1'' ''u1'' (store_with_capacity 10 2))))
   = Ret (NextResponse ''ok'', [allow_event])"
proof -
  let ?s = "snd (bind_state (sample_env 0) ''s1'' ''u1'' (store_with_capacity 10 2))"
  let ?r = "sample_request (query_of [(''state'', ''s1'')]) (cookie_of [(''sid'', ''u1'')])"
  have t: "extract_state_token sample_http ?r = Some ''s1''"
    by (subst extract_state_token_query_of [of "[(''state'', ''s1'')]"])
      (simp_all add: sample_pairs_ok sample_request_def sample_http_def STATE_MAX_LEN_def)
  have i: "extract_session_id sample_http ?r = Some ''u1''"
    by (subst extract_session_id_cookie_of
        [of "[(''sid'', ''u1'')]" _ "as_bytes (cookie_of [(''sid'', ''u1'')])"])
      (simp_all add: sample_pairs_ok sample_request_def)
  have "bound_session (sample_env 5) ?s ''s1'' = Some ''u1''" and "\<not> poisoned ?s"
    by (simp_all add: bound_session_def live_def bindings_def store_eval)
  with t i enforce_decision [OF sample_env_ok store_inv_bind [OF store_inv_with_capacity],
      of sample_http 5 ?r "\<lambda>_. ''ok''" "sample_env 0" "''s1''" "''u1''" 10 2]
  show ?thesis
    by simp
qed

text \<open>
  C2. No callback passes without a login. Over every history of the store and whatever the
  clocks read, a callback that reaches the handler carries a \<open>state\<close> of at most 1024 bytes and
  a session cookie, the history holds a successful \<open>bind_state\<close> of exactly this pair, and the
  TTL counted from that call has not run out.
\<close>

theorem callback_was_bound:
  assumes "store_history d n evs s" and "env_ok c"
    and "fst (enforce_pkce_state_session x verify_state c req nx s) = Ret (NextResponse r, log)"
  shows "\<exists>t i e. extract_state_token x req = Some t \<and> length t \<le> STATE_MAX_LEN
    \<and> extract_session_id x req = Some i
    \<and> Bound e t i (Ret (Inr ())) \<in> set evs \<and> now_evict c < now_bind e + d"
proof -
  obtain t i where ti: "extract_state_token x req = Some t" "extract_session_id x req = Some i"
    and ok: "fst (verify_state c t i s) = Ret (Inr True)"
    using mem.enforce_next_verified [OF assms(3)] by blast
  have "length t \<le> STATE_MAX_LEN"
    using ti(1) by (auto simp: extract_state_token_def Option.bind_eq_Some_conv split: if_splits)
  with ti bound_event_of_verified [OF assms(1,2) ok] show ?thesis
    by blast
qed

theorem callback_was_bound_witness:
  "\<exists>t i e. extract_state_token sample_http (sample_request ''state=s1'' ''sid=u1'') = Some t
    \<and> length t \<le> STATE_MAX_LEN
    \<and> extract_session_id sample_http (sample_request ''state=s1'' ''sid=u1'') = Some i
    \<and> Bound e t i (Ret (Inr ())) \<in> set [Bound (sample_env 0) ''s1'' ''u1'' (Ret (Inr ()))]
    \<and> now_evict (sample_env 5) < now_bind e + 10"
proof (rule callback_was_bound)
  let ?s = "snd (bind_state (sample_env 0) ''s1'' ''u1'' (store_with_capacity 10 2))"
  show "store_history 10 2 [Bound (sample_env 0) ''s1'' ''u1'' (Ret (Inr ()))] ?s"
    by (rule store_history.bind [OF store_history.created sample_env_ok]) (simp add: store_eval)
  show "fst (enforce_pkce_state_session sample_http verify_state (sample_env 5)
      (sample_request ''state=s1'' ''sid=u1'') (\<lambda>_. ()) ?s) = Ret (NextResponse (), [allow_event])"
    by (simp add: enforce_pkce_state_session_def sample_extraction store_eval)
qed simp

text \<open>
  A genuine callback passes. After \<open>bind_state\<close> of a token for a session, a request whose
  query holds the token in its first \<open>state\<close> parameter (percent-decoded, at most 1024 bytes) and
  whose cookie header names the session reaches the handler as long as the TTL has not run out,
  whatever other parameters and cookies it carries.
\<close>

theorem genuine_callback_passes:
  assumes "env_ok e" and "env_ok c" and "store_inv s"
    and "bind_state e t i s = (Ret (Inr ()), s')" and "now_evict c < now_bind e + ttl s"
    and "query_pairs_ok ps" and "uri_query req = Some (query_of ps)"
    and "map_of ps ''state'' = Some raw" and "percent_decode_utf8 x raw = Some t"
    and "length t \<le> STATE_MAX_LEN"
    and "cookie_pairs_ok cs" and "cookie_header req = Some h" and "header_to_str x h = Some (cookie_of cs)"
    and "map_of cs ''session_id'' = Some i"
  shows "fst (enforce_pkce_state_session x verify_state c req nx s')
    = Ret (NextResponse (nx req), [allow_event])"
proof -
  have t: "extract_state_token x req = Some t"
    using assms(6-10) by (simp add: extract_state_token_query_of)
  have i: "extract_session_id x req = Some i"
    using assms(11-14) by (simp add: extract_session_id_cookie_of)
  have "bindings s' t = Some (i, now_bind e + ttl s)"
    using bind_state_bindings [OF assms(3,4)] bind_state_expiry [OF assms(1,4)] by simp
  then have "bound_session c s' t = Some i"
    using assms(5) by (simp add: bound_session_def live_def)
  moreover have "store_inv s'" and "\<not> poisoned s'"
    using store_inv_bind [OF assms(3), of e t i] assms(4)
    by (auto simp: bind_state_def Let_def split: if_splits option.splits)
  ultimately have "fst (verify_state c t i s') = Ret (Inr True)"
    using assms(2) by (simp add: verify_state_answer)
  with t i show ?thesis
    by (auto simp: enforce_pkce_state_session_def split: prod.splits)
qed

theorem genuine_callback_passes_witness:
  "fst (enforce_pkce_state_session sample_http verify_state (sample_env 5)
      (sample_request (query_of [(''code'', ''xyz''), (''state'', ''s1'')])
        (cookie_of [(''theme'', ''dark''), (''session_id'', ''u1'')])) (\<lambda>_. ())
      (snd (bind_state (sample_env 0) ''s1'' ''u1'' (store_with_capacity 10 2))))
   = Ret (NextResponse (), [allow_event])"
proof (rule genuine_callback_passes [OF sample_env_ok sample_env_ok store_inv_with_capacity,
      of 0 "''s1''" "''u1''" 10 2 _ 5
        "[(''code'', ''xyz''), (''state'', ''s1'')]" _ "''s1''" sample_http
        "[(''theme'', ''dark''), (''session_id'', ''u1'')]"
        "as_bytes (cookie_of [(''theme'', ''dark''), (''session_id'', ''u1'')])"])
  show "bind_state (sample_env 0) ''s1'' ''u1'' (store_with_capacity 10 2) =
      (Ret (Inr ()), snd (bind_state (sample_env 0) ''s1'' ''u1'' (store_with_capacity 10 2)))"
    by (simp add: store_eval)
qed (simp_all add: sample_pairs_ok sample_request_def sample_http_def STATE_MAX_LEN_def store_eval
    as_bytes_def o_def)

text \<open>
  Query and cookie parsing find the first match. On any query string built from name=value
  pairs \<open>query_param\<close> is the lookup of the first pair with that name, and on any cookie header
  (pairs joined by a semicolon and a space) \<open>cookie_value\<close> is; values may contain \<open>=\<close>.
\<close>

theorem parameter_lookup:
  assumes "query_pairs_ok ps" and "cookie_pairs_ok cs"
  shows "query_param (query_of ps) k = map_of ps k \<and> cookie_value (cookie_of cs) k = map_of cs k"
  using assms by (simp add: query_param_query_of cookie_value_cookie_of)

theorem parameter_lookup_witness:
  "query_param ''code=a=b&state=s1&state=s2'' ''state'' = Some ''s1''
     \<and> cookie_value ''theme=dark; sid=u1==; sid=u2'' ''sid'' = Some ''u1==''"
  using parameter_lookup [of "[(''code'', ''a=b''), (''state'', ''s1''), (''state'', ''s2'')]"
      "[(''theme'', ''dark''), (''sid'', ''u1==''), (''sid'', ''u2'')]" "''state''"]
    parameter_lookup [of "[(''code'', ''a=b''), (''state'', ''s1''), (''state'', ''s2'')]"
      "[(''theme'', ''dark''), (''sid'', ''u1==''), (''sid'', ''u2'')]" "''sid''"]
  by (simp add: sample_pairs_ok query_of_def cookie_of_def render_pair_def)

text \<open>
  The session cookie is chosen by name, not by position: \<open>session_id\<close> wins over
  \<open>authkit_session\<close>, that over \<open>authvault_session\<close> and that over \<open>sid\<close>, wherever in the
  header they stand; without any of the four there is no session and the callback is rejected
  before the store is asked.
\<close>

theorem session_cookie_precedence:
  assumes "cookie_pairs_ok cs" and "cookie_header req = Some h" and "header_to_str x h = Some (cookie_of cs)"
  shows "extract_session_id x req =
      find_map (map_of cs) [''session_id'', ''authkit_session'', ''authvault_session'', ''sid'']
    \<and> (set (map fst cs) \<inter> {''session_id'', ''authkit_session'', ''authvault_session'', ''sid''} = {}
       \<longrightarrow> (\<exists>ev. enforce_pkce_state_session x verify c req nx s = (Ret (invalid_state_response, [ev]), s)))"
proof -
  have "map_of cs k = None" if "k \<notin> set (map fst cs)" for k
    using that by (simp add: map_of_eq_None_iff)
  then show ?thesis
    using extract_session_id_cookie_of [OF assms]
    by (auto simp: enforce_pkce_state_session_def split: option.split)
qed

theorem session_cookie_precedence_witness:
  "extract_session_id sample_http (sample_request ''state=s1'' ''sid=u1; session_id=u2'') = Some ''u2''"
proof -
  let ?cs = "[(''sid'', ''u1''), (''session_id'', ''u2'')]"
  have "cookie_pairs_ok ?cs" and "cookie_of ?cs = ''sid=u1; session_id=u2''"
    by (simp_all add: sample_pairs_ok cookie_of_def render_pair_def)
  with session_cookie_precedence [of ?cs "sample_request ''state=s1'' ''sid=u1; session_id=u2''"
      "as_bytes (cookie_of ?cs)" sample_http]
  show ?thesis
    by (simp add: sample_request_def)
qed

text \<open>
  An oversized \<open>state\<close> is rejected before any store is consulted: whatever the store, its
  \<open>verify\<close> method and its contents, a token longer than 1024 bytes after decoding gets the
  \<open>401 invalid_state\<close> response, the store is left untouched and the handler is not run.
\<close>

theorem oversized_state_rejected:
  assumes "query_param q ''state'' = Some raw" and "uri_query req = Some q"
    and "percent_decode_utf8 x raw = Some t" and "1024 < length t"
  shows "enforce_pkce_state_session x verify c req nx s =
    (Ret (JsonResponse 401 \<lparr>body_error = ''invalid_state'', body_description = INVALID_STATE_DESCRIPTION\<rparr>,
       [reject_event ''missing_or_oversized_state'' None]), s)"
  using assms
  by (simp add: enforce_pkce_state_session_def extract_state_token_def STATE_MAX_LEN_def
      invalid_state_response_def)

theorem oversized_state_rejected_witness:
  "snd (enforce_pkce_state_session sample_http verify_state (sample_env 0)
      (sample_request (''state='' @ replicate 1025 CHR ''x'') ''sid=u'') (\<lambda>_. ()) store_new) = store_new"
  using oversized_state_rejected [of "''state='' @ replicate 1025 CHR ''x''" "replicate 1025 CHR ''x''"
      "sample_request (''state='' @ replicate 1025 CHR ''x'') ''sid=u''" sample_http
      "replicate 1025 CHR ''x''" verify_state "sample_env 0" "\<lambda>_. ()" store_new]
    query_param_state [of "replicate 1025 CHR ''x''"]
  by (simp add: sample_request_def sample_http_def)

text \<open>
  Exactly one audit event per callback, and no secret in it. Over the in-memory store every
  call logs one of five fixed events, the allow event exactly when the handler runs; none of
  them depends on the state token, the session id or anything else in the request.
\<close>

theorem audit_log_redacted:
  assumes "env_ok c" and "store_inv s"
    and "fst (enforce_pkce_state_session x verify_state c req nx s) = Ret (resp, log)"
  shows "(\<exists>ev. log = [ev] \<and> ev \<in> {allow_event,
        reject_event ''missing_or_oversized_state'' None, reject_event ''missing_session_cookie'' None,
        reject_event ''state_session_mismatch'' None,
        reject_event ''store_error'' (Some ''session store lock poisoned'')})
    \<and> (log = [allow_event] \<longleftrightarrow> resp = NextResponse (nx req))
    \<and> (log \<noteq> [allow_event] \<longleftrightarrow> resp = invalid_state_response)"
proof -
  have "reject_event a b \<noteq> allow_event" for a b
    by (simp add: reject_event_def allow_event_def)
  then show ?thesis
    using assms
    by (auto simp: enforce_pkce_state_session_def verify_state_answer session_store_error_display_def
        split: option.splits if_splits bool.splits)
qed

theorem audit_log_redacted_witness:
  "\<exists>ev. fst (enforce_pkce_state_session sample_http verify_state (sample_env 0)
      (sample_request ''state=t'' []) (\<lambda>_. ()) store_new) = Ret (invalid_state_response, [ev])
    \<and> ev \<noteq> allow_event"
proof -
  let ?e = "fst (enforce_pkce_state_session sample_http verify_state (sample_env 0)
      (sample_request ''state=t'' []) (\<lambda>_. ()) store_new)"
  have inv: "store_inv store_new"
    by (simp add: store_new_def store_default_def)
  have i: "extract_session_id sample_http (sample_request ''state=t'' []) = None"
    by (simp add: extract_session_id_def sample_request_def cookie_value_def or_else_def trim_graphic)
  obtain log where e: "?e = Ret (invalid_state_response, log)"
    by (cases "extract_state_token sample_http (sample_request ''state=t'' [])")
      (simp_all add: enforce_pkce_state_session_def i)
  from audit_log_redacted [OF sample_env_ok inv e] e show ?thesis
    by auto
qed

text \<open>
  A callback can be replayed. The middleware verifies the binding and does not revoke it:
  the very same request passes again, as often as it is sent, until the binding expires.
\<close>

theorem callback_replay_accepted:
  assumes "env_ok c" and "store_inv s"
    and "enforce_pkce_state_session x verify_state c req nx s = (Ret (NextResponse r, log), s')"
  shows "enforce_pkce_state_session x verify_state c req nx s' = (Ret (NextResponse r, log), s')"
proof -
  obtain t i where ti: "extract_state_token x req = Some t" "extract_session_id x req = Some i"
    and "fst (verify_state c t i s) = Ret (Inr True)"
    using mem.enforce_next_verified [of x c req nx s r log] assms(3) by auto
  moreover have "snd (verify_state c t i s) = s'"
    using enforce_store [of x verify_state c req nx s] assms(3) ti by simp
  ultimately have v: "verify_state c t i s = (Ret (Inr True), s')"
    by (simp add: prod_eq_iff)
  have "verify_state c t i s' = (Ret (Inr True), s')"
    using assms(1,2) v by (rule verify_state_stable)
  with assms(3) ti v show ?thesis
    by (simp add: enforce_pkce_state_session_def)
qed

theorem callback_replay_accepted_witness:
  "\<exists>s. enforce_pkce_state_session sample_http verify_state (sample_env 5)
      (sample_request ''state=s1'' ''sid=u1'') (\<lambda>_. ()) s = (Ret (NextResponse (), [allow_event]), s)"
proof -
  let ?s = "snd (bind_state (sample_env 0) ''s1'' ''u1'' (store_with_capacity 10 2))"
  let ?r = "sample_request ''state=s1'' ''sid=u1''"
  have "enforce_pkce_state_session sample_http verify_state (sample_env 5) ?r (\<lambda>_. ()) ?s =
      (Ret (NextResponse (), [allow_event]), snd (verify_state (sample_env 5) ''s1'' ''u1'' ?s))"
    by (simp add: enforce_pkce_state_session_def sample_extraction store_eval)
  from callback_replay_accepted [OF sample_env_ok store_inv_bind [OF store_inv_with_capacity] this]
  show ?thesis
    by blast
qed

end
