(* ===== verification/Login_Service.thy ===== *)
theory Login_Service
  imports Pkce_Middleware Store_Liveness
begin

text \<open>
  A login of \<open>src/middleware/pkce_state_session.rs\<close> from its \<open>bind_state\<close> to its callback, with any
  other calls on the store in between: what the callback gets depends on its session cookie and on
  nothing else.
\<close>

section \<open>Property\<close>

text \<open>
  C18. Until it expires an honest login gets through, and nobody else with its \<open>state\<close>. Take any
  history of a store that is not poisoned, in which a \<open>bind_state\<close> of a token for a session succeeded,
  followed by any calls that do not bind or revoke this token, as many as there may be, on clocks
  below the expiry, and a callback whose clock is below it too. A callback whose first \<open>state\<close>
  parameter is the token (percent-decoded, at most 1024 bytes) reaches the handler exactly when its
  first \<open>session_id\<close> cookie names that session, whatever other parameters and cookies it carries;
  with any other session it gets the 401 and the event of a mismatch.
\<close>

theorem login_served:
  assumes "store_history d n (after @ Bound e\<^sub>0 t i (Ret (Inr ())) # before) s"
    and "list_all (leaves t) after" and "\<forall>now \<in> set (eviction_times after). now < now_bind e\<^sub>0 + d"
    and "now_evict c < now_bind e\<^sub>0 + d" and "env_ok c" and "\<not> poisoned s"
    and "query_pairs_ok ps" and "uri_query req = Some (query_of ps)"
    and "map_of ps ''state'' = Some raw" and "percent_decode_utf8 x raw = Some t"
    and "length t \<le> STATE_MAX_LEN"
    and "cookie_pairs_ok cs" and "cookie_header req = Some h" and "header_to_str x h = Some (cookie_of cs)"
    and "map_of cs ''session_id'' = Some j"
  shows "fst (enforce_pkce_state_session x verify_state c req nx s) = Ret
    (if j = i then (NextResponse (nx req), [allow_event])
     else (invalid_state_response, [reject_event ''state_session_mismatch'' None]))"
proof -
  have t: "extract_state_token x req = Some t"
    using assms(7-11) by (simp add: extract_state_token_query_of)
  have j: "extract_session_id x req = Some j"
    using assms(12-15) by (simp add: extract_session_id_cookie_of)
  have "store_inv s"
    using store_history_inv [OF assms(1)] by simp
  moreover have "bound_session c s t = Some i"
    using history_keeps [OF assms(1-3)] live_keeps assms(4) by (simp add: bound_session_def)
  ultimately show ?thesis
    using enforce_bound [OF assms(5) _ assms(6) t j] by auto
qed

text \<open>A login, another one on a store of capacity one that is refused, and the callback.\<close>

theorem login_served_witness:
  "let s1 = snd (bind_state (sample_env 0) ''s1'' ''u1'' (store_with_capacity 10 1));
       s2 = snd (bind_state (sample_env 3) ''s2'' ''u2'' s1)
   in fst (enforce_pkce_state_session sample_http verify_state (sample_env 5)
        (sample_request (query_of [(''state'', ''s1'')]) (cookie_of [(''session_id'', ''u1'')])) (\<lambda>_. ()) s2)
      = Ret (NextResponse (), [allow_event])"
proof -
  let ?s1 = "snd (bind_state (sample_env 0) ''s1'' ''u1'' (store_with_capacity 10 1))"
  let ?s2 = "snd (bind_state (sample_env 3) ''s2'' ''u2'' ?s1)"
  let ?after = "[Bound (sample_env 3) ''s2'' ''u2'' (Ret (Inl (AtCapacity 1)))]"
  have "store_history 10 1 [Bound (sample_env 0) ''s1'' ''u1'' (Ret (Inr ()))] ?s1"
    by (rule store_history.bind [OF store_history.created sample_env_ok]) (simp add: store_eval)
  then have h: "store_history 10 1 (?after @ [Bound (sample_env 0) ''s1'' ''u1'' (Ret (Inr ()))]) ?s2"
    unfolding append.simps by (rule store_history.bind [OF _ sample_env_ok]) (simp add: store_eval)
  have "fst (enforce_pkce_state_session sample_http verify_state (sample_env 5)
      (sample_request (query_of [(''state'', ''s1'')]) (cookie_of [(''session_id'', ''u1'')])) (\<lambda>_. ()) ?s2)
    = Ret (if ''u1'' = ''u1'' then (NextResponse (), [allow_event])
        else (invalid_state_response, [reject_event ''state_session_mismatch'' None]))"
    by (rule login_served [OF h _ _ _ sample_env_ok, where ps = "[(''state'', ''s1'')]" and raw = "''s1''"
        and cs = "[(''session_id'', ''u1'')]" and h = "as_bytes (cookie_of [(''session_id'', ''u1'')])"])
      (simp_all add: sample_pairs_ok sample_request_def sample_http_def STATE_MAX_LEN_def store_eval
        as_bytes_def o_def)
  then show ?thesis
    by (simp add: Let_def)
qed

end
