(* ===== verification/Callback_Race.thy ===== *)
theory Callback_Race
  imports Pkce_Middleware Simulation_Locale
begin

text \<open>
  Callbacks that overlap. The handler of \<open>src/middleware/pkce_state_session.rs\<close> awaits the rest of
  the chain after it has verified the binding, so that a request is in two steps: it \<^emph>\<open>arrives\<close>
  (extraction and the one call of \<open>verify_state\<close>, under the store's mutex) and, when it passed, the
  rest of the chain \<^emph>\<open>responds\<close> later. Between the two, other requests arrive and respond, logins
  bind and logouts revoke. The overlapping runs are compared with the sequential server, which
  finishes a request before it looks at anything else.
\<close>

section \<open>The server\<close>

text \<open>A login and a logout are recorded with what the store replied.\<close>

datatype server_event =
    Login call_env string string "(session_store_error + unit) outcome"
  | Logout string "(session_store_error + unit) outcome"
  | Arrive nat call_env http_request
  | Respond nat

text \<open>A connection waits for its request, has passed the check, or has its response.\<close>

datatype 'r phase =
    Waiting
  | Through http_request
  | Answered "'r response"

fun checked :: "http_request \<Rightarrow> unit response \<Rightarrow> 'r phase" where
  "checked req (JsonResponse n b) = Answered (JsonResponse n b)"
| "checked req (NextResponse r) = Through req"

text \<open>\<open>Next::run\<close> is the function \<open>nx\<close> of the request; the events are listed newest first.\<close>

inductive server_run ::
  "http_env \<Rightarrow> (http_request \<Rightarrow> 'r) \<Rightarrow> in_memory_store \<Rightarrow> server_event list \<Rightarrow> in_memory_store
     \<Rightarrow> (nat \<Rightarrow> 'r phase) \<Rightarrow> bool"
  for x :: http_env and nx :: "http_request \<Rightarrow> 'r" and s\<^sub>0 :: in_memory_store where
  start: "server_run x nx s\<^sub>0 [] s\<^sub>0 (\<lambda>k. Waiting)"
| login: "server_run x nx s\<^sub>0 evs s ph \<Longrightarrow> bind_state e t i s = (r, s')
    \<Longrightarrow> server_run x nx s\<^sub>0 (Login e t i r # evs) s' ph"
| logout: "server_run x nx s\<^sub>0 evs s ph \<Longrightarrow> revoke_state t s = (r, s')
    \<Longrightarrow> server_run x nx s\<^sub>0 (Logout t r # evs) s' ph"
| arrive: "server_run x nx s\<^sub>0 evs s ph \<Longrightarrow> ph k = Waiting
    \<Longrightarrow> enforce_pkce_state_session x verify_state e req (\<lambda>_. ()) s = (Ret (r, log), s')
    \<Longrightarrow> server_run x nx s\<^sub>0 (Arrive k e req # evs) s' (ph(k := checked req r))"
| respond: "server_run x nx s\<^sub>0 evs s ph \<Longrightarrow> ph k = Through req
    \<Longrightarrow> server_run x nx s\<^sub>0 (Respond k # evs) s (ph(k := Answered (NextResponse (nx req))))"

section \<open>The sequential server\<close>

text \<open>A call runs to its end; a callback replies with its connection and its response.\<close>

fun serve :: "http_env \<Rightarrow> (http_request \<Rightarrow> 'r) \<Rightarrow> server_event \<Rightarrow> in_memory_store
    \<Rightarrow> (nat \<times> 'r response) option \<times> in_memory_store" where
  "serve x nx (Login e t i r) s = (None, snd (bind_state e t i s))"
| "serve x nx (Logout t r) s = (None, snd (revoke_state t s))"
| "serve x nx (Arrive k e req) s =
     (case enforce_pkce_state_session x verify_state e req nx s of
        (Ret (r, log), s') \<Rightarrow> (Some (k, r), s') | (Panic, s') \<Rightarrow> (None, s'))"
| "serve x nx (Respond k) s = (None, s)"

text \<open>What connection \<open>k\<close> is told when the events, oldest first, are served one after the other.\<close>

definition served_reply :: "http_env \<Rightarrow> (http_request \<Rightarrow> 'r) \<Rightarrow> in_memory_store \<Rightarrow> server_event list
    \<Rightarrow> nat \<Rightarrow> 'r response option" where
  "served_reply x nx s\<^sub>0 evs k =
     map_of (rev (List.map_filter id (replies (serve x nx) (rev evs) s\<^sub>0))) k"

lemma served_reply_Nil [simp]: "served_reply x nx s\<^sub>0 [] k = None"
  by (simp add: served_reply_def List.map_filter_def)

lemma served_reply_Cons:
  "served_reply x nx s\<^sub>0 (ev # evs) k =
     (case fst (serve x nx ev (final (serve x nx) (rev evs) s\<^sub>0)) of
        Some (k', r) \<Rightarrow> if k' = k then Some r else served_reply x nx s\<^sub>0 evs k
      | None \<Rightarrow> served_reply x nx s\<^sub>0 evs k)"
  by (auto simp: served_reply_def run_append List.map_filter_def split: option.split)

section \<open>Overlapping is sequential\<close>

text \<open>The check does not depend on the rest of the chain.\<close>

lemma enforce_chain:
  assumes "enforce_pkce_state_session x verify c req (\<lambda>_. ()) s = (Ret (r, log), s')"
  shows "enforce_pkce_state_session x verify c req nx s =
    (Ret (case r of JsonResponse n b \<Rightarrow> JsonResponse n b | NextResponse _ \<Rightarrow> NextResponse (nx req), log), s')"
  using assms
  by (auto simp: enforce_pkce_state_session_def invalid_state_response_def
      split: option.splits prod.splits outcome.splits sum.splits bool.splits)

definition due :: "(http_request \<Rightarrow> 'r) \<Rightarrow> 'r phase \<Rightarrow> 'r response option" where
  "due nx p = (case p of Waiting \<Rightarrow> None | Through req \<Rightarrow> Some (NextResponse (nx req)) | Answered r \<Rightarrow> Some r)"

lemma due_checked:
  "due nx (checked req r) = Some (case r of JsonResponse n b \<Rightarrow> JsonResponse n b
     | NextResponse _ \<Rightarrow> NextResponse (nx req))"
  by (cases r) (simp_all add: due_def)

lemma server_run_serves:
  "server_run x nx s\<^sub>0 evs s ph \<Longrightarrow>
     s = final (serve x nx) (rev evs) s\<^sub>0 \<and> (\<forall>k. due nx (ph k) = served_reply x nx s\<^sub>0 evs k)"
proof (induction rule: server_run.induct)
  case start
  then show ?case
    by (simp add: due_def)
next
  case (login evs s ph e t i r s')
  then show ?case
    by (simp add: run_append served_reply_Cons)
next
  case (logout evs s ph t r s')
  then show ?case
    by (simp add: run_append served_reply_Cons)
next
  case (arrive evs s ph k e req r log s')
  have "serve x nx (Arrive k e req) s = (Some (k, the (due nx (checked req r))), s')"
    by (simp add: enforce_chain [OF arrive.hyps(3)] due_checked)
  with arrive show ?case
    by (auto simp: run_append served_reply_Cons due_checked)
next
  case (respond evs s ph k req)
  then have "served_reply x nx s\<^sub>0 evs k = Some (NextResponse (nx req))"
    using spec [OF respond.IH [THEN conjunct2], of k] by (simp add: due_def)
  with respond show ?case
    by (auto simp: run_append served_reply_Cons due_def)
qed

section \<open>Overlapping is safe\<close>

fun crates_behave :: "server_event \<Rightarrow> bool" where
  "crates_behave (Login e t i r) \<longleftrightarrow> env_ok e"
| "crates_behave (Arrive k e req) \<longleftrightarrow> env_ok e"
| "crates_behave _ \<longleftrightarrow> True"

text \<open>
  The login of a token that counts: the last one that succeeded, unless a logout succeeded after
  it, with the session it bound and the moment it expires.
\<close>

fun login_of :: "int \<Rightarrow> server_event list \<Rightarrow> string \<Rightarrow> (string \<times> int) option" where
  "login_of d [] t = None"
| "login_of d (Login e u i r # evs) t =
     (if u = t \<and> r = Ret (Inr ()) then Some (i, now_bind e + d) else login_of d evs t)"
| "login_of d (Logout u r # evs) t =
     (if u = t \<and> r = Ret (Inr ()) then None else login_of d evs t)"
| "login_of d (Arrive k e req # evs) t = login_of d evs t"
| "login_of d (Respond k # evs) t = login_of d evs t"

text \<open>When the connection's request arrived, the login of its \<open>state\<close> was to its session and live.\<close>

definition covered :: "http_env \<Rightarrow> int \<Rightarrow> server_event list \<Rightarrow> nat \<Rightarrow> bool" where
  "covered x d evs k \<longleftrightarrow> (\<exists>later e req earlier t i expiry.
     evs = later @ Arrive k e req # earlier
     \<and> extract_state_token x req = Some t \<and> extract_session_id x req = Some i
     \<and> login_of d earlier t = Some (i, expiry) \<and> now_evict e < expiry)"

fun reached :: "'r phase \<Rightarrow> bool" where
  "reached (Through req) \<longleftrightarrow> True"
| "reached (Answered (NextResponse r)) \<longleftrightarrow> True"
| "reached _ \<longleftrightarrow> False"

lemma covered_Cons: "covered x d evs k \<Longrightarrow> covered x d (ev # evs) k"
  unfolding covered_def by (metis append_Cons)

lemma enforce_history:
  assumes "store_history d n hist s" and "env_ok e"
    and "enforce_pkce_state_session x verify_state e req nx s = (r, s')"
  shows "\<exists>hist'. store_history d n hist' s' \<and> last_binding d hist' = last_binding d hist"
proof (cases "\<exists>t i. extract_state_token x req = Some t \<and> extract_session_id x req = Some i")
  case True
  then obtain t i where "snd (verify_state e t i s) = s'"
    using enforce_store [of x verify_state e req nx s] assms(3) by auto
  then have "store_history d n (Verified e t i (fst (verify_state e t i s)) # hist) s'"
    by (intro store_history.verify [OF assms(1,2)]) (simp add: prod_eq_iff)
  then show ?thesis
    by (intro exI [of _ "Verified e t i (fst (verify_state e t i s)) # hist"]) (simp add: last_binding_upd)
next
  case False
  then have "s' = s"
    using enforce_store [of x verify_state e req nx s] assms(3) by (auto split: option.splits)
  with assms(1) show ?thesis
    by blast
qed

lemma server_run_history:
  "server_run x nx (store_with_capacity d n) evs s ph \<Longrightarrow> list_all crates_behave evs \<Longrightarrow>
     \<exists>hist. store_history d n hist s \<and> last_binding d hist = login_of d evs"
proof (induction rule: server_run.induct)
  case start
  show ?case
    using store_history.created by (intro exI [of _ "[]"]) (simp add: fun_eq_iff)
next
  case (login evs s ph e t i r s')
  then obtain hist where "store_history d n hist s" "last_binding d hist = login_of d evs"
    by auto
  with login.hyps(2) login.prems show ?case
    by (intro exI [of _ "Bound e t i r # hist"]) (auto simp: fun_eq_iff intro: store_history.bind)
next
  case (logout evs s ph t r s')
  then obtain hist where "store_history d n hist s" "last_binding d hist = login_of d evs"
    by auto
  with logout.hyps(2) show ?case
    by (intro exI [of _ "Revoked t r # hist"]) (auto simp: fun_eq_iff intro: store_history.revoke)
next
  case (arrive evs s ph k e req r log s')
  then obtain hist where h: "store_history d n hist s" "last_binding d hist = login_of d evs"
    by auto
  have "env_ok e"
    using arrive.prems by simp
  moreover have "login_of d (Arrive k e req # evs) = login_of d evs"
    by (simp add: fun_eq_iff)
  ultimately show ?case
    using enforce_history [OF h(1) _ arrive.hyps(3)] h(2) by metis
next
  case (respond evs s ph k req)
  then show ?case
    by (simp add: fun_eq_iff)
qed

lemma server_run_covered:
  "server_run x nx (store_with_capacity d n) evs s ph \<Longrightarrow> list_all crates_behave evs \<Longrightarrow>
     reached (ph k) \<Longrightarrow> covered x d evs k"
proof (induction rule: server_run.induct)
  case (arrive evs s ph k' e req r log s')
  show ?case
  proof (cases "k' = k \<and> (\<exists>u. r = NextResponse u)")
    case True
    then have next_: "fst (enforce_pkce_state_session x verify_state e req (\<lambda>_. ()) s) = Ret (NextResponse (), log)"
      using arrive.hyps(3) by auto
    obtain hist where h: "store_history d n hist s" and logins: "last_binding d hist = login_of d evs"
      using server_run_history [OF arrive.hyps(1)] arrive.prems(1) by auto
    obtain t i where ti: "extract_state_token x req = Some t" "extract_session_id x req = Some i"
        and v: "fst (verify_state e t i s) = Ret (Inr True)"
      using mem.enforce_next_verified [OF next_] by blast
    obtain expiry where "login_of d evs t = Some (i, expiry)" "now_evict e < expiry"
      using verified_last_binding [OF h _ v] arrive.prems(1) by (auto simp: logins)
    with ti True show ?thesis
      unfolding covered_def
      by (intro exI [of _ "[]"] exI [of _ e] exI [of _ req] exI [of _ evs] exI [of _ t]
          exI [of _ i] exI [of _ expiry]) simp
  next
    case False
    then have "reached (ph k)"
      using arrive.prems(2) by (cases r) (auto split: if_splits)
    then show ?thesis
      using arrive.IH arrive.prems(1) by (auto intro: covered_Cons)
  qed
next
  case (respond evs s ph k' req)
  then have "reached (ph k)"
    by (cases "k' = k") (auto split: if_splits)
  then show ?case
    using respond.IH respond.prems(1) by (auto intro: covered_Cons)
qed (auto intro: covered_Cons)

section \<open>Property\<close>

text \<open>
  C19. Overlapping callbacks are as if served one at a time. In every interleaving of logins,
  logouts, arrivals and responses over a new store, the store is the one the sequential server
  would leave, and each connection that was let through or answered gets the response the
  sequential server gives it at the moment its request arrived, whatever happened between the
  check and the response. A connection reached the rest of the chain only if, when its request
  arrived, the last login of its \<open>state\<close> that succeeded was to its very session, had not been
  overwritten by another login or ended by a logout, and had not expired.
\<close>

theorem overlapping_callbacks:
  assumes "server_run x nx (store_with_capacity d n) evs s ph" and "list_all crates_behave evs"
  shows "s = final (serve x nx) (rev evs) (store_with_capacity d n)
    \<and> due nx (ph k) = served_reply x nx (store_with_capacity d n) evs k
    \<and> (reached (ph k) \<longrightarrow> covered x d evs k)"
  using server_run_serves [OF assms(1)] server_run_covered [OF assms] by simp

text \<open>A logout between the check and the response does not stop a callback that has passed.\<close>

definition overlap_events :: "server_event list" where
  "overlap_events = [Respond 1, Logout ''s1'' (Ret (Inr ())), Arrive 1 (sample_env 5) (sample_request ''state=s1'' ''sid=u1''),
     Login (sample_env 0) ''s1'' ''u1'' (Ret (Inr ()))]"

theorem overlapping_callbacks_witness:
  "served_reply sample_http (\<lambda>_. ''welcome'') (store_with_capacity 10 2) overlap_events 1 =
     Some (NextResponse ''welcome'')
   \<and> covered sample_http 10 overlap_events 1"
proof -
  let ?nx = "\<lambda>_ :: http_request. ''welcome''" and ?s0 = "store_with_capacity 10 2"
  let ?req = "sample_request ''state=s1'' ''sid=u1''"
  let ?s1 = "snd (bind_state (sample_env 0) ''s1'' ''u1'' ?s0)"
  let ?s2 = "snd (verify_state (sample_env 5) ''s1'' ''u1'' ?s1)"
  let ?s3 = "snd (revoke_state ''s1'' ?s2)"
  have "bind_state (sample_env 0) ''s1'' ''u1'' ?s0 = (Ret (Inr ()), ?s1)"
    by (simp add: store_eval)
  note step = server_run.login [OF server_run.start this]
  have "enforce_pkce_state_session sample_http verify_state (sample_env 5) ?req (\<lambda>_. ()) ?s1 =
      (Ret (NextResponse (), [allow_event]), ?s2)"
    by (simp add: enforce_pkce_state_session_def sample_extraction store_eval)
  from server_run.arrive [OF step _ this, of ?nx 1]
  have "server_run sample_http ?nx ?s0 [Arrive 1 (sample_env 5) ?req,
      Login (sample_env 0) ''s1'' ''u1'' (Ret (Inr ()))] ?s2 ((\<lambda>k. Waiting)(1 := Through ?req))"
    by simp
  moreover have "revoke_state ''s1'' ?s2 = (Ret (Inr ()), ?s3)"
    by (simp add: store_eval)
  ultimately have "server_run sample_http ?nx ?s0 [Logout ''s1'' (Ret (Inr ())), Arrive 1 (sample_env 5) ?req,
      Login (sample_env 0) ''s1'' ''u1'' (Ret (Inr ()))] ?s3 ((\<lambda>k. Waiting)(1 := Through ?req))"
    by (rule server_run.logout)
  from server_run.respond [OF this, of 1 ?req]
  have "server_run sample_http ?nx ?s0 overlap_events ?s3 ((\<lambda>k. Waiting)(1 := Answered (NextResponse ''welcome'')))"
    by (simp add: overlap_events_def)
  moreover have "list_all crates_behave overlap_events"
    by (simp add: overlap_events_def)
  ultimately show ?thesis
    using overlapping_callbacks [of sample_http ?nx 10 2 overlap_events ?s3
        "(\<lambda>k. Waiting)(1 := Answered (NextResponse ''welcome''))" 1]
    by (simp add: due_def)
qed

end
