(* ===== verification/Base32_Sample.thy ===== *)
theory Base32_Sample
  imports AuthKit_Prelude
begin

text \<open>
  The Base32 alphabet of RFC 4648 and a codec for it, written from the RFC. The \<open>base32\<close> crate
  itself is a parameter of the model (\<open>totp_crates\<close>); this codec only instantiates that
  parameter in witnesses, to show that the laws assumed of the crate can hold.
\<close>

definition base32_char :: "char \<Rightarrow> bool" where
  "base32_char c \<longleftrightarrow> 65 \<le> (of_char c :: nat) \<and> (of_char c :: nat) \<le> 90
     \<or> 50 \<le> (of_char c :: nat) \<and> (of_char c :: nat) \<le> 55"

lemma base32_char_graphic: "base32_char c \<Longrightarrow> graphic c \<and> ascii_upper c = c"
  by (auto simp: base32_char_def graphic_def ascii_upper_def)

definition base32_symbol :: "nat \<Rightarrow> char" where
  "base32_symbol v = char_of (if v < 26 then 65 + v else 24 + v)"

definition base32_value :: "char \<Rightarrow> nat" where
  "base32_value c = (if 65 \<le> (of_char c :: nat) then of_char c - 65 else of_char c - 24)"

fun chunks :: "nat \<Rightarrow> 'a list \<Rightarrow> 'a list list" where
  "chunks n [] = []"
| "chunks n (x # xs) = (x # take n xs) # chunks n (drop n xs)"

definition bits_of :: "nat \<Rightarrow> 'a::semiring_bits \<Rightarrow> bool list" where
  "bits_of n a = rev (map (bit a) [0..<n])"

definition bits_value :: "bool list \<Rightarrow> 'a::semiring_bit_operations" where
  "bits_value bs = horner_sum of_bool 2 (rev bs)"

definition sample_base32_encode :: "u8 list \<Rightarrow> string" where
  "sample_base32_encode bs =
     (let bits = concat (map (bits_of 8) bs);
          padded = bits @ replicate ((5 - length bits mod 5) mod 5) False
      in map (\<lambda>c. base32_symbol (bits_value c)) (chunks 4 padded))"

definition sample_base32_decode :: "bool \<Rightarrow> string \<Rightarrow> u8 list option" where
  "sample_base32_decode padding s =
     (let t = (if padding then filter (\<lambda>c. c \<noteq> CHR ''='') s else s);
          bits = concat (map (\<lambda>c. bits_of 5 (base32_value c)) t)
      in if list_all base32_char t
         then Some (map bits_value (chunks 7 (take (8 * (length bits div 8)) bits))) else None)"

lemma length_bits_of [simp]: "length (bits_of n a) = n"
  by (simp add: bits_of_def)

lemma bits_value_bits_of_u8 [simp]: "bits_value (bits_of 8 w) = (w :: u8)"
  by (simp add: bits_value_def bits_of_def horner_sum_bit_eq_take_bit take_bit_word_eq_self)

lemma bits_of_bits_value: "length bs = n \<Longrightarrow> bits_of n (bits_value bs :: nat) = bs"
  by (rule nth_equalityI)
    (auto simp: bits_of_def bits_value_def bit_horner_sum_bit_iff rev_nth)

lemma bits_value_bound: "length bs = n \<Longrightarrow> (bits_value bs :: nat) < 2 ^ n"
  using horner_sum_of_bool_2_less [of "rev bs"] by (simp add: bits_value_def)

lemma base32_value_symbol: "v < 32 \<Longrightarrow> base32_value (base32_symbol v) = v \<and> base32_char (base32_symbol v)"
  by (auto simp: base32_value_def base32_symbol_def base32_char_def)

lemma concat_chunks: "concat (chunks n xs) = xs"
  by (induction n xs rule: chunks.induct) simp_all

lemma length_chunks: "length xs = k * Suc n \<Longrightarrow> c \<in> set (chunks n xs) \<Longrightarrow> length c = Suc n"
proof (induction k arbitrary: xs)
  case (Suc k)
  then obtain y ys where xs: "xs = y # ys" and len: "length ys = n + k * Suc n"
    by (cases xs) auto
  then have "length (drop n ys) = k * Suc n"
    by simp
  then have "c \<in> set (chunks n (drop n ys)) \<Longrightarrow> length c = Suc n"
    by (rule Suc.IH)
  with Suc.prems(2) xs len show ?case
    by auto
qed simp

lemma length_chunk_le: "c \<in> set (chunks n xs) \<Longrightarrow> length c \<le> Suc n"
  by (induction n xs rule: chunks.induct) auto

lemma chunks_concat: "\<forall>c \<in> set cs. length c = Suc n \<Longrightarrow> chunks n (concat cs) = cs"
proof (induction cs)
  case (Cons c cs)
  then obtain x xs where "c = x # xs" "length xs = n"
    by (cases c) auto
  with Cons show ?case
    by simp
qed simp

lemma sample_base32_roundtrip: "sample_base32_decode False (sample_base32_encode bs) = Some bs"
proof -
  let ?bits = "concat (map (bits_of 8) bs)"
  let ?pad = "(5 - length ?bits mod 5) mod 5"
  let ?p = "?bits @ replicate ?pad False"
  let ?cs = "chunks 4 ?p"
  have len: "length ?bits = 8 * length bs"
    by (simp add: length_concat o_def sum_list_triv)
  have "5 dvd n + (5 - n mod 5) mod 5" for n :: nat
  proof -
    have "n mod 5 < 5"
      by simp
    then consider "n mod 5 = 0" | "n mod 5 = 1" | "n mod 5 = 2" | "n mod 5 = 3" | "n mod 5 = 4"
      by linarith
    then show ?thesis
      by cases (simp_all, presburger+)
  qed
  then have "5 dvd length ?p"
    by simp
  then obtain k where "length ?p = 5 * k"
    by (rule dvdE)
  then have mod5: "length ?p = k * Suc 4"
    by simp
  have v: "bits_of 5 (base32_value (base32_symbol (bits_value c))) = c
      \<and> base32_char (base32_symbol (bits_value c))" if "c \<in> set ?cs" for c
    using length_chunks [OF mod5 that] bits_value_bound [of c 5] base32_value_symbol [of "bits_value c"]
    by (simp add: bits_of_bits_value)
  then have "map (\<lambda>c. bits_of 5 (base32_value c)) (sample_base32_encode bs) = map (\<lambda>c. c) ?cs"
    unfolding sample_base32_encode_def Let_def map_map o_def by (intro map_cong) simp_all
  then have dec: "concat (map (\<lambda>c. bits_of 5 (base32_value c)) (sample_base32_encode bs)) = ?p"
    by (simp only: map_ident concat_chunks)
  have all: "list_all base32_char (sample_base32_encode bs)"
    using v by (simp add: sample_base32_encode_def Let_def list_all_iff)
  have "length ?p div 8 = length bs"
    using len mod_less_divisor [of 5 "5 - length ?bits mod 5"] by (simp add: div_mult_self1 add.commute)
  then have "take (8 * (length ?p div 8)) ?p = ?bits"
    by (simp add: len)
  with all dec show ?thesis
    using chunks_concat [of "map (bits_of 8) bs" 7]
    by (simp add: sample_base32_decode_def Let_def o_def)
qed

lemma sample_base32_chars: "list_all base32_char (sample_base32_encode bs)"
proof -
  have "bits_value c < (32 :: nat)" if "c \<in> set (chunks 4 p)" for c p
    using bits_value_bound [of c "length c"] length_chunk_le [OF that]
      power_increasing [of "length c" 5 "2 :: nat"] by simp
  then show ?thesis
    using base32_value_symbol by (auto simp: sample_base32_encode_def Let_def list_all_iff)
qed

lemma sample_base32_not_Nil: "bs \<noteq> [] \<Longrightarrow> sample_base32_encode bs \<noteq> []"
  using sample_base32_roundtrip [of bs] sample_base32_roundtrip [of "[]"] 
  by (auto simp: sample_base32_encode_def)

end
