(* ===== verification/Str_Debug.thy ===== *)
theory Str_Debug
  imports AuthKit_Prelude
begin

text \<open>
  What \<open>fmt::Debug\<close> of the standard library writes for a \<open>str\<close>, which the \<open>Debug\<close> implementations of
  \<open>src/totp.rs\<close> and \<open>src/webauthn.rs\<close> use for their fields.
\<close>

definition hex_lower :: "nat \<Rightarrow> char" where
  "hex_lower n = (if n < 10 then digit_char n else char_of (87 + n))"

text \<open>
  \<open>Debug\<close> of a \<open>str\<close>: ASCII as documented for \<open>char::escape_debug\<close> (without the single quote, which
  a string does not escape); which of the other code points are printable is Unicode's table, the
  argument \<open>esc\<close> from the bytes of a code point to what is written for it.
\<close>

fun show_hex :: "nat \<Rightarrow> string" where
  "show_hex n = (if n < 16 then [hex_lower n] else show_hex (n div 16) @ [hex_lower (n mod 16)])"

declare show_hex.simps [simp del]

definition escape_debug_ascii :: "char \<Rightarrow> string" where
  "escape_debug_ascii c = (let n = of_char c :: nat in
     if n = 0 then [CHR 0x5C, CHR ''0'']
     else if n = 0x09 then [CHR 0x5C, CHR ''t'']
     else if n = 0x0D then [CHR 0x5C, CHR ''r'']
     else if n = 0x0A then [CHR 0x5C, CHR ''n'']
     else if c = CHR 0x22 \<or> c = CHR 0x5C then [CHR 0x5C, c]
     else if n < 0x20 \<or> n = 0x7F then CHR 0x5C # ''u{'' @ show_hex n @ ''}''
     else [c])"

fun escape_debug :: "(string \<Rightarrow> string) \<Rightarrow> string \<Rightarrow> string" where
  "escape_debug esc [] = []"
| "escape_debug esc (c # cs) =
     (if (of_char c :: nat) < 0x80 then escape_debug_ascii c @ escape_debug esc cs
      else esc (c # take (utf8_tail c) cs) @ escape_debug esc (drop (utf8_tail c) cs))"

definition str_debug :: "(string \<Rightarrow> string) \<Rightarrow> string \<Rightarrow> string" where
  "str_debug esc s = CHR 0x22 # escape_debug esc s @ [CHR 0x22]"

text \<open>Printable ASCII without quotes and backslashes is written as it is.\<close>

lemma escape_debug_plain:
  "list_all (\<lambda>c. graphic c \<and> c \<noteq> CHR 0x22 \<and> c \<noteq> CHR 0x5C) s \<Longrightarrow> escape_debug esc s = s"
  by (induction s) (auto simp: graphic_def escape_debug_ascii_def Let_def)

text \<open>One line of output: nothing below the space, and no DEL.\<close>

definition one_line :: "string \<Rightarrow> bool" where
  "one_line s \<longleftrightarrow> list_all (\<lambda>c. 0x20 \<le> (of_char c :: nat) \<and> (of_char c :: nat) \<noteq> 0x7F) s"

lemma one_line_simps [simp]:
  "one_line []" "one_line (s @ t) \<longleftrightarrow> one_line s \<and> one_line t"
  "one_line (c # s) \<longleftrightarrow> 0x20 \<le> (of_char c :: nat) \<and> (of_char c :: nat) \<noteq> 0x7F \<and> one_line s"
  by (simp_all add: one_line_def)

lemma one_line_hex: "one_line (show_hex n)"
proof (induction n rule: show_hex.induct)
  case (1 n)
  have digit: "one_line [hex_lower k]" if "k < 16" for k
    using that of_char_digit_char [of k] by (simp add: hex_lower_def)
  show ?case
    using 1 digit [of n] digit [of "n mod 16"] by (simp add: show_hex.simps [of n])
qed

lemma one_line_escape: "(\<And>t. one_line (esc t)) \<Longrightarrow> one_line (escape_debug esc s)"
proof (induction esc s rule: escape_debug.induct)
  case (2 esc c cs)
  then show ?case
    using one_line_hex [of "of_char c"] by (auto simp: escape_debug_ascii_def Let_def)
qed simp

lemma one_line_intercalate: "one_line sep \<Longrightarrow> list_all one_line ps \<Longrightarrow> one_line (intercalate sep ps)"
  by (induction sep ps rule: intercalate.induct) simp_all

end
