(* ===== verification/Totp.thy ===== *)
theory Totp
  imports Base32_Sample Str_Debug
begin

text \<open>
  \<open>src/totp.rs\<close>: HOTP (RFC 4226) and TOTP (RFC 6238) codes, their verification over a window of
  steps, secrets and their Base32 form, the enrollment URI.

  The crates the file calls are fields of \<open>totp_crates\<close>: the HMAC of \<open>hmac\<close> with \<open>sha1\<close> and
  \<open>sha2\<close>, the encoder and decoder of \<open>base32\<close> (its flag is \<open>padding\<close>) and the unpadded
  encoder of \<open>base64\<close>. Integers have their Rust widths; a division by zero, an index out of
  range and, in a debug build, an overflow or a failed \<open>debug_assert!\<close> are panics (the flag
  \<open>debug\<close> says which build it is).
\<close>

unbundle bit_operations_syntax

section \<open>Data\<close>

datatype totp_algorithm = Sha1 | Sha256 | Sha512

instantiation totp_algorithm :: enum
begin

definition enum_totp_algorithm :: "totp_algorithm list" where
  "enum_totp_algorithm = [Sha1, Sha256, Sha512]"

definition enum_all_totp_algorithm :: "(totp_algorithm \<Rightarrow> bool) \<Rightarrow> bool" where
  "enum_all_totp_algorithm P \<longleftrightarrow> P Sha1 \<and> P Sha256 \<and> P Sha512"

definition enum_ex_totp_algorithm :: "(totp_algorithm \<Rightarrow> bool) \<Rightarrow> bool" where
  "enum_ex_totp_algorithm P \<longleftrightarrow> P Sha1 \<or> P Sha256 \<or> P Sha512"

instance
proof
  fix P :: "totp_algorithm \<Rightarrow> bool"
  show univ: "(UNIV :: totp_algorithm set) = set enum_class.enum"
    by (auto simp: enum_totp_algorithm_def intro: totp_algorithm.exhaust)
  show "distinct (enum_class.enum :: totp_algorithm list)"
    by (simp add: enum_totp_algorithm_def)
  show "enum_class.enum_all P \<longleftrightarrow> Ball UNIV P"
    unfolding univ enum_totp_algorithm_def enum_all_totp_algorithm_def by simp
  show "enum_class.enum_ex P \<longleftrightarrow> Bex UNIV P"
    unfolding univ enum_totp_algorithm_def enum_ex_totp_algorithm_def by simp
qed

end

definition DEFAULT_DIGITS :: u32 where
  "DEFAULT_DIGITS = 6"

definition DEFAULT_PERIOD :: u64 where
  "DEFAULT_PERIOD = 30"

definition DEFAULT_ALGORITHM :: totp_algorithm where
  "DEFAULT_ALGORITHM = Sha1"

definition DEFAULT_WINDOW :: u32 where
  "DEFAULT_WINDOW = 1"

fun algorithm_as_str :: "totp_algorithm \<Rightarrow> string" where
  "algorithm_as_str Sha1 = ''SHA1''"
| "algorithm_as_str Sha256 = ''SHA256''"
| "algorithm_as_str Sha512 = ''SHA512''"

definition algorithm_display :: "totp_algorithm \<Rightarrow> string" where
  "algorithm_display a = algorithm_as_str a"

fun output_len :: "totp_algorithm \<Rightarrow> nat" where
  "output_len Sha1 = 20"
| "output_len Sha256 = 32"
| "output_len Sha512 = 64"

datatype totp_error =
    InvalidSecret string
  | InvalidCode

fun totp_error_display :: "totp_error \<Rightarrow> string" where
  "totp_error_display (InvalidSecret m) = ''invalid secret: '' @ m"
| "totp_error_display InvalidCode = ''invalid code''"

text \<open>
  \<open>From<TotpError>\<close> for the error of the session store. The variant it builds, \<open>Other\<close>, is not
  one the store's error type has, so the constructor is an argument.
\<close>

definition store_error_of_totp_error :: "(string \<Rightarrow> 'e) \<Rightarrow> totp_error \<Rightarrow> 'e" where
  "store_error_of_totp_error Other e = Other (''totp: '' @ totp_error_display e)"

text \<open>A secret is an array of 20 bytes; \<open>secret_ok\<close> is the type \<open>[u8; 20]\<close>.\<close>

record totp_secret =
  secret_bytes :: "u8 list"

definition secret_ok :: "totp_secret \<Rightarrow> bool" where
  "secret_ok s \<longleftrightarrow> length (secret_bytes s) = 20"

record totp_crates =
  hmac :: "totp_algorithm \<Rightarrow> u8 list \<Rightarrow> u8 list \<Rightarrow> u8 list"
  base32_encode :: "u8 list \<Rightarrow> string"
  base32_decode :: "bool \<Rightarrow> string \<Rightarrow> u8 list option"
  base64_encode :: "u8 list \<Rightarrow> string"
  width_max :: "nat option"

text \<open>
  What the crates document. A MAC has the output length of its hash; Base32 writes upper case
  letters and the digits 2 to 7, and decoding what was encoded gives it back. \<open>width_max\<close> is the
  largest width the formatting macros take: releases of the standard library from 1.87 on panic
  beyond \<open>u16::MAX\<close>, earlier ones have no limit.
\<close>

definition mac_ok :: "totp_crates \<Rightarrow> bool" where
  "mac_ok x \<longleftrightarrow> (\<forall>a k m. length (hmac x a k m) = output_len a)
     \<and> (width_max x = None \<or> width_max x = Some 65535)"

definition base32_ok :: "totp_crates \<Rightarrow> bool" where
  "base32_ok x \<longleftrightarrow> (\<forall>b. base32_decode x False (base32_encode x b) = Some b)
     \<and> (\<forall>b. list_all base32_char (base32_encode x b)) \<and> (\<forall>b. b \<noteq> [] \<longrightarrow> base32_encode x b \<noteq> [])"

section \<open>HOTP\<close>

text \<open>\<open>format!("{:0>width$}", ..)\<close>: the text padded on the left with zeros.\<close>

definition format_zero_padded :: "totp_crates \<Rightarrow> nat \<Rightarrow> string \<Rightarrow> string outcome" where
  "format_zero_padded x width s =
     (case width_max x of
        Some m \<Rightarrow> if m < width then Panic else Ret (pad_left CHR ''0'' width s)
      | None \<Rightarrow> Ret (pad_left CHR ''0'' width s))"

definition hotp ::
  "totp_crates \<Rightarrow> bool \<Rightarrow> u8 list \<Rightarrow> u64 \<Rightarrow> u32 \<Rightarrow> totp_algorithm \<Rightarrow> string outcome" where
  "hotp x debug secret counter digits algorithm =
     (let digest = hmac x algorithm secret (to_be_bytes 8 counter);
          digest_len = output_len algorithm
      in if debug \<and> length digest \<noteq> digest_len then Panic
      else and_then (index_at digest (digest_len - 1)) (\<lambda>last_byte.
        let offset = unat (last_byte AND 0x0f)
        in and_then (index_at digest offset) (\<lambda>b0.
           and_then (index_at digest (offset + 1)) (\<lambda>b1.
           and_then (index_at digest (offset + 2)) (\<lambda>b2.
           and_then (index_at digest (offset + 3)) (\<lambda>b3.
             let bin_code = from_be_bytes [b0 AND 0x7f, b1, b2, b3] :: u32
             in and_then (u32_pow debug 10 (min (unat digits) 10)) (\<lambda>modulus.
                if modulus = 0 then Panic
                else format_zero_padded x (unat digits) (show_nat (unat (bin_code mod modulus))))))))))"

section \<open>Constant-time comparison\<close>

definition constant_time_eq :: "u8 list \<Rightarrow> u8 list \<Rightarrow> bool" where
  "constant_time_eq a b =
     (if length a \<noteq> length b then False
      else foldl (\<lambda>acc (x, y). acc OR (x XOR y)) 0 (zip a b) = (0 :: u8))"

section \<open>Secrets and codes\<close>

definition secret_generate :: "(u8 list \<Rightarrow> u8 list) \<Rightarrow> totp_secret" where
  "secret_generate fill_bytes = \<lparr>secret_bytes = fill_bytes (replicate 20 0)\<rparr>"

definition secret_from_bytes :: "u8 list \<Rightarrow> totp_secret" where
  "secret_from_bytes b = \<lparr>secret_bytes = b\<rparr>"

definition to_base32 :: "totp_crates \<Rightarrow> totp_secret \<Rightarrow> string" where
  "to_base32 x s = base32_encode x (secret_bytes s)"

definition from_base32 ::
  "totp_crates \<Rightarrow> (string \<Rightarrow> string) \<Rightarrow> string \<Rightarrow> totp_error + totp_secret" where
  "from_base32 x up s =
     (let normalized = filter (\<lambda>c. c \<noteq> CHR '' '') (to_uppercase up (trim s))
      in if normalized = [] then Inl (InvalidSecret ''empty base32 secret'')
      else case or_else (base32_decode x False normalized) (base32_decode x True normalized) of
          None \<Rightarrow> Inl (InvalidSecret ''invalid base32 encoding'')
        | Some b \<Rightarrow>
            if length b \<noteq> 20 then Inl (InvalidSecret ''secret must be 160 bits'')
            else Inr \<lparr>secret_bytes = b\<rparr>)"

definition to_base64 :: "totp_crates \<Rightarrow> totp_secret \<Rightarrow> string" where
  "to_base64 x s = base64_encode x (secret_bytes s)"

definition secret_as_bytes :: "totp_secret \<Rightarrow> u8 list" where
  "secret_as_bytes s = secret_bytes s"

definition secret_at :: "totp_crates \<Rightarrow> bool \<Rightarrow> totp_secret \<Rightarrow> u64 \<Rightarrow> u64 \<Rightarrow> u32 \<Rightarrow> string outcome" where
  "secret_at x debug s unix_secs period digits =
     and_then (u64_div unix_secs period) (\<lambda>counter. hotp x debug (secret_bytes s) counter digits Sha1)"

text \<open>The loop of \<open>verify_with_window\<close>: a step outside \<open>u64\<close> is skipped, the first match returns.\<close>

fun verify_loop :: "(u64 \<Rightarrow> string outcome) \<Rightarrow> string \<Rightarrow> u64 \<Rightarrow> int list \<Rightarrow> bool outcome" where
  "verify_loop code candidate counter_now [] = Ret False"
| "verify_loop code candidate counter_now (delta # deltas) =
     (case checked_add_signed counter_now delta of
        None \<Rightarrow> verify_loop code candidate counter_now deltas
      | Some c \<Rightarrow> and_then (code c) (\<lambda>expected.
          if constant_time_eq (as_bytes expected) (as_bytes candidate) then Ret True
          else verify_loop code candidate counter_now deltas))"

definition verify_with_window ::
  "totp_crates \<Rightarrow> bool \<Rightarrow> totp_secret \<Rightarrow> string \<Rightarrow> u64 \<Rightarrow> u64 \<Rightarrow> u32 \<Rightarrow> bool outcome" where
  "verify_with_window x debug s candidate unix_secs period window =
     and_then (u64_div unix_secs period) (\<lambda>counter_now.
       verify_loop (\<lambda>c. hotp x debug (secret_bytes s) c DEFAULT_DIGITS Sha1) candidate counter_now
         [- uint window..uint window])"

definition verify :: "totp_crates \<Rightarrow> bool \<Rightarrow> totp_secret \<Rightarrow> string \<Rightarrow> u64 \<Rightarrow> u64 \<Rightarrow> bool outcome" where
  "verify x debug s candidate unix_secs period =
     verify_with_window x debug s candidate unix_secs period DEFAULT_WINDOW"

definition seconds_remaining :: "u64 \<Rightarrow> u64 \<Rightarrow> u64 outcome" where
  "seconds_remaining unix_secs period =
     and_then (u64_rem unix_secs period) (\<lambda>r. Ret (period - r))"

text \<open>\<open>now_unix_secs\<close>: the system clock as whole seconds since the epoch, 0 before it.\<close>

definition now_unix_secs :: "int \<Rightarrow> u64" where
  "now_unix_secs since_epoch = (if since_epoch < 0 then 0 else word_of_int since_epoch)"

text \<open>\<open>debug_struct\<close> with one field and \<open>finish_non_exhaustive\<close>; \<open>esc\<close> is Unicode's table, as in \<open>str_debug\<close>.\<close>

definition secret_debug :: "(string \<Rightarrow> string) \<Rightarrow> totp_crates \<Rightarrow> totp_secret \<Rightarrow> string" where
  "secret_debug esc x s = ''TotpSecret { base32: '' @ str_debug esc (to_base32 x s) @ '', .. }''"

section \<open>Enrollment\<close>

definition unreserved :: "u8 \<Rightarrow> bool" where
  "unreserved b \<longleftrightarrow> of_char CHR ''A'' \<le> b \<and> b \<le> of_char CHR ''Z''
     \<or> of_char CHR ''a'' \<le> b \<and> b \<le> of_char CHR ''z''
     \<or> of_char CHR ''0'' \<le> b \<and> b \<le> of_char CHR ''9''
     \<or> b = of_char CHR ''-'' \<or> b = of_char CHR ''_'' \<or> b = of_char CHR ''.'' \<or> b = of_char CHR ''~''"

definition hex_digit :: "nat \<Rightarrow> char" where
  "hex_digit n = (if n < 10 then digit_char n else char_of (55 + n))"

definition urlencode_byte :: "u8 \<Rightarrow> string" where
  "urlencode_byte b =
     (if unreserved b then [char_of (unat b)]
      else [CHR ''%'', hex_digit (unat b div 16), hex_digit (unat b mod 16)])"

definition urlencoding :: "string \<Rightarrow> string" where
  "urlencoding s = concat (map urlencode_byte (as_bytes s))"

definition enrollment_uri ::
  "totp_crates \<Rightarrow> totp_secret \<Rightarrow> string \<Rightarrow> string \<Rightarrow> u64 \<Rightarrow> u32 \<Rightarrow> string" where
  "enrollment_uri x secret account issuer period digits =
     ''otpauth://totp/'' @ urlencoding issuer @ '':'' @ urlencoding account
       @ ''?secret='' @ to_base32 x secret @ ''&issuer='' @ urlencoding issuer
       @ ''&period='' @ show_nat (unat period) @ ''&digits='' @ show_nat (unat digits)
       @ ''&algorithm=SHA1''"

section \<open>Lemmas\<close>

subsection \<open>Comparison\<close>

lemma foldl_or_xor_eq_0:
  "foldl (\<lambda>acc (x, y). acc OR (x XOR y)) a ps = (0 :: u8) \<longleftrightarrow> a = 0 \<and> (\<forall>(x, y) \<in> set ps. x = y)"
proof (induction ps arbitrary: a)
  case (Cons p ps)
  have "(v OR w = 0) = (v = 0 \<and> w = 0)" and "(v XOR w = 0) = (v = w)" for v w :: u8
    by (auto simp: bit_eq_iff bit_simps)
  with Cons show ?case
    by (auto split: prod.splits)
qed simp

lemma constant_time_eq_correct: "constant_time_eq a b \<longleftrightarrow> a = b"
  by (auto simp: constant_time_eq_def foldl_or_xor_eq_0 list_eq_iff_zip_eq)

subsection \<open>Dynamic truncation\<close>

text \<open>RFC 4226, section 5.3, on numbers: the 31 bits at the offset the last byte gives.\<close>

definition dynamic_truncation :: "u8 list \<Rightarrow> nat" where
  "dynamic_truncation digest =
     (let off = unat (last digest) mod 16
      in (unat (digest ! off) mod 128) * 2 ^ 24 + unat (digest ! (off + 1)) * 2 ^ 16
         + unat (digest ! (off + 2)) * 2 ^ 8 + unat (digest ! (off + 3)))"

lemma unat_and_0x0f: "unat (w AND 0x0f :: u8) = unat w mod 16"
proof -
  have "w AND 0x0f = take_bit 4 w"
    by (simp add: take_bit_eq_mask mask_eq_exp_minus_1)
  then show ?thesis
    by (simp add: take_bit_eq_mod unat_mod)
qed

lemma unat_and_0x7f: "unat (w AND 0x7f :: u8) = unat w mod 128"
proof -
  have "w AND 0x7f = take_bit 7 w"
    by (simp add: take_bit_eq_mask mask_eq_exp_minus_1)
  then show ?thesis
    by (simp add: take_bit_eq_mod unat_mod)
qed

lemma output_len_ge: "20 \<le> output_len a"
  by (cases a) simp_all

lemma dynamic_truncation_bound: "dynamic_truncation digest < 2 ^ 31"
proof -
  have u8: "unat (w :: u8) \<le> 255" for w
    using unsigned_less [of w, where ?'a = nat] by simp
  have "unat (digest ! i) mod 128 \<le> 127" for i
    using mod_less_divisor [of 128 "unat (digest ! i)"] by linarith
  from mult_le_mono1 [OF this [of "unat (last digest) mod 16"], of "2 ^ 24"]
    u8 [of "digest ! (unat (last digest) mod 16 + 1)"]
    u8 [of "digest ! (unat (last digest) mod 16 + 2)"]
    u8 [of "digest ! (unat (last digest) mod 16 + 3)"]
  show ?thesis
    by (simp add: dynamic_truncation_def Let_def)
qed

lemma format_zero_padded_small:
  "mac_ok x \<Longrightarrow> width \<le> 65535 \<Longrightarrow> format_zero_padded x width s = Ret (pad_left CHR ''0'' width s)"
  by (auto simp: mac_ok_def format_zero_padded_def)

lemma hotp_eq:
  assumes "mac_ok x"
  shows "hotp x debug k c d a =
    and_then (u32_pow debug 10 (min (unat d) 10)) (\<lambda>m. if m = 0 then Panic
      else format_zero_padded x (unat d)
        (show_nat (dynamic_truncation (hmac x a k (to_be_bytes 8 c)) mod unat m)))"
proof -
  let ?d = "hmac x a k (to_be_bytes 8 c)"
  let ?o = "unat (last ?d) mod 16"
  have len: "length ?d = output_len a"
    using assms by (simp add: mac_ok_def)
  then have ne: "?d \<noteq> []"
    using output_len_ge [of a] by auto
  then have last_d: "?d ! (output_len a - 1) = last ?d"
    unfolding len [symmetric] by (rule last_conv_nth [symmetric])
  have o: "?o + 3 < output_len a"
    using output_len_ge [of a] mod_less_divisor [of 16 "unat (last ?d)"] by linarith
  have at: "index_at ?d (?o + i) = Ret (?d ! (?o + i))" if "i \<le> 3" for i
    using o that by (simp add: index_at_def len)
  have last_at: "index_at ?d (output_len a - Suc 0) = Ret (last ?d)"
    using last_d output_len_ge [of a] by (simp add: index_at_def len)
  have bin: "unat (from_be_bytes [?d ! ?o AND 0x7f, ?d ! (?o + 1), ?d ! (?o + 2), ?d ! (?o + 3)] :: u32)
      = dynamic_truncation ?d"
  proof -
    have "be_value [?d ! ?o AND 0x7f, ?d ! (?o + 1), ?d ! (?o + 2), ?d ! (?o + 3)] = dynamic_truncation ?d"
      by (simp add: be_value_def dynamic_truncation_def Let_def unat_and_0x7f)
    then show ?thesis
      using dynamic_truncation_bound [of ?d]
      by (simp add: from_be_bytes_be_value unat_of_nat take_bit_nat_eq_self)
  qed
  have mod: "unat (w mod m) = unat w mod unat m" for w m :: u32
    by (rule unat_mod)
  show ?thesis
    using at [of 0] at [of 1] at [of 2] at [of 3] bin
    by (cases "u32_pow debug 10 (min (unat d) 10)")
      (simp_all add: hotp_def Let_def len last_at unat_and_0x0f mod)
qed

lemma u32_pow_10:
  "1 \<le> d \<Longrightarrow> d \<le> 9 \<Longrightarrow> u32_pow debug 10 (min d 10) = Ret (word_of_nat (10 ^ d))"
  "1 \<le> d \<Longrightarrow> d \<le> 9 \<Longrightarrow> unat (word_of_nat (10 ^ d) :: u32) = 10 ^ d"
proof -
  assume d: "1 \<le> d" "d \<le> 9"
  have "(10::nat) ^ d \<le> 10 ^ 9"
    by (rule power_increasing) (use d in simp_all)
  then have b: "(10::nat) ^ d < 2 ^ 32"
    by simp
  then show "u32_pow debug 10 (min d 10) = Ret (word_of_nat (10 ^ d))"
    using d by (simp add: u32_pow_def min_def)
  show "unat (word_of_nat (10 ^ d) :: u32) = 10 ^ d"
    using b by (simp only: unat_of_nat take_bit_nat_eq_self len_bit0 len_num1) simp
qed

text \<open>With one to nine digits a code exists in either build and has exactly that many digits.\<close>

lemma hotp_digits:
  assumes "mac_ok x" and "1 \<le> unat d" and "unat d \<le> 9"
  shows "\<exists>code. hotp x debug k c d a = Ret code \<and> length code = unat d \<and> list_all is_digit code
    \<and> decimal_value code = dynamic_truncation (hmac x a k (to_be_bytes 8 c)) mod 10 ^ unat d"
proof -
  let ?v = "dynamic_truncation (hmac x a k (to_be_bytes 8 c)) mod 10 ^ unat d"
  let ?code = "pad_left CHR ''0'' (unat d) (show_nat ?v)"
  note p = u32_pow_10 [OF assms(2,3)]
  have "hotp x debug k c d a = Ret ?code"
    using p(1) [of debug] p(2) assms(3)
    by (auto simp: hotp_eq [OF assms(1)] format_zero_padded_small [OF assms(1)])
  moreover have "length (show_nat ?v) \<le> unat d"
    using assms(2) by (intro length_show_nat_le) simp_all
  moreover have "list_all is_digit ?code"
    by (auto simp: list_all_iff is_digit_def [of "CHR ''0''"] dest!: set_pad_left show_nat_digits)
  ultimately show ?thesis
    by (intro exI [of _ ?code]) simp
qed

subsection \<open>Codes by counter\<close>

text \<open>
  Verification uses a code generator only through this interface: a code for every counter, of
  one fixed length. What the loop over the window decides is proved for any such generator.
\<close>

locale counter_code =
  fixes code :: "'m \<Rightarrow> u64 \<Rightarrow> string outcome"
    and usable :: "'m \<Rightarrow> bool"
    and width :: nat
  assumes code_returns: "usable m \<Longrightarrow> \<exists>s. code m c = Ret s \<and> length s = width"
begin

lemma verify_loop_iff:
  "usable m \<Longrightarrow> verify_loop (code m) cand now ds =
     Ret (\<exists>d \<in> set ds. \<exists>c. uint c = uint now + d \<and> code m c = Ret cand)"
proof (induction ds)
  case (Cons d ds)
  show ?case
  proof (cases "checked_add_signed now d")
    case None
    then have "\<nexists>c :: u64. uint c = uint now + d"
      using checked_add_signed_Some [of now d] by auto
    with None Cons show ?thesis
      by simp
  next
    case (Some c)
    obtain s where s: "code m c = Ret s"
      using code_returns [OF Cons.prems] by blast
    have "uint c' = uint now + d \<longleftrightarrow> c' = c" for c'
      using Some checked_add_signed_Some [of now d] by fastforce
    with Some Cons s show ?thesis
      by (auto simp: constant_time_eq_correct)
  qed
qed simp

lemma verify_loop_length:
  assumes "usable m" and "length cand \<noteq> width"
  shows "verify_loop (code m) cand now ds = Ret False"
proof -
  have "code m c \<noteq> Ret cand" for c
    using code_returns [OF assms(1), of c] assms(2) by auto
  then show ?thesis
    by (simp add: verify_loop_iff [OF assms(1)])
qed

end

interpretation hotp6: counter_code
  "\<lambda>(x, debug, k) c. hotp x debug k c DEFAULT_DIGITS Sha1" "\<lambda>(x, debug, k). mac_ok x" 6
proof
  fix m :: "totp_crates \<times> bool \<times> u8 list" and c
  assume ok: "case m of (x, debug, k) \<Rightarrow> mac_ok x"
  obtain x debug k where m: "m = (x, debug, k)"
    by (cases m) auto
  from hotp_digits [of x DEFAULT_DIGITS debug k c Sha1] ok
  show "\<exists>s. (case m of (x, debug, k) \<Rightarrow> \<lambda>c. hotp x debug k c DEFAULT_DIGITS Sha1) c = Ret s \<and> length s = 6"
    by (auto simp: m DEFAULT_DIGITS_def)
qed

lemma u64_div_eq: "p \<noteq> 0 \<Longrightarrow> u64_div t p = Ret (t div p)"
  by (simp add: u64_div_def)

lemma verify_with_window_eq:
  assumes "mac_ok x" and "period \<noteq> 0"
  shows "verify_with_window x debug s cand t period w =
    Ret (\<exists>c. \<bar>uint c - uint (t div period)\<bar> \<le> uint w
      \<and> hotp x debug (secret_bytes s) c DEFAULT_DIGITS Sha1 = Ret cand)"
proof -
  have "verify_with_window x debug s cand t period w =
      Ret (\<exists>d \<in> set [- uint w..uint w]. \<exists>c. uint c = uint (t div period) + d
        \<and> hotp x debug (secret_bytes s) c DEFAULT_DIGITS Sha1 = Ret cand)"
    using hotp6.verify_loop_iff [of "(x, debug, secret_bytes s)"] assms
    by (simp add: verify_with_window_def u64_div_eq)
  also have "(\<exists>d \<in> set [- uint w..uint w]. \<exists>c. uint c = uint (t div period) + d
        \<and> hotp x debug (secret_bytes s) c DEFAULT_DIGITS Sha1 = Ret cand) \<longleftrightarrow>
      (\<exists>c. \<bar>uint c - uint (t div period)\<bar> \<le> uint w
        \<and> hotp x debug (secret_bytes s) c DEFAULT_DIGITS Sha1 = Ret cand)" (is "?l \<longleftrightarrow> ?r")
  proof
    assume ?r
    then obtain c where "\<bar>uint c - uint (t div period)\<bar> \<le> uint w"
      and "hotp x debug (secret_bytes s) c DEFAULT_DIGITS Sha1 = Ret cand"
      by blast
    then show ?l
      by (intro bexI [of _ "uint c - uint (t div period)"] exI [of _ c]) auto
  qed force
  finally show ?thesis .
qed

lemma verify_drift:
  assumes "mac_ok x" and "period \<noteq> 0" and "secret_at x debug s t' period 6 = Ret code"
    and "\<bar>uint (t' div period) - uint (t div period)\<bar> \<le> uint w"
  shows "verify_with_window x debug s code t period w = Ret True"
proof -
  have "hotp x debug (secret_bytes s) (t' div period) DEFAULT_DIGITS Sha1 = Ret code"
    using assms(2,3) by (simp add: secret_at_def u64_div_eq DEFAULT_DIGITS_def)
  then show ?thesis
    using assms by (auto simp: verify_with_window_eq)
qed

lemma verify_wrong_length:
  assumes "mac_ok x" and "period \<noteq> 0" and "length cand \<noteq> 6"
  shows "verify_with_window x debug s cand t period w = Ret False"
  using hotp6.verify_loop_length [of "(x, debug, secret_bytes s)" cand "t div period"] assms
  by (simp add: verify_with_window_def u64_div_eq)

subsection \<open>Percent-encoding\<close>

text \<open>The decoder for what \<open>urlencoding\<close> writes.\<close>

definition hex_value :: "char \<Rightarrow> nat" where
  "hex_value c = (if is_digit c then digit_value c else of_char c - 55)"

fun percent_decode :: "string \<Rightarrow> string" where
  "percent_decode [] = []"
| "percent_decode (c # cs) =
     (if c \<noteq> CHR ''%'' then c # percent_decode cs
      else case cs of
          h # l # r \<Rightarrow> char_of (16 * hex_value h + hex_value l) # percent_decode r
        | _ \<Rightarrow> [c])"

definition uri_char :: "char \<Rightarrow> bool" where
  "uri_char c \<longleftrightarrow> c = CHR ''%'' \<or> unreserved (of_char c)"

lemma unreserved_iff:
  "unreserved b \<longleftrightarrow> unat b \<in> {65..90} \<union> {97..122} \<union> {48..57} \<union> {45, 95, 46, 126}"
  by (auto simp: unreserved_def word_le_nat_alt word_unat_eq_iff)

lemma hex_digit_unreserved: "n < 16 \<Longrightarrow> unreserved (of_char (hex_digit n))"
  by (auto simp: unreserved_iff hex_digit_def of_char_digit_char)

lemma hex_value_hex_digit: "n < 16 \<Longrightarrow> hex_value (hex_digit n) = n"
  by (auto simp: hex_value_def hex_digit_def is_digit_def digit_value_def of_char_digit_char)

lemma u8_div_16: "unat (b :: u8) div 16 < 16"
  using unsigned_less [of b, where ?'a = nat] by (simp add: div_less_iff_less_mult)

lemma urlencode_byte_chars: "c \<in> set (urlencode_byte b) \<Longrightarrow> uri_char c"
  using hex_digit_unreserved [OF u8_div_16 [of b]] hex_digit_unreserved [of "unat b mod 16"]
    unsigned_less [of b, where ?'a = nat]
  by (auto simp: urlencode_byte_def uri_char_def unreserved_iff split: if_splits)

lemma urlencoding_chars: "c \<in> set (urlencoding s) \<Longrightarrow> uri_char c"
  by (auto simp: urlencoding_def urlencode_byte_chars)

lemma percent_decode_byte:
  "percent_decode (urlencode_byte b @ r) = char_of (unat b) # percent_decode r"
proof (cases "unreserved b")
  case True
  then have "char_of (unat b) \<noteq> CHR ''%''"
    using unsigned_less [of b, where ?'a = nat] by (auto simp: unreserved_iff char_of_eq_iff take_bit_eq_mod)
  with True show ?thesis
    by (simp add: urlencode_byte_def)
next
  case False
  then show ?thesis
    using hex_value_hex_digit [OF u8_div_16 [of b]] hex_value_hex_digit [of "unat b mod 16"]
    by (simp add: urlencode_byte_def)
qed

lemma percent_decode_urlencoding: "percent_decode (urlencoding s) = s"
proof (induction s)
  case (Cons c s)
  have "urlencoding (c # s) = urlencode_byte (of_char c) @ urlencoding s"
    by (simp add: urlencoding_def as_bytes_def)
  with Cons show ?case
    by (simp add: percent_decode_byte)
qed (simp add: urlencoding_def as_bytes_def)

subsection \<open>Base32 secrets\<close>

lemma base32_encode_graphic:
  "base32_ok x \<Longrightarrow> c \<in> set (base32_encode x b) \<Longrightarrow> base32_char c"
  by (auto simp: base32_ok_def list_all_iff)

definition ascii_lower :: "char \<Rightarrow> char" where
  "ascii_lower c = (if 65 \<le> (of_char c :: nat) \<and> (of_char c :: nat) \<le> 90
     then char_of ((of_char c :: nat) + 32) else c)"

lemma base32_char_lower:
  assumes "base32_char c"
  shows "graphic (ascii_lower c) \<and> ascii_upper (ascii_lower c) = c
    \<and> (of_char (ascii_lower c) :: nat) < 0x80"
  using assms by (auto simp: base32_char_def graphic_def ascii_upper_def ascii_lower_def)

lemma to_uppercase_lower:
  "list_all base32_char s \<Longrightarrow> to_uppercase up (map ascii_lower s) = s"
  by (induction s) (auto simp: base32_char_lower)

lemma base32_no_space: "list_all base32_char s \<Longrightarrow> filter (\<lambda>c. c \<noteq> CHR '' '') s = s"
  by (rule filter_True) (auto simp: list_all_iff base32_char_def)

lemma from_base32_normalized:
  assumes "base32_ok x" and "secret_ok s"
    and "filter (\<lambda>c. c \<noteq> CHR '' '') (to_uppercase up (trim t)) = to_base32 x s"
  shows "from_base32 x up t = Inr s"
proof -
  have "secret_bytes s \<noteq> []"
    using assms(2) by (auto simp: secret_ok_def)
  with assms show ?thesis
    by (simp add: from_base32_def base32_ok_def to_base32_def or_else_def secret_ok_def)
qed

text \<open>What \<open>from_base32\<close> does to an encoded text before it decodes it: nothing.\<close>

lemma base32_text:
  assumes "base32_ok x"
  shows "list_all base32_char (base32_encode x b)" "to_uppercase up (base32_encode x b) = base32_encode x b"
    "trim (base32_encode x b) = base32_encode x b"
    "trim (map ascii_lower (base32_encode x b)) = map ascii_lower (base32_encode x b)"
proof -
  show b32: "list_all base32_char (base32_encode x b)"
    using assms by (simp add: base32_ok_def)
  then show "to_uppercase up (base32_encode x b) = base32_encode x b"
    using base32_char_graphic by (intro to_uppercase_id) (auto simp: list_all_iff)
  show "trim (base32_encode x b) = base32_encode x b"
    "trim (map ascii_lower (base32_encode x b)) = map ascii_lower (base32_encode x b)"
    using b32 base32_char_graphic base32_char_lower
    by (auto simp: list_all_iff intro!: trim_graphic)
qed

lemma from_base32_text:
  assumes "base32_ok x" and "secret_ok s" and "to_uppercase up (trim t) = to_base32 x s"
  shows "from_base32 x up t = Inr s"
  using assms base32_text(1) [OF assms(1)]
  by (intro from_base32_normalized [OF assms(1,2)]) (simp add: base32_no_space to_base32_def)

section \<open>Properties\<close>

text \<open>
  The crates of the witnesses: the MAC is the constant digest of the worked example of RFC 4226,
  section 5.4 (repeated up to the output length), Base32 is the codec of \<open>Base32_Sample\<close>.
\<close>

definition sample_digest :: "u8 list" where
  "sample_digest = [0x1f, 0x86, 0x98, 0x69, 0x0e, 0x02, 0xca, 0x16, 0x61, 0x85,
     0x50, 0xef, 0x7f, 0x19, 0xda, 0x8e, 0x94, 0x5b, 0x55, 0x5a]"

definition sample_crates :: totp_crates where
  "sample_crates = \<lparr>hmac = (\<lambda>a k m. take (output_len a) (concat (replicate 4 sample_digest))),
     base32_encode = sample_base32_encode, base32_decode = sample_base32_decode,
     base64_encode = (\<lambda>b. []), width_max = Some 65535\<rparr>"

definition sample_secret :: totp_secret where
  "sample_secret = \<lparr>secret_bytes = replicate 20 0x42\<rparr>"

lemma sample_digest_length: "length sample_digest = 20"
  by (simp add: sample_digest_def)

lemma sample_crates_ok [simp]: "mac_ok sample_crates" "base32_ok sample_crates"
proof -
  have "output_len a \<le> 80" for a
    by (cases a) simp_all
  then show "mac_ok sample_crates"
    by (simp add: mac_ok_def sample_crates_def length_concat sum_list_replicate sample_digest_length)
  show "base32_ok sample_crates"
    using sample_base32_chars sample_base32_not_Nil
    by (simp add: base32_ok_def sample_crates_def sample_base32_roundtrip)
qed

lemma sample_secret_ok [simp]: "secret_ok sample_secret"
  by (simp add: secret_ok_def sample_secret_def)

lemma sample_truncation:
  "dynamic_truncation (hmac sample_crates Sha1 k m) = 1357872921"
proof -
  have "concat (replicate 4 sample_digest) = sample_digest @ concat (replicate 3 sample_digest)"
    by (simp add: numeral_eq_Suc)
  then have "hmac sample_crates Sha1 k m = sample_digest"
    by (simp add: sample_crates_def sample_digest_length)
  then show ?thesis
    by (simp add: sample_digest_def dynamic_truncation_def Let_def)
qed

text \<open>
  The comparison of codes is equality. The accumulating loop of \<open>constant_time_eq\<close>, which
  never returns early on a differing byte, decides exactly whether the two slices are equal.
\<close>

theorem constant_time_eq_iff: "constant_time_eq a b \<longleftrightarrow> a = b"
  by (rule constant_time_eq_correct)

text \<open>
  C14. HOTP computes RFC 4226 codes. For every key, counter and algorithm, a MAC of its documented
  length, and one to nine digits \<open>hotp\<close> returns, in debug and in release builds, a string of exactly that many decimal
  digits whose value is the dynamic truncation of the MAC modulo the power of ten.
\<close>

theorem hotp_correct:
  assumes "mac_ok x" and "1 \<le> unat digits" and "unat digits \<le> 9"
  shows "\<exists>code. hotp x debug k c digits a = Ret code \<and> length code = unat digits
    \<and> list_all is_digit code
    \<and> decimal_value code = dynamic_truncation (hmac x a k (to_be_bytes 8 c)) mod 10 ^ unat digits"
  using assms by (rule hotp_digits)

theorem hotp_correct_witness:
  "\<exists>code. hotp sample_crates True [1, 2, 3] 7 6 Sha1 = Ret code \<and> length code = 6
     \<and> decimal_value code = 872921"
  using hotp_correct [OF sample_crates_ok(1), of 6 True "[1, 2, 3]" 7 Sha1]
  by (auto simp: sample_truncation)

text \<open>
  C39. From ten digits on, the modulus does not fit in \<open>u32\<close>. A debug build panics in \<open>hotp\<close>;
  a release build wraps \<open>10^10\<close> to 1410065408 and returns codes reduced by that instead of a
  power of ten, padded with zeros to the requested width. Where the standard library limits
  widths to \<open>u16::MAX\<close>, more digits than that panic in a release build too.
\<close>

theorem hotp_ten_digits:
  assumes "mac_ok x" and "10 \<le> unat digits"
  shows "hotp x True k c digits a = Panic
    \<and> hotp x False k c digits a =
      (if width_max x \<noteq> None \<and> 65535 < unat digits then Panic
       else Ret (pad_left CHR ''0'' (unat digits)
         (show_nat (dynamic_truncation (hmac x a k (to_be_bytes 8 c)) mod 1410065408))))"
  using assms by (auto simp: hotp_eq u32_pow_def min_def format_zero_padded_def mac_ok_def)

theorem hotp_ten_digits_witness:
  "hotp sample_crates True [] 0 10 Sha1 = Panic
     \<and> hotp sample_crates False [] 0 10 Sha1 = Ret (pad_left CHR ''0'' 10 (show_nat 1357872921))"
  using hotp_ten_digits [OF sample_crates_ok(1), of 10 "[]" 0 Sha1] by (simp add: sample_truncation)

text \<open>
  C5. Verification accepts exactly the codes of the window. For a non-zero period,
  \<open>verify_with_window\<close> returns true exactly when the candidate is the six-digit code of some
  counter at most \<open>window\<close> steps from the current one; steps below 0 or beyond \<open>u64\<close> do not
  exist, and the function never panics.
\<close>

theorem verify_with_window_exact:
  assumes "mac_ok x" and "period \<noteq> 0"
  shows "verify_with_window x debug s cand t period w =
    Ret (\<exists>c. \<bar>uint c - uint (t div period)\<bar> \<le> uint w
      \<and> hotp x debug (secret_bytes s) c DEFAULT_DIGITS Sha1 = Ret cand)"
  using assms by (rule verify_with_window_eq)

theorem verify_with_window_exact_witness:
  "verify_with_window sample_crates True sample_secret ''872921'' 59 30 1 = Ret True"
proof -
  have "hotp sample_crates True k 1 DEFAULT_DIGITS Sha1 = Ret ''872921''" for k
    by (simp add: hotp_eq sample_truncation DEFAULT_DIGITS_def u32_pow_def format_zero_padded_small pad_left_def
        show_nat.simps digit_char_def char_of_eq_iff take_bit_eq_mod)
  then show ?thesis
    by (subst verify_with_window_exact) (auto intro!: exI [of _ 1])
qed

text \<open>
  Clock drift is tolerated. A six-digit code computed with \<open>at\<close> at one time verifies at any
  other time whose step differs by at most the window; in particular \<open>verify\<close> accepts it one
  period earlier or later.
\<close>

theorem verify_tolerates_drift:
  assumes "mac_ok x" and "period \<noteq> 0" and "secret_at x debug s t' period 6 = Ret code"
    and "\<bar>uint (t' div period) - uint (t div period)\<bar> \<le> uint w"
  shows "verify_with_window x debug s code t period w = Ret True
    \<and> (w = 1 \<longrightarrow> verify x debug s code t period = Ret True)"
  using verify_drift [OF assms] by (auto simp: verify_def DEFAULT_WINDOW_def)

theorem verify_tolerates_drift_witness:
  "\<exists>code. secret_at sample_crates True sample_secret 59 30 6 = Ret code
     \<and> verify sample_crates True sample_secret code 89 30 = Ret True"
proof -
  obtain code where "secret_at sample_crates True sample_secret 59 30 6 = Ret code"
    using hotp_digits [OF sample_crates_ok(1), of 6 True "secret_bytes sample_secret" 1 Sha1]
    by (auto simp: secret_at_def u64_div_eq)
  with verify_tolerates_drift [OF sample_crates_ok(1) _ this, of 89 1] show ?thesis
    by simp
qed

text \<open>
  Only six-digit codes ever verify. Whatever the window, a candidate of any other length is
  rejected, so a code produced with \<open>at(.., 8)\<close> does not verify at the very time it was made for.
\<close>

theorem verify_rejects_other_lengths:
  assumes "mac_ok x" and "period \<noteq> 0" and "length cand \<noteq> 6"
  shows "verify_with_window x debug s cand t period w = Ret False"
  using assms by (rule verify_wrong_length)

theorem verify_rejects_other_lengths_witness:
  "\<exists>code. secret_at sample_crates True sample_secret 59 30 8 = Ret code
     \<and> verify sample_crates True sample_secret code 59 30 = Ret False"
proof -
  obtain code where c: "secret_at sample_crates True sample_secret 59 30 8 = Ret code" "length code = 8"
    using hotp_digits [OF sample_crates_ok(1), of 8 True "secret_bytes sample_secret" 1 Sha1]
    by (auto simp: secret_at_def u64_div_eq)
  then have "verify_with_window sample_crates True sample_secret code 59 30 1 = Ret False"
    by (intro verify_rejects_other_lengths) simp_all
  with c show ?thesis
    by (simp add: verify_def DEFAULT_WINDOW_def)
qed

text \<open>
  The countdown is exact. For a non-zero period \<open>seconds_remaining\<close> is between 1 and the
  period and leads to the start of the next period; for a period of 0 it panics, as \<open>at\<close> and
  \<open>verify\<close> do.
\<close>

theorem seconds_remaining_exact:
  assumes "period \<noteq> 0"
  shows "(\<exists>r. seconds_remaining t period = Ret r \<and> 1 \<le> unat r \<and> unat r \<le> unat period
      \<and> unat t + unat r = (unat (t div period) + 1) * unat period)
    \<and> seconds_remaining t 0 = Panic \<and> secret_at x debug s t 0 digits = Panic
    \<and> verify x debug s cand t 0 = Panic"
proof -
  have p: "0 < unat period"
    using assms by (simp add: unat_gt_0)
  have m: "unat (t mod period) = unat t mod unat period" and d: "unat (t div period) = unat t div unat period"
    by (simp_all add: unat_mod unat_div)
  have lt: "unat t mod unat period < unat period"
    using p by simp
  then have r: "unat (period - t mod period) = unat period - unat t mod unat period"
    by (subst unat_sub) (simp_all add: word_le_nat_alt m)
  have "unat t = unat t div unat period * unat period + unat t mod unat period"
    by simp
  then have "unat t + unat (period - t mod period) = (unat (t div period) + 1) * unat period"
    using lt unfolding r d distrib_right mult_1 by linarith
  moreover have "1 \<le> unat (period - t mod period)" "unat (period - t mod period) \<le> unat period"
    unfolding r using lt by simp_all
  ultimately show ?thesis
    using assms
    by (simp add: seconds_remaining_def u64_rem_def secret_at_def verify_def verify_with_window_def
        u64_div_def)
qed

theorem seconds_remaining_exact_witness:
  "\<exists>r. seconds_remaining 45 30 = Ret r \<and> 45 + unat r = 60"
  using seconds_remaining_exact [of 30 45 sample_crates True sample_secret 6 "[]"] by auto

text \<open>
  C37. Base32 round trip. A secret of 160 bits written with \<open>to_base32\<close> is read back by
  \<open>from_base32\<close> as it is, in lower case, with a space in front, and with a space between any two of
  its characters.
\<close>

theorem base32_secret_roundtrip:
  assumes "base32_ok x" and "secret_ok s"
  shows "from_base32 x up (to_base32 x s) = Inr s
    \<and> from_base32 x up (map ascii_lower (to_base32 x s)) = Inr s
    \<and> from_base32 x up (CHR '' '' # to_base32 x s) = Inr s
    \<and> (to_base32 x s = a @ b \<longrightarrow> a \<noteq> [] \<longrightarrow> b \<noteq> [] \<longrightarrow> from_base32 x up (a @ CHR '' '' # b) = Inr s)"
proof -
  let ?t = "to_base32 x s"
  have b32: "list_all base32_char ?t"
    using assms(1) by (simp add: base32_ok_def to_base32_def)
  have "from_base32 x up (a @ CHR '' '' # b) = Inr s" if ab: "?t = a @ b" "a \<noteq> []" "b \<noteq> []"
  proof (rule from_base32_normalized [OF assms])
    have "list_all base32_char a" "list_all base32_char b"
      using b32 ab(1) by simp_all
    then have g: "list_all (\<lambda>c. graphic c \<and> ascii_upper c = c) a" "list_all (\<lambda>c. graphic c \<and> ascii_upper c = c) b"
      and ns: "filter (\<lambda>c. c \<noteq> CHR '' '') a = a" "filter (\<lambda>c. c \<noteq> CHR '' '') b = b"
      using base32_char_graphic base32_no_space by (auto simp: list_all_iff)
    have "trim (a @ CHR '' '' # b) = a @ CHR '' '' # b"
      using g ab(2,3) by (intro trim_id) (auto simp: list_all_iff)
    moreover have "to_uppercase up (a @ CHR '' '' # b) = a @ CHR '' '' # b"
      using g by (intro to_uppercase_ascii) (auto simp: list_all_iff graphic_def ascii_upper_def)
    ultimately show "filter (\<lambda>c. c \<noteq> CHR '' '') (to_uppercase up (trim (a @ CHR '' '' # b))) = ?t"
      using ns ab(1) by simp
  qed
  then show ?thesis
    using base32_text [OF assms(1)] b32
    by (auto intro!: from_base32_text [OF assms] simp: to_base32_def trim_space to_uppercase_lower)
qed

theorem base32_secret_roundtrip_witness:
  "from_base32 sample_crates id (to_base32 sample_crates sample_secret) = Inr sample_secret"
  using base32_secret_roundtrip [OF sample_crates_ok(2) sample_secret_ok] by blast

text \<open>
  Parsing a secret fails with the documented errors and with no other. Every secret that
  \<open>from_base32\<close> returns has 160 bits; blank input, undecodable input and input of another
  length give their own message, and \<open>InvalidCode\<close> never comes out of it.
\<close>

theorem from_base32_results:
  "case from_base32 x up t of
     Inr s \<Rightarrow> secret_ok s
   | Inl e \<Rightarrow> e \<noteq> InvalidCode \<and> totp_error_display e \<in>
       {''invalid secret: empty base32 secret'', ''invalid secret: invalid base32 encoding'',
        ''invalid secret: secret must be 160 bits''}
       \<and> (e = InvalidSecret ''empty base32 secret'' \<longleftrightarrow>
            filter (\<lambda>c. c \<noteq> CHR '' '') (to_uppercase up (trim t)) = [])"
  by (auto simp: from_base32_def Let_def secret_ok_def split: option.splits)

text \<open>
  Percent-encoding loses nothing and escapes everything else. Whatever the string, the
  encoded one consists of unreserved characters and \<open>%\<close>, decoding it gives the string back, and
  different strings have different encodings.
\<close>

theorem urlencoding_roundtrip:
  "percent_decode (urlencoding s) = s \<and> list_all uri_char (urlencoding s)
    \<and> (urlencoding s = urlencoding t \<longleftrightarrow> s = t)"
proof -
  have "urlencoding s = urlencoding t \<Longrightarrow> s = t"
    by (drule arg_cong [of _ _ percent_decode]) (simp only: percent_decode_urlencoding)
  then show ?thesis
    using percent_decode_urlencoding [of s] urlencoding_chars [of _ s] unfolding list_all_iff by blast
qed

text \<open>
  The \<open>Debug\<close> output of a secret reveals it. The string \<open>fmt::Debug\<close> writes contains the
  Base32 form of the secret in the clear, so two secrets that print alike are the same and
  anyone who reads a log line with it has the key.
\<close>

theorem secret_debug_reveals:
  assumes "base32_ok x" and "secret_ok s"
  shows "(secret_debug esc x s = secret_debug esc x s' \<longleftrightarrow> to_base32 x s = to_base32 x s')
    \<and> (\<exists>p q t. secret_debug esc x s = p @ t @ q \<and> from_base32 x up t = Inr s)"
proof -
  have b32: "list_all base32_char (to_base32 x r)" for r
    using assms(1) by (simp add: base32_ok_def to_base32_def)
  have d: "secret_debug esc x r = ''TotpSecret { base32: '' @ [CHR 0x22] @ to_base32 x r @ [CHR 0x22] @ '', .. }''" for r
  proof -
    have "list_all (\<lambda>c. graphic c \<and> c \<noteq> CHR 0x22 \<and> c \<noteq> CHR 0x5C) (to_base32 x r)"
      using b32 [of r] base32_char_graphic by (auto simp: list_all_iff base32_char_def)
    then show ?thesis
      by (simp add: secret_debug_def str_debug_def escape_debug_plain)
  qed
  have "to_uppercase up (trim (to_base32 x s)) = to_base32 x s"
    using b32 [of s] base32_char_graphic
    by (simp add: trim_graphic to_uppercase_id list_all_iff)
  then have "from_base32 x up (to_base32 x s) = Inr s"
    using b32 [of s] by (intro from_base32_normalized [OF assms]) (simp add: base32_no_space)
  then have "\<exists>p q t. secret_debug esc x s = p @ t @ q \<and> from_base32 x up t = Inr s"
    unfolding d by (intro exI [of _ "''TotpSecret { base32: '' @ [CHR 0x22]"]
        exI [of _ "[CHR 0x22] @ '', .. }''"] exI [of _ "to_base32 x s"]) simp
  moreover have "secret_debug esc x s = secret_debug esc x s' \<longleftrightarrow> to_base32 x s = to_base32 x s'"
    unfolding d by simp
  ultimately show ?thesis
    by blast
qed

theorem secret_debug_reveals_witness:
  "\<exists>p q t. secret_debug id sample_crates sample_secret = p @ t @ q
     \<and> from_base32 sample_crates id t = Inr sample_secret"
  using secret_debug_reveals [OF sample_crates_ok(2) sample_secret_ok] by blast

end
