(* ===== verification/Totp_Loop.thy ===== *)
theory Totp_Loop
  imports Totp
begin

text \<open>
  The loop of \<open>verify_with_window\<close> in \<open>src/totp.rs\<close> as the machine runs it: an iterator
  \<open>RangeInclusive<i64>\<close> that is asked for the next step until it has none, with a loop body that
  continues, returns or panics. The loop is a \<open>partial_function\<close>, so a run that does not end is the
  value \<open>None\<close>; it is shown to end for every window and to compute what the recursion over the list
  of steps in \<open>Totp\<close> computes.
\<close>

section \<open>The iterator\<close>

type_synonym i64 = "64 word"

record range_inclusive =
  range_start :: i64
  range_end :: i64
  exhausted :: bool

text \<open>
  \<open>next\<close> compares signed. On the last element it sets the flag and leaves \<open>start\<close> alone, so that a
  range that ends at the largest integer does not overflow.
\<close>

definition range_next :: "range_inclusive \<Rightarrow> (i64 \<times> range_inclusive) option" where
  "range_next r =
     (if exhausted r \<or> \<not> sint (range_start r) \<le> sint (range_end r) then None
      else if sint (range_start r) < sint (range_end r)
        then Some (range_start r, r\<lparr>range_start := range_start r + 1\<rparr>)
        else Some (range_start r, r\<lparr>exhausted := True\<rparr>))"

text \<open>\<open>-(window as i64)..=window as i64\<close>: the cast of a \<open>u32\<close> extends with zeros.\<close>

definition window_range :: "u32 \<Rightarrow> range_inclusive" where
  "window_range window =
     \<lparr>range_start = - ucast window, range_end = ucast window, exhausted = False\<rparr>"

section \<open>The loop\<close>

partial_function (option) window_loop ::
  "(u64 \<Rightarrow> string outcome) \<Rightarrow> string \<Rightarrow> u64 \<Rightarrow> range_inclusive \<Rightarrow> bool outcome option" where
  "window_loop code candidate counter_now r =
     (case range_next r of
        None \<Rightarrow> Some (Ret False)
      | Some (delta, r') \<Rightarrow>
        (case checked_add_signed counter_now (sint delta) of
           None \<Rightarrow> window_loop code candidate counter_now r'
         | Some c \<Rightarrow>
           (case code c of
              Panic \<Rightarrow> Some Panic
            | Ret expected \<Rightarrow>
              if constant_time_eq (as_bytes expected) (as_bytes candidate) then Some (Ret True)
              else window_loop code candidate counter_now r')))"

definition verify_with_window_loop ::
  "totp_crates \<Rightarrow> bool \<Rightarrow> totp_secret \<Rightarrow> string \<Rightarrow> u64 \<Rightarrow> u64 \<Rightarrow> u32 \<Rightarrow> bool outcome option" where
  "verify_with_window_loop x debug s candidate unix_secs period window =
     (case u64_div unix_secs period of
        Panic \<Rightarrow> Some Panic
      | Ret counter_now \<Rightarrow>
        window_loop (\<lambda>c. hotp x debug (secret_bytes s) c DEFAULT_DIGITS Sha1) candidate counter_now
          (window_range window))"

section \<open>The loop ends\<close>

lemma sint_add_one:
  assumes "sint (a :: i64) < sint (b :: i64)"
  shows "sint (a + 1) = sint a + 1"
proof -
  have "- (2 ^ 63) \<le> sint a" "sint b < 2 ^ 63"
    using sint_ge [of a] sint_lt [of b] by simp_all
  with assms have "- (2 ^ 63) \<le> sint a + 1" "sint a + 1 < 2 ^ 63"
    by simp_all
  then have "signed_take_bit 63 (sint a + 1) = sint a + 1"
    by (rule signed_take_bit_int_eq_self)
  then show ?thesis
    by (simp add: sint_word_ariths)
qed

lemma sint_window:
  "sint (ucast (w :: u32) :: i64) = uint w" "sint (- ucast (w :: u32) :: i64) = - uint w"
proof -
  have small: "signed_take_bit 63 u = u" "signed_take_bit 63 (- u) = - u" if "0 \<le> u" "u < 2 ^ 32" for u :: int
    using that by (simp_all add: signed_take_bit_int_eq_self)
  have "signed_take_bit 63 (uint w) = uint w" "signed_take_bit 63 (- uint w) = - uint w"
    using uint_lt2p [of w] by (intro small; simp)+
  moreover have w: "(ucast w :: i64) = word_of_int (uint w)"
    by (rule ucast_eq)
  moreover have "(- ucast w :: i64) = word_of_int (- uint w)"
    by (simp only: w wi_hom_neg)
  ultimately show "sint (ucast w :: i64) = uint w" "sint (- ucast w :: i64) = - uint w"
    by (simp_all only: sint_sbintrunc') simp_all
qed

lemma window_loop_exhausted:
  "exhausted r \<Longrightarrow> window_loop code cand now r = Some (Ret False)"
  by (subst window_loop.simps) (simp add: range_next_def)

lemma window_loop_eq:
  assumes "\<not> exhausted r"
  shows "window_loop code cand now r =
    Some (verify_loop code cand now [sint (range_start r)..sint (range_end r)])"
  using assms
proof (induction "nat (sint (range_end r) - sint (range_start r))" arbitrary: r rule: less_induct)
  case less
  let ?a = "sint (range_start r)" and ?b = "sint (range_end r)"
  consider "?b < ?a" | "?a = ?b" | "?a < ?b"
    by linarith
  then show ?case
  proof cases
    case 1
    then show ?thesis
      by (subst window_loop.simps) (simp add: range_next_def)
  next
    case 2
    then show ?thesis
      using less.prems
      by (subst window_loop.simps)
        (simp add: range_next_def window_loop_exhausted split: option.split outcome.split)
  next
    case 3
    let ?r = "r\<lparr>range_start := range_start r + 1\<rparr>"
    have "window_loop code cand now ?r = Some (verify_loop code cand now [?a + 1..?b])"
      using less.hyps [of ?r] less.prems 3 sint_add_one [OF 3] by simp
    then show ?thesis
      using less.prems 3
      by (subst window_loop.simps, subst upto_rec1)
        (simp_all add: range_next_def split: option.split outcome.split)
  qed
qed

section \<open>Property\<close>

text \<open>
  C35. Verification ends. For every secret, candidate, time, period and window, up to the largest
  \<open>u32\<close>, in debug and in release builds, the loop over \<open>-(window as i64)..=window as i64\<close> ends: the
  bounds do not overflow \<open>i64\<close>, the iterator gives each step once and then nothing, and the result
  is the one of the recursion over the list of steps.
\<close>

theorem verify_with_window_terminates:
  "verify_with_window_loop x debug s cand t period window =
     Some (verify_with_window x debug s cand t period window)"
  by (simp add: verify_with_window_loop_def verify_with_window_def window_loop_eq window_range_def
      sint_window split: outcome.split)

end
