(* ===== verification/Totp_Acceptance.thy ===== *)
theory Totp_Acceptance
  imports Totp
begin

text \<open>
  How many codes one call of \<open>verify_with_window\<close> in \<open>src/totp.rs\<close> accepts: the chance a guess has.
\<close>

section \<open>The accepted codes\<close>

definition accepted_codes :: "totp_crates \<Rightarrow> bool \<Rightarrow> totp_secret \<Rightarrow> u64 \<Rightarrow> u64 \<Rightarrow> u32 \<Rightarrow> string set" where
  "accepted_codes x debug s t period w =
     {cand. verify_with_window x debug s cand t period w = Ret True}"

definition six_digits :: "string set" where
  "six_digits = {cand. length cand = 6 \<and> list_all is_digit cand}"

text \<open>The counters a window of \<open>w\<close> steps around \<open>n\<close> holds.\<close>

definition window_counters :: "u64 \<Rightarrow> u32 \<Rightarrow> u64 set" where
  "window_counters n w = {c. \<bar>uint c - uint n\<bar> \<le> uint w}"

lemma card_window_counters: "finite (window_counters n w) \<and> card (window_counters n w) \<le> 2 * unat w + 1"
proof -
  let ?I = "{uint n - uint w..uint n + uint w}"
  have sub: "uint ` window_counters n w \<subseteq> ?I"
    by (auto simp: window_counters_def)
  have inj: "inj_on uint (window_counters n w)"
    by (rule inj_onI) (simp only: word_uint_eq_iff)
  have "finite (window_counters n w)"
    using finite_imageD [OF finite_subset [OF sub] inj] by simp
  moreover have "card (window_counters n w) \<le> card ?I"
    using card_inj_on_le [OF inj sub] by simp
  moreover have "card ?I = 2 * unat w + 1"
  proof -
    have "uint w = int (unat w)"
      by simp
    then show ?thesis
      by (simp only: card_atLeastAtMost_int)
  qed
  ultimately show ?thesis
    by simp
qed

lemma hotp6_code:
  "mac_ok x \<Longrightarrow> \<exists>code. hotp x debug k c DEFAULT_DIGITS a = Ret code \<and> code \<in> six_digits"
  using hotp_digits [of x DEFAULT_DIGITS debug k c a] by (auto simp: DEFAULT_DIGITS_def six_digits_def)

lemma accepted_codes_window:
  assumes "mac_ok x" and "period \<noteq> 0"
  obtains code where "accepted_codes x debug s t period w = code ` window_counters (t div period) w"
    and "\<And>c. code c \<in> six_digits"
proof -
  obtain code where h: "\<And>c. hotp x debug (secret_bytes s) c DEFAULT_DIGITS Sha1 = Ret (code c)"
    and six: "\<And>c. code c \<in> six_digits"
    using hotp6_code [OF assms(1), of debug "secret_bytes s" _ Sha1] by metis
  have "accepted_codes x debug s t period w = code ` window_counters (t div period) w"
    by (auto simp: accepted_codes_def verify_with_window_eq [OF assms] window_counters_def h)
  then show thesis
    using that six by blast
qed

lemma card_six_digits: "card six_digits = 10 ^ 6"
proof -
  have digits: "{c. is_digit c} = digit_char ` {..<10}"
  proof (intro equalityI subsetI)
    fix c
    assume "c \<in> {c. is_digit c}"
    then have "c = digit_char (of_char c - 48)" and "of_char c - (48::nat) < 10"
      by (auto simp: is_digit_def digit_char_def)
    then show "c \<in> digit_char ` {..<10}"
      by blast
  qed (auto simp: is_digit_digit_char)
  have "inj_on digit_char {..<10}"
    by (rule inj_onI) (metis add_left_cancel lessThan_iff of_char_digit_char)
  then have "card {c. is_digit c} = 10" and "finite {c. is_digit c}"
    unfolding digits by (simp_all add: card_image)
  then show ?thesis
    using card_lists_length_eq [of "{c. is_digit c}" 6]
    by (simp add: six_digits_def list_all_iff subset_eq conj_commute Ball_def)
qed

section \<open>Property\<close>

text \<open>
  C23. The acceptance bound. For a non-zero period one call accepts at least one and at most
  \<open>2 * window + 1\<close> of the 10^6 strings of six digits and no other string: with the default window
  of one step a guess is right for at most three of a million codes, whatever HMAC returns.
\<close>

theorem accepted_codes_bound:
  assumes "mac_ok x" and "period \<noteq> 0"
  shows "accepted_codes x debug s t period w \<subseteq> six_digits \<and> card six_digits = 10 ^ 6
    \<and> 1 \<le> card (accepted_codes x debug s t period w)
    \<and> card (accepted_codes x debug s t period w) \<le> 2 * unat w + 1"
proof -
  obtain code where code: "accepted_codes x debug s t period w = code ` window_counters (t div period) w"
      "\<And>c. code c \<in> six_digits"
    using accepted_codes_window [OF assms] by blast
  have fin: "finite (window_counters (t div period) w)"
    and le: "card (window_counters (t div period) w) \<le> 2 * unat w + 1"
    using card_window_counters [of "t div period" w] by simp_all
  have "t div period \<in> window_counters (t div period) w"
    by (simp add: window_counters_def)
  with fin have "1 \<le> card (accepted_codes x debug s t period w)"
    unfolding code by (metis One_nat_def Suc_leI card_gt_0_iff empty_iff finite_imageI imageI)
  moreover have "card (accepted_codes x debug s t period w) \<le> 2 * unat w + 1"
    unfolding code using card_image_le [OF fin, of code] le by linarith
  ultimately show ?thesis
    using code card_six_digits by auto
qed

theorem accepted_codes_bound_witness:
  "card (accepted_codes sample_crates True sample_secret 59 30 DEFAULT_WINDOW) \<le> 3"
  using accepted_codes_bound [OF sample_crates_ok(1), of 30 True sample_secret 59 DEFAULT_WINDOW]
  by (simp add: DEFAULT_WINDOW_def)

end
