(* ===== verification/Totp_Enrollment.thy ===== *)
theory Totp_Enrollment
  imports Totp Pkce_Middleware
begin

text \<open>
  Enrollment with \<open>enrollment_uri\<close> of \<open>src/totp.rs\<close> end to end: what an authenticator that scans
  the URI computes, against what \<open>verify\<close> accepts. The authenticator is the specification
  \<open>authenticator_code\<close>, written after the format of \<open>otpauth\<close> URIs and RFC 6238 and not after
  \<open>hotp\<close>.
\<close>

section \<open>The URI as a query\<close>

lemma uri_char_not_delimiter:
  "uri_char c \<Longrightarrow> c \<noteq> CHR ''&'' \<and> c \<noteq> CHR ''='' \<and> c \<noteq> CHR ''?'' \<and> c \<noteq> CHR '':''"
  by (auto simp: uri_char_def unreserved_iff)

lemma urlencoding_no_delimiter:
  "CHR ''&'' \<notin> set (urlencoding s)" "CHR ''?'' \<notin> set (urlencoding s)" "CHR '':'' \<notin> set (urlencoding s)"
  using urlencoding_chars uri_char_not_delimiter by blast+

lemma base32_no_ampersand: "base32_ok x \<Longrightarrow> CHR ''&'' \<notin> set (to_base32 x s)"
  using base32_encode_graphic [of x "CHR ''&''" "secret_bytes s"]
  by (auto simp: to_base32_def base32_char_def)

lemma show_nat_no_ampersand: "CHR ''&'' \<notin> set (show_nat n)"
  using show_nat_digits [of "CHR ''&''" n] by (auto simp: is_digit_def)

definition enrollment_label :: "string \<Rightarrow> string \<Rightarrow> string" where
  "enrollment_label account issuer = urlencoding issuer @ CHR '':'' # urlencoding account"

definition enrollment_params ::
  "totp_crates \<Rightarrow> totp_secret \<Rightarrow> string \<Rightarrow> u64 \<Rightarrow> u32 \<Rightarrow> (string \<times> string) list" where
  "enrollment_params x s issuer period digits =
     [(''secret'', to_base32 x s), (''issuer'', urlencoding issuer), (''period'', show_nat (unat period)),
      (''digits'', show_nat (unat digits)), (''algorithm'', ''SHA1'')]"

lemma enrollment_label_split:
  "split_once CHR '':'' (enrollment_label account issuer) = Some (urlencoding issuer, urlencoding account)"
  by (simp add: enrollment_label_def split_once_append urlencoding_no_delimiter)

lemma enrollment_uri_split:
  "split_once CHR ''?'' (enrollment_uri x s account issuer period digits) =
     Some (''otpauth://totp/'' @ enrollment_label account issuer,
       query_of (enrollment_params x s issuer period digits))"
proof -
  have uri: "enrollment_uri x s account issuer period digits =
      (''otpauth://totp/'' @ enrollment_label account issuer)
        @ CHR ''?'' # query_of (enrollment_params x s issuer period digits)"
    by (simp add: enrollment_uri_def enrollment_label_def enrollment_params_def query_of_def render_pair_def)
  show ?thesis
    unfolding uri by (rule split_once_append) (simp add: enrollment_label_def urlencoding_no_delimiter)
qed

lemma enrollment_params_found [simp]:
  assumes "base32_ok x"
  shows "query_param (query_of (enrollment_params x s issuer period digits)) name =
    map_of (enrollment_params x s issuer period digits) name"
  using base32_no_ampersand [OF assms]
  by (intro query_param_query_of)
    (simp add: enrollment_params_def query_pairs_ok_def urlencoding_no_delimiter show_nat_no_ampersand)

section \<open>An authenticator\<close>

text \<open>The code of RFC 6238 on numbers: the truncated MAC of the step, to so many decimal digits.\<close>

definition rfc6238_code ::
  "totp_crates \<Rightarrow> totp_algorithm \<Rightarrow> totp_secret \<Rightarrow> nat \<Rightarrow> nat \<Rightarrow> nat \<Rightarrow> string" where
  "rfc6238_code x a s t period digits =
     pad_left CHR ''0'' digits (show_nat
       (dynamic_truncation (hmac x a (secret_bytes s) (to_be_bytes 8 (word_of_nat (t div period) :: u64)))
          mod 10 ^ digits))"

definition algorithm_of_name :: "string \<Rightarrow> totp_algorithm option" where
  "algorithm_of_name n = find (\<lambda>a. algorithm_as_str a = n) enum_class.enum"

text \<open>
  What an authenticator shows at its own time \<open>t\<close> after scanning a URI: it reads secret,
  algorithm, period and digits from the query.
\<close>

definition authenticator_code ::
  "totp_crates \<Rightarrow> (string \<Rightarrow> string) \<Rightarrow> string \<Rightarrow> nat \<Rightarrow> string option" where
  "authenticator_code x up uri t =
     Option.bind (split_once CHR ''?'' uri) (\<lambda>(label, query).
     Option.bind (query_param query ''secret'') (\<lambda>secret.
     Option.bind (query_param query ''period'') (\<lambda>period.
     Option.bind (query_param query ''digits'') (\<lambda>digits.
     Option.bind (Option.bind (query_param query ''algorithm'') algorithm_of_name) (\<lambda>a.
       case from_base32 x up secret of
         Inl e \<Rightarrow> None
       | Inr s \<Rightarrow> Some (rfc6238_code x a s t (decimal_value period) (decimal_value digits)))))))"

lemma authenticator_code_enrollment:
  assumes "base32_ok x" and "secret_ok s"
  shows "authenticator_code x up (enrollment_uri x s account issuer period digits) t =
    Some (rfc6238_code x Sha1 s t (unat period) (unat digits))"
proof -
  have "from_base32 x up (to_base32 x s) = Inr s"
    using base32_text [OF assms(1)] by (intro from_base32_text [OF assms]) (simp add: to_base32_def)
  moreover have "algorithm_of_name ''SHA1'' = Some Sha1"
    by (simp add: algorithm_of_name_def enum_totp_algorithm_def)
  ultimately show ?thesis
    using enrollment_params_found [OF assms(1), of s issuer period digits]
    by (simp add: authenticator_code_def enrollment_uri_split enrollment_params_def)
qed

text \<open>
  A code has the digits asked for, and always at least one. An authenticator and \<open>hotp\<close> agree on
  codes of one to nine digits.
\<close>

lemma length_rfc6238_code: "length (rfc6238_code x a s t period digits) = max 1 digits"
proof -
  let ?n = "dynamic_truncation (hmac x a (secret_bytes s) (to_be_bytes 8 (word_of_nat (t div period) :: u64)))
    mod 10 ^ digits"
  have "?n < 10 ^ digits"
    by simp
  also have "(10 :: nat) ^ digits \<le> 10 ^ max 1 digits"
    by (rule power_increasing) simp_all
  finally have "length (show_nat ?n) \<le> max 1 digits"
    by (intro length_show_nat_le) simp_all
  moreover have "1 \<le> length (show_nat ?n)"
    by (simp add: Suc_le_eq)
  ultimately show ?thesis
    unfolding rfc6238_code_def length_pad_left by linarith
qed

lemma secret_at_rfc6238:
  assumes "mac_ok x" and "period \<noteq> 0" and "1 \<le> unat digits" and "unat digits \<le> 9"
  shows "secret_at x debug s t period digits =
    Ret (rfc6238_code x Sha1 s (unat t) (unat period) (unat digits))"
proof -
  have "(word_of_nat (unat t div unat period) :: u64) = t div period"
    by (simp flip: unat_div)
  then show ?thesis
    using u32_pow_10(1) [OF assms(3,4), of debug] u32_pow_10(2) [OF assms(3,4)] assms(4)
    by (simp add: secret_at_def u64_div_eq [OF assms(2)] hotp_eq [OF assms(1)]
        format_zero_padded_small [OF assms(1)] rfc6238_code_def) auto
qed

section \<open>Property\<close>

text \<open>
  C9. Enrollment works end to end for six digits and for no other number of them. Whatever the
  account and the issuer, and for every period but zero, an authenticator that scans the enrollment
  URI shows a code of the number of digits it was built with (one digit where that is zero). With
  six digits \<open>verify\<close> accepts that code while the two clocks are in the same period or in
  neighbouring ones; with any other number of digits, zero and ten or more included, it rejects
  every code the authenticator can ever show, although \<open>enrollment_uri\<close> writes such URIs without
  complaint.
\<close>

theorem enrollment_verifies:
  assumes "base32_ok x" and "mac_ok x" and "secret_ok s" and "period \<noteq> 0"
  shows "\<exists>code. authenticator_code x up (enrollment_uri x s account issuer period digits) (unat t') = Some code
    \<and> length code = max 1 (unat digits)
    \<and> (digits = 6 \<longrightarrow> \<bar>uint (t' div period) - uint (t div period)\<bar> \<le> 1 \<longrightarrow>
         verify x debug s code t period = Ret True)
    \<and> (digits \<noteq> 6 \<longrightarrow> verify x debug s code t period = Ret False)"
proof -
  let ?code = "rfc6238_code x Sha1 s (unat t') (unat period) (unat digits)"
  have len: "length ?code = max 1 (unat digits)"
    by (rule length_rfc6238_code)
  have "verify x debug s ?code t period = Ret False" if "digits \<noteq> 6"
  proof -
    from that have "unat digits \<noteq> 6"
      by (simp add: word_unat_eq_iff)
    with len have "length ?code \<noteq> 6"
      by linarith
    then show ?thesis
      by (simp add: verify_def verify_wrong_length [OF assms(2,4)])
  qed
  moreover have "verify x debug s ?code t period = Ret True"
    if six: "digits = 6" and near: "\<bar>uint (t' div period) - uint (t div period)\<bar> \<le> 1"
  proof -
    have "secret_at x debug s t' period 6 = Ret ?code"
      using secret_at_rfc6238 [OF assms(2,4), of 6 debug s t'] six by simp
    from verify_drift [OF assms(2,4) this] show ?thesis
      using near by (simp add: verify_def DEFAULT_WINDOW_def)
  qed
  ultimately show ?thesis
    using authenticator_code_enrollment [OF assms(1,3)] len by blast
qed

theorem enrollment_verifies_witness:
  "(\<exists>code. authenticator_code sample_crates id
        (enrollment_uri sample_crates sample_secret ''alice'' ''AuthKit'' 30 6) 59 = Some code
      \<and> verify sample_crates True sample_secret code 89 30 = Ret True)
    \<and> (\<exists>code. authenticator_code sample_crates id
        (enrollment_uri sample_crates sample_secret ''alice'' ''AuthKit'' 30 10) 59 = Some code
      \<and> length code = 10 \<and> verify sample_crates True sample_secret code 59 30 = Ret False)"
  using enrollment_verifies [OF sample_crates_ok(2,1) sample_secret_ok,
      of 30 id "''alice''" "''AuthKit''" 6 59 89 True]
    enrollment_verifies [OF sample_crates_ok(2,1) sample_secret_ok,
      of 30 id "''alice''" "''AuthKit''" 10 59 59 True]
  by auto

end
