(* ===== verification/Webauthn_Data.thy ===== *)
theory Webauthn_Data
  imports Session_Store
begin

text \<open>
  The data of \<open>src/webauthn.rs\<close>: errors, the flags byte and the fixed part of authenticator
  data with their codecs, client data, credentials, configuration. An error of \<open>serde_json\<close> or
  \<open>base64\<close> carries that crate's own error value, of a type \<open>'e\<close> the model leaves open.
\<close>

unbundle bit_operations_syntax

section \<open>Errors\<close>

datatype 'e webauthn_error =
    ChallengeNotFound
  | RpIdHashMismatch string string
  | UserPresenceNotSet
  | UserVerificationNotSet
  | CredentialAlreadyExists
  | CredentialNotFound
  | SessionStoreErr session_store_error
  | Base64Err 'e
  | ClientDataJsonErr 'e

fun webauthn_error_display :: "('e \<Rightarrow> string) \<Rightarrow> 'e webauthn_error \<Rightarrow> string" where
  "webauthn_error_display d ChallengeNotFound = ''challenge expired or not found''"
| "webauthn_error_display d (RpIdHashMismatch expected got) =
     ''rpIdHash mismatch (expected '' @ expected @ '', got '' @ got @ '')''"
| "webauthn_error_display d UserPresenceNotSet = ''flags.up must be set (user presence)''"
| "webauthn_error_display d UserVerificationNotSet = ''flags.uv must be set (user verification)''"
| "webauthn_error_display d CredentialAlreadyExists = ''credential already registered''"
| "webauthn_error_display d CredentialNotFound = ''credential not found''"
| "webauthn_error_display d (SessionStoreErr e) =
     ''session store error: '' @ session_store_error_display e"
| "webauthn_error_display d (Base64Err e) = ''base64 decode failed: '' @ d e"
| "webauthn_error_display d (ClientDataJsonErr e) = ''client data JSON parse failed: '' @ d e"

section \<open>Flags\<close>

record auth_flags =
  up :: bool
  uv :: bool
  be :: bool
  bs :: bool
  at :: bool
  ed :: bool

definition flags_from_byte :: "u8 \<Rightarrow> auth_flags" where
  "flags_from_byte b =
     \<lparr>up = b AND 0x01 \<noteq> 0, uv = b AND 0x04 \<noteq> 0, be = b AND 0x08 \<noteq> 0,
      bs = b AND 0x10 \<noteq> 0, at = b AND 0x40 \<noteq> 0, ed = b AND 0x80 \<noteq> 0\<rparr>"

definition flags_to_byte :: "auth_flags \<Rightarrow> u8" where
  "flags_to_byte f =
     (let b = 0;
          b = (if up f then b OR 0x01 else b);
          b = (if uv f then b OR 0x04 else b);
          b = (if be f then b OR 0x08 else b);
          b = (if bs f then b OR 0x10 else b);
          b = (if at f then b OR 0x40 else b);
          b = (if ed f then b OR 0x80 else b)
      in b)"

section \<open>Authenticator data\<close>

record authenticator_data =
  rp_id_hash :: "u8 list"
  flags :: auth_flags
  sign_count :: u32

text \<open>The indices are within the 37 bytes the length check guarantees.\<close>

definition parse_authenticator_data :: "u8 list \<Rightarrow> 'e webauthn_error + authenticator_data" where
  "parse_authenticator_data bytes =
     (if length bytes < 37 then Inl UserPresenceNotSet
      else Inr \<lparr>rp_id_hash = take 32 bytes, flags = flags_from_byte (bytes ! 32),
        sign_count = from_be_bytes [bytes ! 33, bytes ! 34, bytes ! 35, bytes ! 36]\<rparr>)"

section \<open>Client data, credentials, configuration\<close>

record token_binding =
  tb_status :: string
  tb_id :: "string option"

record collected_client_data =
  ty :: string
  challenge :: string
  origin :: string
  cross_origin :: bool
  token_binding :: "token_binding option"

record webauthn_credential =
  credential_id :: "u8 list"
  public_key :: "u8 list"
  cred_sign_count :: u32
  label :: "string option"
  created_at :: string

record webauthn_config =
  rp_id :: string
  allowed_origins :: "string list"
  challenge_ttl_secs :: u64

definition config_new :: "string \<Rightarrow> string list \<Rightarrow> webauthn_config" where
  "config_new rp origins = \<lparr>rp_id = rp, allowed_origins = origins, challenge_ttl_secs = 60\<rparr>"

section \<open>Codec lemmas\<close>

lemma and_bit: "(b AND 1 \<noteq> 0) = bit b 0" "(b AND 4 \<noteq> 0) = bit b 2" "(b AND 8 \<noteq> 0) = bit b 3"
  "(b AND 16 \<noteq> 0) = bit b 4" "(b AND 64 \<noteq> 0) = bit b 6" "(b AND 128 \<noteq> 0) = bit b 7" for b :: u8
proof -
  have "(b AND 2 ^ n \<noteq> 0) = bit b n" if "n < 8" for n
    using that by (simp add: bit_iff_and_push_bit_not_eq_0 push_bit_of_1)
  from this [of 0] this [of 2] this [of 3] this [of 4] this [of 6] this [of 7]
  show "(b AND 1 \<noteq> 0) = bit b 0" "(b AND 4 \<noteq> 0) = bit b 2" "(b AND 8 \<noteq> 0) = bit b 3"
    "(b AND 16 \<noteq> 0) = bit b 4" "(b AND 64 \<noteq> 0) = bit b 6" "(b AND 128 \<noteq> 0) = bit b 7"
    by simp_all
qed

lemma bit_if_or: "bit (if p then b OR c else b) n \<longleftrightarrow> bit b n \<or> p \<and> bit c n" for b c :: u8
  by (simp add: bit_or_iff)

lemma bit_flags_to_byte:
  "bit (flags_to_byte f) 0 = up f" "bit (flags_to_byte f) 1 = False" "bit (flags_to_byte f) 2 = uv f"
  "bit (flags_to_byte f) 3 = be f" "bit (flags_to_byte f) 4 = bs f" "bit (flags_to_byte f) 5 = False"
  "bit (flags_to_byte f) 6 = at f" "bit (flags_to_byte f) 7 = ed f"
  by (simp_all only: flags_to_byte_def Let_def bit_if_or) simp_all

lemma flags_from_byte_bits:
  "flags_from_byte b = \<lparr>up = bit b 0, uv = bit b 2, be = bit b 3, bs = bit b 4, at = bit b 6, ed = bit b 7\<rparr>"
  by (simp add: flags_from_byte_def and_bit)

lemma flags_from_to_byte: "flags_from_byte (flags_to_byte f) = f"
  unfolding flags_from_byte_bits bit_flags_to_byte by simp

lemma flags_to_from_byte: "flags_to_byte (flags_from_byte b) = b AND 0xDD"
proof (rule bit_word_eqI)
  fix n
  assume "n < LENGTH(8)"
  then consider "n = 0" | "n = 1" | "n = 2" | "n = 3" | "n = 4" | "n = 5" | "n = 6" | "n = 7"
    by fastforce
  then show "bit (flags_to_byte (flags_from_byte b)) n \<longleftrightarrow> bit (b AND 0xDD) n"
    by cases (simp_all only: bit_flags_to_byte flags_from_byte_bits auth_flags.simps bit_and_iff, simp_all)
qed

section \<open>Properties\<close>

text \<open>The 37 bytes an authenticator sends for the fields the code reads.\<close>

definition authenticator_data_bytes :: "authenticator_data \<Rightarrow> u8 list" where
  "authenticator_data_bytes ad =
     rp_id_hash ad @ flags_to_byte (flags ad) # to_be_bytes 4 (sign_count ad)"

lemma list4: "length xs = 4 \<Longrightarrow> [xs ! 0, xs ! 1, xs ! 2, xs ! 3] = xs"
  by (rule nth_equalityI) (auto simp: less_Suc_eq numeral_eq_Suc nth_Cons split: nat.splits)

text \<open>
  The flags byte round trip. Decoding what \<open>to_byte\<close> wrote gives the flags back, and encoding
  what \<open>from_byte\<close> read keeps exactly the six defined bits (mask \<open>0xDD\<close>) and clears the two
  reserved ones.
\<close>

theorem flags_roundtrip:
  "flags_from_byte (flags_to_byte f) = f \<and> flags_to_byte (flags_from_byte b) = b AND 0xDD"
  by (simp add: flags_from_to_byte flags_to_from_byte)

text \<open>
  C38. Authenticator data round trip. The 37 bytes of any authenticator data, whatever follows
  them, parse back to it, hash, flags and big-endian counter included; a blob fails to parse
  exactly when it is shorter than 37 bytes, and then with \<open>UserPresenceNotSet\<close>.
\<close>

theorem authenticator_data_roundtrip:
  assumes "length (rp_id_hash ad) = 32"
  shows "parse_authenticator_data (authenticator_data_bytes ad @ rest) = Inr ad
    \<and> (parse_authenticator_data bytes = Inl e \<longleftrightarrow> length bytes < 37 \<and> e = UserPresenceNotSet)"
proof -
  let ?c = "to_be_bytes 4 (sign_count ad)"
  let ?b = "authenticator_data_bytes ad @ rest"
  have "?b ! (33 + i) = ?c ! i" if "i < 4" for i
    using assms that by (simp add: authenticator_data_bytes_def nth_append nth_Cons')
  from this [of 0] this [of 1] this [of 2] this [of 3]
  have "[?b ! 33, ?b ! 34, ?b ! 35, ?b ! 36] = ?c"
    using list4 [of ?c] by simp
  moreover have "take 32 ?b = rp_id_hash ad" "?b ! 32 = flags_to_byte (flags ad)" "37 \<le> length ?b"
    using assms by (simp_all add: authenticator_data_bytes_def nth_append)
  ultimately have "parse_authenticator_data ?b = Inr ad"
    by (simp add: parse_authenticator_data_def flags_from_to_byte)
  then show ?thesis
    by (auto simp: parse_authenticator_data_def)
qed

theorem authenticator_data_roundtrip_witness:
  "parse_authenticator_data (authenticator_data_bytes
      \<lparr>rp_id_hash = replicate 32 7, flags = flags_from_byte 5, sign_count = 0x01020304\<rparr> @ [9]) =
   (Inr \<lparr>rp_id_hash = replicate 32 7, flags = flags_from_byte 5, sign_count = 0x01020304\<rparr>
      :: unit webauthn_error + authenticator_data)"
  by (rule authenticator_data_roundtrip [THEN conjunct1]) simp

end
