(* ===== verification/Webauthn.thy ===== *)
theory Webauthn
  imports Webauthn_Data "HOL-Library.Multiset"
begin

text \<open>
  The verifier of \<open>src/webauthn.rs\<close>: challenges, registration, authentication and the credential
  registry.

  \<open>webauthn_env\<close> holds what is not in the crate: SHA-256, URL-safe Base64, the JSON parser for
  client data, and the challenge store. The file calls \<open>bind_state\<close> with five and \<open>verify_state\<close>
  with four arguments (key, value, kind, then TTL and a trailing \<open>None\<close>) and awaits them; the
  trait of this repository has neither signature, so the store is a parameter with its own
  state. The value an \<open>Ok\<close> of \<open>verify_state\<close> carries is of any type \<open>'r\<close>, since the code drops it.
  Random bytes and the formatted current time are arguments of the calls that read them.

  The registry is a map under a read-write lock that no method panics under, so its \<open>unwrap\<close>s
  do not fire. The functions here are calls that do not overlap; registrations that do (whose check
  and whose insertion take the lock separately) are the step relations of \<open>Webauthn_Race\<close>.
\<close>

section \<open>State and environment\<close>

record ('e, 's, 'r) webauthn_env =
  sha256 :: "u8 list \<Rightarrow> u8 list"
  b64url_encode :: "u8 list \<Rightarrow> string"
  client_data_from_json :: "string \<Rightarrow> 'e + collected_client_data"
  challenge_bind :: "string \<Rightarrow> string \<Rightarrow> string \<Rightarrow> u64 \<Rightarrow> 's
    \<Rightarrow> (session_store_error + unit) outcome \<times> 's"
  challenge_verify :: "string \<Rightarrow> string \<Rightarrow> string \<Rightarrow> 's \<Rightarrow> (session_store_error + 'r) \<times> 's"

type_synonym registry = "(string, webauthn_credential list) hashmap"

record 's verifier =
  session_store :: 's
  credentials :: registry

definition verifier_new :: "'s \<Rightarrow> 's verifier" where
  "verifier_new st = \<lparr>session_store = st, credentials = []\<rparr>"

definition challenge_key :: "string \<Rightarrow> string \<Rightarrow> string \<Rightarrow> string" where
  "challenge_key operation rp user_id = ''webauthn:'' @ operation @ '':'' @ rp @ '':'' @ user_id"

section \<open>Challenges\<close>

text \<open>\<open>rand_bytes\<close> panics when \<open>getrandom\<close> fails (\<open>None\<close>); the state is then untouched.\<close>

definition rand_bytes :: "u8 list option \<Rightarrow> u8 list outcome" where
  "rand_bytes getrandom = (case getrandom of None \<Rightarrow> Panic | Some bytes \<Rightarrow> Ret bytes)"

definition generate_challenge ::
  "('e, 's, 'r) webauthn_env \<Rightarrow> webauthn_config \<Rightarrow> u8 list option \<Rightarrow> string \<Rightarrow> string \<Rightarrow> 's verifier
     \<Rightarrow> ('e webauthn_error + string) outcome \<times> 's verifier" where
  "generate_challenge w cfg getrandom user_id operation v =
     (case rand_bytes getrandom of
        Panic \<Rightarrow> (Panic, v)
      | Ret bytes \<Rightarrow>
          let chal = b64url_encode w bytes;
              key = challenge_key operation (rp_id cfg) user_id
          in case challenge_bind w key chal ''webauthn-challenge'' (challenge_ttl_secs cfg)
                    (session_store v) of
               (Panic, st) \<Rightarrow> (Panic, v\<lparr>session_store := st\<rparr>)
             | (Ret (Inl err), st) \<Rightarrow> (Ret (Inl (SessionStoreErr err)), v\<lparr>session_store := st\<rparr>)
             | (Ret (Inr _), st) \<Rightarrow> (Ret (Inr chal), v\<lparr>session_store := st\<rparr>))"

section \<open>Registration\<close>

text \<open>The search through all users' credentials, and the insertion under the write lock.\<close>

definition credential_exists :: "u8 list \<Rightarrow> registry \<Rightarrow> bool" where
  "credential_exists cid m \<longleftrightarrow>
     list_ex (\<lambda>(uid, creds). list_ex (\<lambda>c. credential_id c = cid) creds) m"

definition add_credential :: "string \<Rightarrow> webauthn_credential \<Rightarrow> registry \<Rightarrow> registry" where
  "add_credential user_id c m =
     hm_insert user_id ((case hm_get m user_id of None \<Rightarrow> [] | Some creds \<Rightarrow> creds) @ [c]) m"

text \<open>
  Steps 1 to 3 read only the arguments and the configuration. Registration and authentication
  differ in the type they expect and in whether user verification is asked for.
\<close>

definition rp_id_hash_check ::
  "('e, 's, 'r) webauthn_env \<Rightarrow> webauthn_config \<Rightarrow> authenticator_data \<Rightarrow> 'e webauthn_error option" where
  "rp_id_hash_check w cfg ad =
     (let expected = sha256 w (as_bytes (rp_id cfg))
      in if rp_id_hash ad \<noteq> expected
         then Some (RpIdHashMismatch (b64url_encode w expected) (b64url_encode w (rp_id_hash ad)))
         else None)"

definition client_data_check ::
  "('e, 's, 'r) webauthn_env \<Rightarrow> webauthn_config \<Rightarrow> string \<Rightarrow> string \<Rightarrow> string
     \<Rightarrow> 'e webauthn_error option" where
  "client_data_check w cfg expected_type chal client_data_json =
     (case client_data_from_json w client_data_json of
        Inl err \<Rightarrow> Some (ClientDataJsonErr err)
      | Inr cd \<Rightarrow>
          if ty cd \<noteq> expected_type then Some ChallengeNotFound
          else if challenge cd \<noteq> chal then Some ChallengeNotFound
          else if \<not> List.member (allowed_origins cfg) (origin cd) then Some ChallengeNotFound
          else None)"

definition verify_registration ::
  "('e, 's, 'r) webauthn_env \<Rightarrow> webauthn_config \<Rightarrow> string \<Rightarrow> string \<Rightarrow> string \<Rightarrow> authenticator_data
     \<Rightarrow> string \<Rightarrow> u8 list \<Rightarrow> u8 list \<Rightarrow> 's verifier
     \<Rightarrow> ('e webauthn_error + webauthn_credential) \<times> 's verifier" where
  "verify_registration w cfg now user_id chal ad client_data_json cid pk v =
     (case rp_id_hash_check w cfg ad of
        Some err \<Rightarrow> (Inl err, v)
      | None \<Rightarrow>
      if \<not> up (flags ad) then (Inl UserPresenceNotSet, v)
      else if \<not> uv (flags ad) then (Inl UserVerificationNotSet, v)
      else (case client_data_check w cfg ''webauthn.create'' chal client_data_json of
        Some err \<Rightarrow> (Inl err, v)
      | None \<Rightarrow>
     (case challenge_verify w (challenge_key ''create'' (rp_id cfg) user_id) chal
             ''webauthn-challenge'' (session_store v) of
        (Inl err, st) \<Rightarrow> (Inl (SessionStoreErr err), v\<lparr>session_store := st\<rparr>)
      | (Inr _, st) \<Rightarrow>
          if credential_exists cid (credentials v)
          then (Inl CredentialAlreadyExists, v\<lparr>session_store := st\<rparr>)
          else (let c = \<lparr>credential_id = cid, public_key = pk, cred_sign_count = sign_count ad,
                         label = None, created_at = now\<rparr>
                in (Inr c, v\<lparr>session_store := st,
                      credentials := add_credential user_id c (credentials v)\<rparr>)))))"

section \<open>Authentication\<close>

definition verify_signature ::
  "u8 list \<Rightarrow> authenticator_data \<Rightarrow> string \<Rightarrow> 'e webauthn_error + unit" where
  "verify_signature pk ad client_data_json = (if pk = [] then Inl CredentialNotFound else Inr ())"

text \<open>\<open>iter_mut().find(..)\<close> followed by an assignment through the reference found.\<close>

fun find_credential :: "u8 list \<Rightarrow> webauthn_credential list \<Rightarrow> webauthn_credential option" where
  "find_credential cid [] = None"
| "find_credential cid (c # cs) = (if credential_id c = cid then Some c else find_credential cid cs)"

fun set_sign_count :: "u8 list \<Rightarrow> u32 \<Rightarrow> webauthn_credential list \<Rightarrow> webauthn_credential list" where
  "set_sign_count cid n [] = []"
| "set_sign_count cid n (c # cs) =
     (if credential_id c = cid then c\<lparr>cred_sign_count := n\<rparr> # cs else c # set_sign_count cid n cs)"

definition verify_authentication ::
  "('e, 's, 'r) webauthn_env \<Rightarrow> webauthn_config \<Rightarrow> string \<Rightarrow> string \<Rightarrow> authenticator_data
     \<Rightarrow> string \<Rightarrow> u8 list \<Rightarrow> 's verifier \<Rightarrow> ('e webauthn_error + unit) \<times> 's verifier" where
  "verify_authentication w cfg user_id chal ad client_data_json cid v =
     (case rp_id_hash_check w cfg ad of
        Some err \<Rightarrow> (Inl err, v)
      | None \<Rightarrow>
      if \<not> up (flags ad) then (Inl UserPresenceNotSet, v)
      else (case client_data_check w cfg ''webauthn.get'' chal client_data_json of
        Some err \<Rightarrow> (Inl err, v)
      | None \<Rightarrow>
     (case challenge_verify w (challenge_key ''get'' (rp_id cfg) user_id) chal
             ''webauthn-challenge'' (session_store v) of
        (Inl err, st) \<Rightarrow> (Inl (SessionStoreErr err), v\<lparr>session_store := st\<rparr>)
      | (Inr _, st) \<Rightarrow>
     (case hm_get (credentials v) user_id of
        None \<Rightarrow> (Inl CredentialNotFound, v\<lparr>session_store := st\<rparr>)
      | Some creds \<Rightarrow>
     (case find_credential cid creds of
        None \<Rightarrow> (Inl CredentialNotFound, v\<lparr>session_store := st\<rparr>)
      | Some c \<Rightarrow>
          if sign_count ad \<le> cred_sign_count c
          then (Inl CredentialNotFound, v\<lparr>session_store := st\<rparr>)
          else (let v' = v\<lparr>session_store := st, credentials :=
                      hm_insert user_id (set_sign_count cid (sign_count ad) creds) (credentials v)\<rparr>
                in (verify_signature (public_key c) ad client_data_json, v')))))))"

definition list_credentials :: "string \<Rightarrow> 's verifier \<Rightarrow> webauthn_credential list" where
  "list_credentials user_id v =
     (case hm_get (credentials v) user_id of None \<Rightarrow> [] | Some creds \<Rightarrow> creds)"

section \<open>The registry\<close>

definition all_creds :: "registry \<Rightarrow> webauthn_credential list" where
  "all_creds m = concat (map snd m)"

definition ids_unique :: "registry \<Rightarrow> bool" where
  "ids_unique m \<longleftrightarrow> distinct (map credential_id (all_creds m))"

lemma credential_exists_iff: "credential_exists cid m \<longleftrightarrow> cid \<in> credential_id ` set (all_creds m)"
  by (induction m) (auto simp: credential_exists_def all_creds_def list_ex_iff)

lemma all_creds_update:
  "mset (all_creds (hm_insert u cs m)) + mset (case hm_get m u of None \<Rightarrow> [] | Some ds \<Rightarrow> ds)
     = mset (all_creds m) + mset cs"
  by (induction m) (auto simp: all_creds_def hm_insert_def hm_get_def)

lemma all_creds_add: "mset (all_creds (add_credential u c m)) = add_mset c (mset (all_creds m))"
  using all_creds_update [of u "(case hm_get m u of None \<Rightarrow> [] | Some creds \<Rightarrow> creds) @ [c]" m]
  by (auto simp: add_credential_def split: option.splits)

lemma ids_unique_mset:
  "image_mset credential_id (mset (all_creds m)) = image_mset credential_id (mset (all_creds m'))
     \<Longrightarrow> ids_unique m \<longleftrightarrow> ids_unique m'"
  unfolding ids_unique_def by (intro mset_eq_imp_distinct_iff) simp

lemma ids_unique_add:
  "ids_unique (add_credential u c m) \<longleftrightarrow> ids_unique m \<and> \<not> credential_exists (credential_id c) m"
proof -
  have "mset (map credential_id (all_creds (add_credential u c m))) =
      mset (credential_id c # map credential_id (all_creds m))"
    by (simp add: all_creds_add)
  then have "ids_unique (add_credential u c m) \<longleftrightarrow>
      distinct (credential_id c # map credential_id (all_creds m))"
    unfolding ids_unique_def by (rule mset_eq_imp_distinct_iff)
  then show ?thesis
    by (auto simp: ids_unique_def credential_exists_iff)
qed

lemma map_ids_set_sign_count [simp]:
  "map credential_id (set_sign_count cid n cs) = map credential_id cs"
  by (induction cs) auto

lemma ids_unique_set_sign_count:
  assumes "hm_get m u = Some cs"
  shows "ids_unique (hm_insert u (set_sign_count cid n cs) m) \<longleftrightarrow> ids_unique m"
proof (rule ids_unique_mset)
  have "image_mset credential_id (mset (set_sign_count cid n cs)) = image_mset credential_id (mset cs)"
    by (metis map_ids_set_sign_count mset_map)
  then show "image_mset credential_id (mset (all_creds (hm_insert u (set_sign_count cid n cs) m))) =
      image_mset credential_id (mset (all_creds m))"
    using arg_cong [OF all_creds_update [of u "set_sign_count cid n cs" m], of "image_mset credential_id"]
    by (simp add: assms)
qed

lemma find_credential_Some: "find_credential cid cs = Some c \<Longrightarrow> c \<in> set cs \<and> credential_id c = cid"
  by (induction cs) (auto split: if_splits)

lemma find_credential_None: "find_credential cid cs = None \<longleftrightarrow> cid \<notin> credential_id ` set cs"
  by (induction cs) auto

lemma find_credential_append:
  "find_credential cid (cs @ ds) = or_else (find_credential cid cs) (find_credential cid ds)"
  by (induction cs) (auto simp: or_else_def)

lemma find_set_sign_count:
  "find_credential cid (set_sign_count cid' n cs) =
     (if cid = cid' then map_option (\<lambda>c. c\<lparr>cred_sign_count := n\<rparr>) (find_credential cid cs)
      else find_credential cid cs)"
  by (induction cs) auto

lemma list_credentials_add:
  "list_credentials u (v\<lparr>session_store := st, credentials := add_credential u' c (credentials v)\<rparr>) =
     (if u = u' then list_credentials u v @ [c] else list_credentials u v)"
  by (simp add: list_credentials_def add_credential_def hm_get_insert)

lemma list_credentials_insert:
  "list_credentials u (v\<lparr>session_store := st, credentials := hm_insert u' cs (credentials v)\<rparr>) =
     (if u = u' then cs else list_credentials u v)"
  by (simp add: list_credentials_def hm_get_insert)

lemma list_credentials_store [simp]: "list_credentials u (v\<lparr>session_store := st\<rparr>) = list_credentials u v"
  by (simp add: list_credentials_def)

lemma list_credentials_all: "c \<in> set (list_credentials u v) \<Longrightarrow> c \<in> set (all_creds (credentials v))"
  by (cases "hm_get (credentials v) u")
    (force simp: list_credentials_def hm_get_def all_creds_def dest!: map_of_SomeD)+

section \<open>What the two verifications decide\<close>

definition client_data_ok ::
  "('e, 's, 'r) webauthn_env \<Rightarrow> webauthn_config \<Rightarrow> string \<Rightarrow> string \<Rightarrow> string \<Rightarrow> bool" where
  "client_data_ok w cfg expected_type chal json \<longleftrightarrow>
     (\<exists>cd. client_data_from_json w json = Inr cd \<and> ty cd = expected_type \<and> challenge cd = chal
        \<and> origin cd \<in> set (allowed_origins cfg))"

lemma client_data_check_None:
  "client_data_check w cfg t chal json = None \<longleftrightarrow> client_data_ok w cfg t chal json"
  by (auto simp: client_data_check_def client_data_ok_def split: sum.splits)

lemma rp_id_hash_check_None:
  "rp_id_hash_check w cfg ad = None \<longleftrightarrow> rp_id_hash ad = sha256 w (as_bytes (rp_id cfg))"
  by (simp add: rp_id_hash_check_def Let_def)

lemma verify_registration_Inr:
  "verify_registration w cfg now u chal ad json cid pk v = (Inr c, v') \<longleftrightarrow>
     rp_id_hash ad = sha256 w (as_bytes (rp_id cfg)) \<and> up (flags ad) \<and> uv (flags ad)
     \<and> client_data_ok w cfg ''webauthn.create'' chal json
     \<and> (\<exists>r st. challenge_verify w (challenge_key ''create'' (rp_id cfg) u) chal
           ''webauthn-challenge'' (session_store v) = (Inr r, st)
         \<and> v' = v\<lparr>session_store := st, credentials := add_credential u c (credentials v)\<rparr>)
     \<and> \<not> credential_exists cid (credentials v)
     \<and> c = \<lparr>credential_id = cid, public_key = pk, cred_sign_count = sign_count ad,
            label = None, created_at = now\<rparr>"
  unfolding rp_id_hash_check_None [symmetric] client_data_check_None [symmetric]
  by (auto simp: verify_registration_def Let_def split: option.splits prod.splits sum.splits if_splits)

lemma verify_authentication_Inr:
  "verify_authentication w cfg u chal ad json cid v = (Inr (), v') \<longleftrightarrow>
     rp_id_hash ad = sha256 w (as_bytes (rp_id cfg)) \<and> up (flags ad)
     \<and> client_data_ok w cfg ''webauthn.get'' chal json
     \<and> (\<exists>r st c. challenge_verify w (challenge_key ''get'' (rp_id cfg) u) chal
           ''webauthn-challenge'' (session_store v) = (Inr r, st)
         \<and> find_credential cid (list_credentials u v) = Some c
         \<and> cred_sign_count c < sign_count ad \<and> public_key c \<noteq> []
         \<and> v' = v\<lparr>session_store := st, credentials :=
              hm_insert u (set_sign_count cid (sign_count ad) (list_credentials u v)) (credentials v)\<rparr>)"
  unfolding rp_id_hash_check_None [symmetric] client_data_check_None [symmetric]
  by (auto simp: verify_authentication_def list_credentials_def verify_signature_def Let_def
      split: option.splits prod.splits sum.splits if_splits)

text \<open>What a call that returns an error did to the registry.\<close>

lemma verify_registration_Inl:
  "verify_registration w cfg now u chal ad json cid pk v = (Inl e, v')
     \<Longrightarrow> credentials v' = credentials v"
  by (auto simp: verify_registration_def Let_def split: option.splits prod.splits sum.splits if_splits)

lemma verify_authentication_Inl:
  assumes "verify_authentication w cfg u chal ad json cid v = (Inl e, v')"
  shows "credentials v' = credentials v
    \<or> (\<exists>c. find_credential cid (list_credentials u v) = Some c \<and> cred_sign_count c < sign_count ad
        \<and> public_key c = [] \<and> e = CredentialNotFound
        \<and> credentials v' =
            hm_insert u (set_sign_count cid (sign_count ad) (list_credentials u v)) (credentials v))"
  using assms
  by (auto simp: verify_authentication_def list_credentials_def verify_signature_def Let_def
      split: option.splits prod.splits sum.splits if_splits)

text \<open>Every outcome of an authentication: the registry is unchanged, or one counter went up.\<close>

lemma verify_authentication_effect:
  assumes "verify_authentication w cfg u chal ad json cid v = (r, v')"
  obtains (unchanged) e where "r = Inl e" and "credentials v' = credentials v"
    | (bumped) c where "find_credential cid (list_credentials u v) = Some c"
        and "cred_sign_count c < sign_count ad" and "r = Inr () \<Longrightarrow> public_key c \<noteq> []"
        and "credentials v' =
          hm_insert u (set_sign_count cid (sign_count ad) (list_credentials u v)) (credentials v)"
proof (cases r)
  case (Inl e)
  then show thesis
    using verify_authentication_Inl [of w cfg u chal ad json cid v e v'] assms that by blast
next
  case (Inr x)
  then have "verify_authentication w cfg u chal ad json cid v = (Inr (), v')"
    using assms by simp
  then show thesis
    using that(2) unfolding verify_authentication_Inr by auto
qed

lemma list_credentials_cong:
  "credentials v' = credentials v \<Longrightarrow> list_credentials u v' = list_credentials u v"
  by (simp add: list_credentials_def)

section \<open>Histories of a verifier\<close>

text \<open>
  The accepted calls, newest first. The shared session store may change between the calls in any
  way (other clients of it, \<open>generate_challenge\<close>, time), so \<open>store\<close> puts no condition on it.
\<close>

datatype webauthn_event =
    Registered string webauthn_credential
  | Authenticated string "u8 list" u32

inductive verifier_history ::
  "('e, 's, 'r) webauthn_env \<Rightarrow> webauthn_config \<Rightarrow> webauthn_event list \<Rightarrow> 's verifier \<Rightarrow> bool"
  for w :: "('e, 's, 'r) webauthn_env" and cfg :: webauthn_config where
  new: "verifier_history w cfg [] (verifier_new st)"
| store: "verifier_history w cfg evs v \<Longrightarrow> verifier_history w cfg evs (v\<lparr>session_store := st\<rparr>)"
| registered: "verifier_history w cfg evs v
    \<Longrightarrow> verify_registration w cfg now u chal ad json cid pk v = (Inr c, v')
    \<Longrightarrow> verifier_history w cfg (Registered u c # evs) v'"
| not_registered: "verifier_history w cfg evs v
    \<Longrightarrow> verify_registration w cfg now u chal ad json cid pk v = (Inl e, v')
    \<Longrightarrow> verifier_history w cfg evs v'"
| authenticated: "verifier_history w cfg evs v
    \<Longrightarrow> verify_authentication w cfg u chal ad json cid v = (Inr (), v')
    \<Longrightarrow> verifier_history w cfg (Authenticated u cid (sign_count ad) # evs) v'"
| not_authenticated: "verifier_history w cfg evs v
    \<Longrightarrow> verify_authentication w cfg u chal ad json cid v = (Inl e, v')
    \<Longrightarrow> verifier_history w cfg evs v'"

lemma generate_challenge_history:
  "verifier_history w cfg evs v \<Longrightarrow> generate_challenge w cfg random u op v = (r, v')
     \<Longrightarrow> verifier_history w cfg evs v'"
  by (auto simp: generate_challenge_def Let_def intro: verifier_history.store
      split: prod.splits sum.splits outcome.splits)

text \<open>The credentials registered for a user, oldest first, and the counts shown for a credential.\<close>

fun registered_ids :: "webauthn_event list \<Rightarrow> string \<Rightarrow> u8 list list" where
  "registered_ids [] u = []"
| "registered_ids (Registered u' c # evs) u =
     registered_ids evs u @ (if u' = u then [credential_id c] else [])"
| "registered_ids (Authenticated u' cid n # evs) u = registered_ids evs u"

fun counts_seen :: "webauthn_event list \<Rightarrow> string \<Rightarrow> u8 list \<Rightarrow> u32 list" where
  "counts_seen [] u cid = []"
| "counts_seen (Registered u' c # evs) u cid =
     (if u' = u \<and> credential_id c = cid then [cred_sign_count c] else []) @ counts_seen evs u cid"
| "counts_seen (Authenticated u' cid' n # evs) u cid =
     (if u' = u \<and> cid' = cid then [n] else []) @ counts_seen evs u cid"

text \<open>The registry invariant: what is stored is what was registered, each identifier once.\<close>

definition creds_of :: "registry \<Rightarrow> string \<Rightarrow> webauthn_credential list" where
  "creds_of m u = (case hm_get m u of None \<Rightarrow> [] | Some cs \<Rightarrow> cs)"

lemma list_credentials_creds_of: "list_credentials u v = creds_of (credentials v) u"
  by (simp add: list_credentials_def creds_of_def)

lemma creds_of_insert [simp]: "creds_of (hm_insert u cs m) = (creds_of m)(u := cs)"
  by (simp add: creds_of_def hm_get_insert fun_eq_iff)

lemma creds_of_add [simp]: "creds_of (add_credential u c m) = (creds_of m)(u := creds_of m u @ [c])"
  unfolding add_credential_def creds_of_insert by (simp add: creds_of_def)

lemma hm_inv_add: "hm_inv m \<Longrightarrow> hm_inv (add_credential u c m)"
  unfolding add_credential_def by (rule hm_inv_insert)

lemma hm_get_all_creds: "hm_get m u = Some cs \<Longrightarrow> set cs \<subseteq> set (all_creds m)"
  by (force simp: hm_get_def all_creds_def dest!: map_of_SomeD)

lemma credential_exists_user:
  assumes "hm_inv m"
  shows "credential_exists cid m \<longleftrightarrow> (\<exists>u. cid \<in> set (map credential_id (creds_of m u)))"
proof
  assume "credential_exists cid m"
  then obtain u cs c where "(u, cs) \<in> set m" and c: "c \<in> set cs" "credential_id c = cid"
    by (auto simp: credential_exists_def list_ex_iff)
  with assms have "hm_get m u = Some cs"
    by (simp add: hm_inv_def hm_get_def)
  then show "\<exists>u. cid \<in> set (map credential_id (creds_of m u))"
    using c by (auto simp: creds_of_def intro!: exI [of _ u])
next
  assume "\<exists>u. cid \<in> set (map credential_id (creds_of m u))"
  then obtain u where u: "cid \<in> set (map credential_id (creds_of m u))"
    by blast
  then obtain cs where cs: "hm_get m u = Some cs"
    by (cases "hm_get m u") (simp_all add: creds_of_def)
  with u show "credential_exists cid m"
    using hm_get_all_creds [OF cs] by (auto simp: credential_exists_iff creds_of_def)
qed

lemma ids_unique_user:
  assumes "ids_unique m" and "hm_get m u = Some cs" and "hm_get m u' = Some cs'"
    and "cid \<in> credential_id ` set cs" and "cid \<in> credential_id ` set cs'"
  shows "u = u'"
  using assms
proof (induction m)
  case (Cons p m)
  have 1: "ids_unique m"
    and 2: "credential_id ` set (snd p) \<inter> credential_id ` set (all_creds m) = {}"
    using Cons.prems(1) by (simp_all add: ids_unique_def all_creds_def)
  have 3: "credential_id ` set ds \<inter> credential_id ` set (snd p) = {}" if "hm_get m v = Some ds" for v ds
    using 2 image_mono [OF hm_get_all_creds [OF that], of credential_id] by blast
  have get: "hm_get (p # m) v = (if fst p = v then Some (snd p) else hm_get m v)" for v
    by (cases p) (simp add: hm_get_def)
  show ?case
  proof (cases "fst p = u \<or> fst p = u'")
    case True
    then show ?thesis
      using Cons.prems(2-5) 3 [of u cs] 3 [of u' cs'] by (auto simp: get split: if_splits)
  next
    case False
    then show ?thesis
      using Cons.prems(2-5) Cons.IH [OF 1] by (simp add: get)
  qed
qed simp

lemma ids_unique_distinct: "ids_unique m \<Longrightarrow> distinct (map credential_id (creds_of m u))"
proof (induction m)
  case (Cons p m)
  then show ?case
    by (cases p) (auto simp: ids_unique_def all_creds_def creds_of_def hm_get_def)
qed (simp add: creds_of_def)

definition registry_inv :: "webauthn_event list \<Rightarrow> registry \<Rightarrow> bool" where
  "registry_inv evs m \<longleftrightarrow> hm_inv m \<and> ids_unique m
     \<and> (\<forall>u. map credential_id (creds_of m u) = registered_ids evs u)"

lemma registry_inv_bump:
  assumes "registry_inv evs (credentials v)" and "find_credential cid (list_credentials u v) = Some c"
  shows "registry_inv evs
    (hm_insert u (set_sign_count cid n (list_credentials u v)) (credentials v))"
proof -
  obtain cs where "hm_get (credentials v) u = Some cs"
    using assms(2) by (cases "hm_get (credentials v) u") (auto simp: list_credentials_def)
  moreover from this have "list_credentials u v = cs"
    by (simp add: list_credentials_def)
  ultimately show ?thesis
    using assms(1) by (auto simp: registry_inv_def list_credentials_creds_of ids_unique_set_sign_count)
qed

lemma registry_inv_history: "verifier_history w cfg evs v \<Longrightarrow> registry_inv evs (credentials v)"
proof (induction rule: verifier_history.induct)
  case (new st)
  show ?case
    by (simp add: registry_inv_def ids_unique_def all_creds_def verifier_new_def creds_of_def)
next
  case (registered evs v now u chal ad json cid pk c v')
  then show ?case
    by (auto simp: verify_registration_Inr registry_inv_def ids_unique_add hm_inv_add)
next
  case (not_registered evs v now u chal ad json cid pk e v')
  then show ?case
    by (simp add: verify_registration_Inl)
next
  case (authenticated evs v u chal ad json cid v')
  then show ?case
    using registry_inv_bump [of evs v cid u] by (auto simp: verify_authentication_Inr registry_inv_def)
next
  case (not_authenticated evs v u chal ad json cid e v')
  then show ?case
    using registry_inv_bump [of evs v cid u] verify_authentication_Inl by metis
qed simp

text \<open>
  The counter invariant: the counts seen for a credential, newest first, fall strictly, and the
  stored counter is at least the newest of them.
\<close>

definition count_ok :: "u32 list \<Rightarrow> webauthn_credential option \<Rightarrow> bool" where
  "count_ok ns oc \<longleftrightarrow> sorted_wrt (>) ns \<and>
     (case oc of None \<Rightarrow> ns = [] | Some c \<Rightarrow> \<forall>n \<in> set ns. n \<le> cred_sign_count c)"

definition counts_inv :: "webauthn_event list \<Rightarrow> registry \<Rightarrow> bool" where
  "counts_inv evs m \<longleftrightarrow>
     (\<forall>u cid. count_ok (counts_seen evs u cid) (find_credential cid (creds_of m u)))"

lemma counts_invD:
  "counts_inv evs m \<Longrightarrow> count_ok (counts_seen evs u cid) (find_credential cid (creds_of m u))"
  by (simp add: counts_inv_def)

lemma count_ok_bump:
  assumes "count_ok ns (Some c)" and "cred_sign_count c < n"
  shows "count_ok ns (Some (c\<lparr>cred_sign_count := n\<rparr>))"
    and "count_ok (n # ns) (Some (c\<lparr>cred_sign_count := n\<rparr>))"
  using assms by (auto simp: count_ok_def)

lemma counts_inv_bump:
  assumes "counts_inv evs m" and "find_credential cid (creds_of m u) = Some c"
    and "cred_sign_count c < n"
  shows "counts_inv evs (hm_insert u (set_sign_count cid n (creds_of m u)) m)"
    and "counts_inv (Authenticated u cid n # evs)
      (hm_insert u (set_sign_count cid n (creds_of m u)) m)"
  using count_ok_bump [of "counts_seen evs u cid" c n] counts_invD [OF assms(1), of u cid] assms
  by (simp_all add: counts_inv_def find_set_sign_count)

lemma counts_inv_add:
  assumes "counts_inv evs m" and "find_credential (credential_id c) (creds_of m u) = None"
  shows "counts_inv (Registered u c # evs) (add_credential u c m)"
  unfolding counts_inv_def
proof (intro allI)
  fix u' cid
  show "count_ok (counts_seen (Registered u c # evs) u' cid)
      (find_credential cid (creds_of (add_credential u c m) u'))"
    using counts_invD [OF assms(1), of u' cid] assms(2)
    by (cases "find_credential cid (creds_of m u')")
      (auto simp: find_credential_append or_else_def count_ok_def)
qed

lemma find_credential_not_existing:
  "\<not> credential_exists cid m \<Longrightarrow> find_credential cid (creds_of m u) = None"
  using list_credentials_all [of _ u "\<lparr>session_store = (), credentials = m\<rparr>"]
  by (auto simp: find_credential_None credential_exists_iff list_credentials_creds_of)

lemma counts_inv_history: "verifier_history w cfg evs v \<Longrightarrow> counts_inv evs (credentials v)"
proof (induction rule: verifier_history.induct)
  case (new st)
  show ?case
    by (simp add: counts_inv_def count_ok_def verifier_new_def creds_of_def)
next
  case (registered evs v now u chal ad json cid pk c v')
  then show ?case
    by (auto simp: verify_registration_Inr intro!: counts_inv_add find_credential_not_existing)
next
  case (not_registered evs v now u chal ad json cid pk e v')
  then show ?case
    by (simp add: verify_registration_Inl)
next
  case (authenticated evs v u chal ad json cid v')
  then show ?case
    by (auto simp: verify_authentication_Inr list_credentials_creds_of intro: counts_inv_bump(2))
next
  case (not_authenticated evs v u chal ad json cid e v')
  then show ?case
    using verify_authentication_Inl [OF not_authenticated.hyps(2)]
    by (auto simp: list_credentials_creds_of intro: counts_inv_bump(1))
qed simp

lemma fst_Inr_iff: "fst p = Inr r \<longleftrightarrow> (\<exists>st. p = (Inr r, st))"
  by (cases p) simp

lemma verify_registration_fst:
  "fst (verify_registration w cfg now u chal ad json cid pk v) = Inr c \<longleftrightarrow>
     rp_id_hash ad = sha256 w (as_bytes (rp_id cfg)) \<and> up (flags ad) \<and> uv (flags ad)
     \<and> client_data_ok w cfg ''webauthn.create'' chal json
     \<and> (\<exists>r. fst (challenge_verify w (challenge_key ''create'' (rp_id cfg) u) chal
            ''webauthn-challenge'' (session_store v)) = Inr r)
     \<and> \<not> credential_exists cid (credentials v)
     \<and> c = \<lparr>credential_id = cid, public_key = pk, cred_sign_count = sign_count ad,
            label = None, created_at = now\<rparr>"
  unfolding fst_Inr_iff [where p = "verify_registration w cfg now u chal ad json cid pk v"]
    verify_registration_Inr
  by (auto simp: fst_Inr_iff)

section \<open>Properties\<close>

text \<open>
  A concrete environment for the witnesses: a constant digest, client data written as the type
  alone, and a store that accepts every challenge.
\<close>

definition sample_webauthn :: "(string, unit, unit) webauthn_env" where
  "sample_webauthn = \<lparr>sha256 = (\<lambda>_. replicate 32 0), b64url_encode = (\<lambda>_. ''c''),
     client_data_from_json = (\<lambda>s. if s = ''x'' then Inl ''expected value'' else
       Inr \<lparr>ty = s, challenge = ''c'', origin = ''https://a'', cross_origin = False,
         token_binding = None\<rparr>),
     challenge_bind = (\<lambda>_ _ _ _ st. (Ret (Inr ()), st)), challenge_verify = (\<lambda>_ _ _ st. (Inr (), st))\<rparr>"

definition sample_config :: webauthn_config where
  "sample_config = config_new ''a'' [''https://a'']"

definition sample_data :: "u32 \<Rightarrow> authenticator_data" where
  "sample_data n = \<lparr>rp_id_hash = replicate 32 0, flags = flags_from_byte 5, sign_count = n\<rparr>"

lemmas sample_simps = sample_webauthn_def sample_config_def sample_data_def config_new_def
  client_data_ok_def flags_from_byte_def

text \<open>A verifier that registered one credential and accepted one assertion with it.\<close>

definition sample_verifier :: "u32 \<Rightarrow> unit verifier" where
  "sample_verifier n = \<lparr>session_store = (), credentials =
     [(''u'', [\<lparr>credential_id = [1], public_key = [9], cred_sign_count = n, label = None,
        created_at = ''now''\<rparr>])]\<rparr>"

definition sample_credential :: webauthn_credential where
  "sample_credential = \<lparr>credential_id = [1], public_key = [9], cred_sign_count = 4, label = None,
     created_at = ''now''\<rparr>"

lemma sample_registration:
  "verify_registration sample_webauthn sample_config ''now'' ''u'' ''c'' (sample_data 4)
     ''webauthn.create'' [1] [9] (verifier_new ()) = (Inr sample_credential, sample_verifier 4)"
  by (simp add: verify_registration_Inr sample_simps sample_credential_def sample_verifier_def
      verifier_new_def credential_exists_def add_credential_def hm_insert_def)

lemma sample_authentication:
  "verify_authentication sample_webauthn sample_config ''u'' ''c'' (sample_data 7)
     ''webauthn.get'' [1] (sample_verifier 4) = (Inr (), sample_verifier 7)"
  by (simp add: verify_authentication_Inr sample_simps sample_verifier_def list_credentials_def
      hm_insert_def hm_get_def)

lemma sample_history:
  "verifier_history sample_webauthn sample_config [Registered ''u'' sample_credential] (sample_verifier 4)"
  "verifier_history sample_webauthn sample_config
     [Authenticated ''u'' [1] 7, Registered ''u'' sample_credential] (sample_verifier 7)"
proof -
  show 1: "verifier_history sample_webauthn sample_config [Registered ''u'' sample_credential]
      (sample_verifier 4)"
    by (rule verifier_history.registered [OF verifier_history.new sample_registration])
  show "verifier_history sample_webauthn sample_config
      [Authenticated ''u'' [1] 7, Registered ''u'' sample_credential] (sample_verifier 7)"
    using verifier_history.authenticated [OF 1 sample_authentication] by (simp add: sample_data_def)
qed

text \<open>
  C11. When a registration is accepted. After any history of a verifier, a registration answers
  \<open>Ok(c)\<close> exactly when the hash is that of the relying party, both user flags are set, the client
  data is for creation with this challenge and an allowed origin, the session store answers \<open>Ok\<close>,
  and no accepted registration of any user had this credential identifier; \<open>c\<close> then carries the
  identifier, the key and the counter given. Its effect is to append \<open>c\<close> to the list of this user;
  a refused registration changes no list.
\<close>

theorem registration_exact:
  assumes "verifier_history w cfg evs v"
  shows "(fst (verify_registration w cfg now u chal ad json cid pk v) = Inr c \<longleftrightarrow>
      rp_id_hash ad = sha256 w (as_bytes (rp_id cfg)) \<and> up (flags ad) \<and> uv (flags ad)
      \<and> client_data_ok w cfg ''webauthn.create'' chal json
      \<and> (\<exists>r. fst (challenge_verify w (challenge_key ''create'' (rp_id cfg) u) chal
            ''webauthn-challenge'' (session_store v)) = Inr r)
      \<and> (\<forall>u'. cid \<notin> set (registered_ids evs u'))
      \<and> c = \<lparr>credential_id = cid, public_key = pk, cred_sign_count = sign_count ad, label = None,
          created_at = now\<rparr>)
    \<and> list_credentials u' (snd (verify_registration w cfg now u chal ad json cid pk v)) =
        list_credentials u' v @ (case fst (verify_registration w cfg now u chal ad json cid pk v) of
          Inl _ \<Rightarrow> [] | Inr c \<Rightarrow> if u' = u then [c] else [])"
proof -
  note inv = registry_inv_history [OF assms, unfolded registry_inv_def]
  have ex: "credential_exists cid (credentials v) \<longleftrightarrow> (\<exists>u'. cid \<in> set (registered_ids evs u'))"
    using inv by (simp only: credential_exists_user simp_thms)
  obtain r v' where r: "verify_registration w cfg now u chal ad json cid pk v = (r, v')"
    by (rule prod.exhaust)
  have "list_credentials u' v' = list_credentials u' v @
      (case r of Inl _ \<Rightarrow> [] | Inr c \<Rightarrow> if u' = u then [c] else [])"
    using r by (cases r) (auto simp: verify_registration_Inr list_credentials_creds_of
        dest: verify_registration_Inl)
  then show ?thesis
    using verify_registration_fst [of w cfg now u chal ad json cid pk v c]
    by (simp add: r ex)
qed

theorem registration_exact_witness:
  "(\<nexists>c. fst (verify_registration sample_webauthn sample_config ''later'' ''other'' ''c'' (sample_data 1)
      ''webauthn.create'' [1] [8] (sample_verifier 7)) = Inr c)
   \<and> fst (verify_registration sample_webauthn sample_config ''now'' ''u'' ''c'' (sample_data 4)
      ''webauthn.create'' [1] [9] (verifier_new ())) = Inr sample_credential"
  using registration_exact [OF sample_history(2), THEN conjunct1,
      of "''later''" "''other''" "''c''" "sample_data 1" "''webauthn.create''" "[1]" "[8]"]
    sample_registration
  by (auto simp: sample_credential_def)

text \<open>
  C15. Credential identifiers stay unique. After any history of calls that do not overlap, each
  user's list holds exactly the identifiers registered for that user, in the order of the
  registrations, without repetition, and no identifier is in the lists of two users.
\<close>

theorem credential_ids_unique:
  assumes "verifier_history w cfg evs v"
  shows "map credential_id (list_credentials u v) = registered_ids evs u
    \<and> distinct (map credential_id (list_credentials u v))
    \<and> (u' \<noteq> u \<longrightarrow> credential_id ` set (list_credentials u v) \<inter>
                  credential_id ` set (list_credentials u' v) = {})"
proof -
  note inv = registry_inv_history [OF assms, unfolded registry_inv_def]
  have "u' = u" if "x \<in> credential_id ` set (creds_of (credentials v) u)"
    and "x \<in> credential_id ` set (creds_of (credentials v) u')" for x
  proof -
    from that obtain cs cs' where "hm_get (credentials v) u = Some cs"
      and "hm_get (credentials v) u' = Some cs'"
      by (cases "hm_get (credentials v) u"; cases "hm_get (credentials v) u'")
        (auto simp: creds_of_def)
    then show ?thesis
      using that inv ids_unique_user [of "credentials v" u cs u' cs' x] by (simp add: creds_of_def)
  qed
  then show ?thesis
    using inv ids_unique_distinct [of "credentials v" u] unfolding list_credentials_creds_of by blast
qed

theorem credential_ids_unique_witness:
  "map credential_id (list_credentials ''u'' (sample_verifier 7)) = [[1]]"
  using credential_ids_unique [OF sample_history(2), THEN conjunct1, of "''u''"]
  by (simp add: sample_credential_def)

text \<open>The checks on the arguments of an assertion and on the answer of the session store.\<close>

definition assertion_passes ::
  "('e, 's, 'r) webauthn_env \<Rightarrow> webauthn_config \<Rightarrow> string \<Rightarrow> string \<Rightarrow> authenticator_data
     \<Rightarrow> string \<Rightarrow> 's verifier \<Rightarrow> bool" where
  "assertion_passes w cfg u chal ad json v \<longleftrightarrow>
     rp_id_hash ad = sha256 w (as_bytes (rp_id cfg)) \<and> up (flags ad)
     \<and> client_data_ok w cfg ''webauthn.get'' chal json
     \<and> (\<exists>r. fst (challenge_verify w (challenge_key ''get'' (rp_id cfg) u) chal
            ''webauthn-challenge'' (session_store v)) = Inr r)"

lemma verify_authentication_fst:
  "fst (verify_authentication w cfg u chal ad json cid v) = Inr () \<longleftrightarrow>
     assertion_passes w cfg u chal ad json v
     \<and> (\<exists>c. find_credential cid (list_credentials u v) = Some c
           \<and> cred_sign_count c < sign_count ad \<and> public_key c \<noteq> [])"
  unfolding fst_Inr_iff [where p = "verify_authentication w cfg u chal ad json cid v"]
    verify_authentication_Inr assertion_passes_def
  by (auto simp: fst_Inr_iff)

text \<open>
  C12. When an assertion is accepted, and what it leaves. \<open>verify_authentication\<close> answers \<open>Ok\<close>
  exactly when the hash, the presence flag, the client data and the session store pass, the user
  has the credential, the new counter is above the stored one and the stored key is not empty. The
  user-verification flag plays no part. The counter is stored before the key is looked at: it
  moves whenever all checks but that of the key pass, and nothing else ever changes.
\<close>

theorem authentication_exact:
  "(fst (verify_authentication w cfg u chal ad json cid v) = Inr () \<longleftrightarrow>
      assertion_passes w cfg u chal ad json v
      \<and> (\<exists>c. find_credential cid (list_credentials u v) = Some c
            \<and> cred_sign_count c < sign_count ad \<and> public_key c \<noteq> []))
    \<and> list_credentials u' (snd (verify_authentication w cfg u chal ad json cid v)) =
       (if u' = u \<and> assertion_passes w cfg u chal ad json v
          \<and> (\<exists>c. find_credential cid (list_credentials u v) = Some c \<and> cred_sign_count c < sign_count ad)
        then set_sign_count cid (sign_count ad) (list_credentials u v)
        else list_credentials u' v)"
  unfolding assertion_passes_def rp_id_hash_check_None [symmetric] client_data_check_None [symmetric]
  by (auto simp: verify_authentication_def verify_signature_def list_credentials_creds_of Let_def
      creds_of_def hm_get_insert split: option.splits prod.splits sum.splits if_splits)

text \<open>
  C10. Replay defence. After any history, the counters a credential of a user was accepted with,
  the one of its registration included, fall strictly from the newest to the oldest, so no counter
  is accepted twice; the stored counter is at least all of them, and an assertion is accepted only
  with a counter above all of them.
\<close>

theorem sign_counts_increase:
  assumes "verifier_history w cfg evs v"
  shows "sorted_wrt (>) (counts_seen evs u cid)
    \<and> (fst (verify_authentication w cfg u chal ad json cid v) = Inr ()
        \<longrightarrow> (\<forall>n \<in> set (counts_seen evs u cid). n < sign_count ad))"
proof -
  have "count_ok (counts_seen evs u cid) (find_credential cid (list_credentials u v))"
    using counts_invD [OF counts_inv_history [OF assms]] by (simp add: list_credentials_creds_of)
  then show ?thesis
    unfolding verify_authentication_fst
    by (auto simp: count_ok_def dest!: bspec elim!: le_less_trans)
qed

theorem sign_counts_increase_witness:
  "sorted_wrt (>) [7, 4 :: u32]
   \<and> fst (verify_authentication sample_webauthn sample_config ''u'' ''c'' (sample_data 7)
       ''webauthn.get'' [1] (sample_verifier 7)) \<noteq> Inr ()"
  using sign_counts_increase [OF sample_history(2), of "''u''" "[1]" "''c''" "sample_data 7" "''webauthn.get''"]
  by (auto simp: sample_credential_def sample_data_def)

text \<open>
  Challenge keys are kept apart. Under one relying party the key a challenge is stored under
  determines the operation and the user, whatever characters the user identifier holds: a
  challenge for one operation or user is never looked up under the key of another.
\<close>

theorem challenge_keys_distinct:
  assumes "CHR '':'' \<notin> set op\<^sub>1" and "CHR '':'' \<notin> set op\<^sub>2"
  shows "challenge_key op\<^sub>1 rp u\<^sub>1 = challenge_key op\<^sub>2 rp u\<^sub>2 \<longleftrightarrow> op\<^sub>1 = op\<^sub>2 \<and> u\<^sub>1 = u\<^sub>2"
proof
  assume "challenge_key op\<^sub>1 rp u\<^sub>1 = challenge_key op\<^sub>2 rp u\<^sub>2"
  then have "op\<^sub>1 @ CHR '':'' # (rp @ CHR '':'' # u\<^sub>1) = op\<^sub>2 @ CHR '':'' # (rp @ CHR '':'' # u\<^sub>2)"
    by (simp add: challenge_key_def)
  then have "split_once CHR '':'' (op\<^sub>1 @ CHR '':'' # (rp @ CHR '':'' # u\<^sub>1)) =
      split_once CHR '':'' (op\<^sub>2 @ CHR '':'' # (rp @ CHR '':'' # u\<^sub>2))"
    by (rule arg_cong)
  then show "op\<^sub>1 = op\<^sub>2 \<and> u\<^sub>1 = u\<^sub>2"
    using assms by (simp add: str_simps)
qed simp

theorem challenge_keys_distinct_witness:
  "challenge_key ''create'' ''a:b'' ''u'' \<noteq> challenge_key ''get'' ''a:b'' ''u''"
  using challenge_keys_distinct [of "''create''" "''get''" "''a:b''" "''u''" "''u''"] by simp

end
