(* ===== verification/Webauthn_Registry.thy ===== *)
theory Webauthn_Registry
  imports Webauthn
begin

text \<open>
  The credential registry of \<open>src/webauthn.rs\<close> as data: what makes it well formed, call by call,
  and where the credentials in it come from.
\<close>

section \<open>Well-formed registries\<close>

text \<open>
  A hash map with one entry per user, no entry of an empty list, and no identifier twice in all
  of it.
\<close>

definition verifier_wf :: "'s verifier \<Rightarrow> bool" where
  "verifier_wf v \<longleftrightarrow> hm_inv (credentials v) \<and> ids_unique (credentials v)
     \<and> list_all (\<lambda>(u, cs). cs \<noteq> []) (credentials v)"

lemma no_empty_insert:
  "list_all (\<lambda>(u, cs). cs \<noteq> []) m \<Longrightarrow> cs \<noteq> [] \<Longrightarrow> list_all (\<lambda>(u, cs). cs \<noteq> []) (hm_insert u cs m)"
  by (induction m) (auto simp: hm_insert_def)

lemma set_sign_count_Nil [simp]: "set_sign_count cid n cs = [] \<longleftrightarrow> cs = []"
  by (cases cs) auto

lemma verifier_wf_credentials: "credentials v' = credentials v \<Longrightarrow> verifier_wf v' \<longleftrightarrow> verifier_wf v"
  by (simp add: verifier_wf_def)

lemma verifier_wf_add:
  assumes "verifier_wf v" and "\<not> credential_exists (credential_id c) (credentials v)"
    and "credentials v' = add_credential u c (credentials v)"
  shows "verifier_wf v'"
  using assms hm_inv_add [of "credentials v" u c]
  by (simp add: verifier_wf_def ids_unique_add) (simp add: add_credential_def no_empty_insert)

lemma verifier_wf_bump:
  assumes "verifier_wf v" and "find_credential cid (list_credentials u v) = Some c"
    and "credentials v' = hm_insert u (set_sign_count cid n (list_credentials u v)) (credentials v)"
  shows "verifier_wf v'"
proof -
  obtain cs where "hm_get (credentials v) u = Some cs"
    using assms(2) by (cases "hm_get (credentials v) u") (auto simp: list_credentials_def)
  moreover from this have "list_credentials u v = cs"
    by (simp add: list_credentials_def)
  moreover from this have "cs \<noteq> []"
    using assms(2) by auto
  ultimately show ?thesis
    using assms(1,3) by (simp add: verifier_wf_def ids_unique_set_sign_count no_empty_insert hm_inv_insert)
qed

lemma verifier_wf_registration:
  assumes "verifier_wf v" and "verify_registration w cfg now u chal ad json cid pk v = (r, v')"
  shows "verifier_wf v'"
proof (cases r)
  case (Inl e)
  from verify_registration_Inl [OF assms(2) [unfolded Inl]] show ?thesis
    using assms(1) verifier_wf_credentials by blast
next
  case (Inr c)
  then have "credentials v' = add_credential u c (credentials v)"
    and "\<not> credential_exists (credential_id c) (credentials v)"
    using assms(2) by (auto simp: verify_registration_Inr)
  then show ?thesis
    using verifier_wf_add [OF assms(1)] by blast
qed

lemma verifier_wf_authentication:
  assumes "verifier_wf v" and "verify_authentication w cfg u chal ad json cid v = (r, v')"
  shows "verifier_wf v'"
  using assms(2)
proof (cases rule: verify_authentication_effect)
  case (unchanged e)
  then show ?thesis
    using assms(1) verifier_wf_credentials by blast
next
  case (bumped c)
  then show ?thesis
    using verifier_wf_bump [OF assms(1)] by blast
qed

section \<open>Where stored credentials come from\<close>

definition stored_from :: "webauthn_event list \<Rightarrow> string \<Rightarrow> webauthn_credential \<Rightarrow> bool" where
  "stored_from evs u c \<longleftrightarrow> (\<exists>c0. Registered u c0 \<in> set evs \<and> credential_id c = credential_id c0
     \<and> public_key c = public_key c0 \<and> created_at c = created_at c0 \<and> label c = None
     \<and> (cred_sign_count c = cred_sign_count c0
        \<or> Authenticated u (credential_id c) (cred_sign_count c) \<in> set evs \<or> public_key c = []))"

lemma set_set_sign_count:
  "c \<in> set (set_sign_count cid n cs) \<Longrightarrow> c \<in> set cs
     \<or> (\<exists>c' \<in> set cs. find_credential cid cs = Some c' \<and> c = c'\<lparr>cred_sign_count := n\<rparr>)"
  by (induction cs) (auto split: if_splits)

lemma stored_from_more: "stored_from evs u c \<Longrightarrow> stored_from (ev # evs) u c"
  by (auto simp: stored_from_def)

lemma stored_from_bump:
  assumes "stored_from evs u c" and "public_key c = [] \<or> Authenticated u (credential_id c) n \<in> set evs"
  shows "stored_from evs u (c\<lparr>cred_sign_count := n\<rparr>)"
  using assms by (auto simp: stored_from_def)

lemma stored_from_insert:
  assumes "\<And>c u'. c \<in> set (list_credentials u' v) \<Longrightarrow> stored_from evs u' c"
    and "find_credential cid (list_credentials u v) = Some c0"
    and "public_key c0 = [] \<or> Authenticated u cid n \<in> set evs"
    and "credentials v' = hm_insert u (set_sign_count cid n (list_credentials u v)) (credentials v)"
    and "c \<in> set (list_credentials u' v')"
  shows "stored_from evs u' c"
proof (cases "u' = u")
  case True
  then have "c \<in> set (set_sign_count cid n (list_credentials u v))"
    using assms(4,5) by (simp add: list_credentials_creds_of)
  then show ?thesis
    using set_set_sign_count [of c cid n "list_credentials u v"] assms(1-3) True
      stored_from_bump [of evs u c0 n] find_credential_Some [OF assms(2)]
    by auto
next
  case False
  then show ?thesis
    using assms(1,4,5) by (simp add: list_credentials_creds_of)
qed

lemma stored_history:
  "verifier_history w cfg evs v \<Longrightarrow> c \<in> set (list_credentials u v) \<Longrightarrow> stored_from evs u c"
proof (induction arbitrary: c u rule: verifier_history.induct)
  case (new st)
  then show ?case
    by (simp add: list_credentials_def verifier_new_def)
next
  case (registered evs v now u' chal ad json cid pk c' v')
  then show ?case
  proof (cases "c \<in> set (list_credentials u v)")
    case True
    then show ?thesis
      using registered.IH stored_from_more by blast
  next
    case False
    with registered have "u' = u" "c = c'" "label c' = None"
      by (auto simp: verify_registration_Inr list_credentials_add split: if_splits)
    then show ?thesis
      unfolding stored_from_def by (intro exI [of _ c']) simp
  qed
next
  case (not_registered evs v now u' chal ad json cid pk e v')
  then show ?case
    using list_credentials_cong [OF verify_registration_Inl [OF not_registered.hyps(2)]] by simp
next
  case (authenticated evs v u' chal ad json cid v')
  let ?evs = "Authenticated u' cid (sign_count ad) # evs"
  obtain c0 where "find_credential cid (list_credentials u' v) = Some c0"
    and "credentials v' = hm_insert u' (set_sign_count cid (sign_count ad) (list_credentials u' v)) (credentials v)"
    using authenticated.hyps(2) by (auto simp: verify_authentication_Inr)
  then show ?case
    using stored_from_insert [of v ?evs cid u' c0 "sign_count ad" v' c u] authenticated.IH
      authenticated.prems stored_from_more by simp
next
  case (not_authenticated evs v u' chal ad json cid e v')
  from verify_authentication_Inl [OF not_authenticated.hyps(2)] show ?case
  proof
    assume "credentials v' = credentials v"
    then show ?thesis
      using not_authenticated list_credentials_cong [of v' v u] by simp
  next
    assume "\<exists>c0. find_credential cid (list_credentials u' v) = Some c0 \<and> cred_sign_count c0 < sign_count ad
      \<and> public_key c0 = [] \<and> e = CredentialNotFound \<and> credentials v' =
        hm_insert u' (set_sign_count cid (sign_count ad) (list_credentials u' v)) (credentials v)"
    then show ?thesis
      using stored_from_insert [of v evs cid u' _ "sign_count ad" v' c u] not_authenticated by blast
  qed
qed simp

section \<open>Properties\<close>

text \<open>
  C33. The registry stays well formed. A new verifier is well formed, and every operation keeps it
  so, whether it accepts or fails: one entry per user, no empty list, no credential identifier
  twice among all users.
\<close>

theorem verifier_wf_preserved:
  assumes "verifier_wf v"
  shows "verifier_wf (verifier_new st)
    \<and> verifier_wf (snd (generate_challenge w cfg getrandom u operation v))
    \<and> verifier_wf (snd (verify_registration w cfg now u chal ad json cid pk v))
    \<and> verifier_wf (snd (verify_authentication w cfg u chal ad json cid v))"
proof -
  have "verifier_wf (verifier_new st)"
    by (simp add: verifier_wf_def verifier_new_def ids_unique_def all_creds_def)
  moreover have "credentials (snd (generate_challenge w cfg getrandom u operation v)) = credentials v"
    by (auto simp: generate_challenge_def Let_def split: outcome.splits prod.splits sum.splits)
  then have "verifier_wf (snd (generate_challenge w cfg getrandom u operation v))"
    using assms verifier_wf_credentials by blast
  ultimately show ?thesis
    using verifier_wf_registration [OF assms surjective_pairing]
      verifier_wf_authentication [OF assms surjective_pairing] by blast
qed

theorem verifier_wf_preserved_witness:
  "verifier_wf (sample_verifier 7)"
proof -
  have "verifier_wf (sample_verifier 4)"
    by (simp add: sample_verifier_def verifier_wf_def ids_unique_def all_creds_def hm_inv_def)
  from verifier_wf_preserved [OF this, of "()" sample_webauthn sample_config None "''u''" "''get''" "''now''"
      "''c''" "sample_data 7" "''webauthn.get''" "[1]" "[9]"]
  show ?thesis
    using sample_authentication by simp
qed

text \<open>
  Every stored credential was registered. After any history, a credential in the list of a
  user carries the identifier, the key and the creation time of a credential this user registered,
  and no label; its counter is the one it was registered with, or one an accepted assertion of this
  user with this credential showed, unless its key is empty (which \<open>verify_registration\<close> lets through).
\<close>

theorem stored_credentials_registered:
  assumes "verifier_history w cfg evs v" and "c \<in> set (list_credentials u v)"
  shows "\<exists>c0. Registered u c0 \<in> set evs \<and> credential_id c = credential_id c0
     \<and> public_key c = public_key c0 \<and> created_at c = created_at c0 \<and> label c = None
     \<and> (cred_sign_count c = cred_sign_count c0
        \<or> Authenticated u (credential_id c) (cred_sign_count c) \<in> set evs \<or> public_key c = [])"
  using stored_history [OF assms] by (simp add: stored_from_def)

theorem stored_credentials_registered_witness:
  "\<exists>c0. Registered ''u'' c0 \<in> {Registered ''u'' sample_credential} \<and> credential_id c0 = [1]"
proof -
  let ?c = "\<lparr>credential_id = [1], public_key = [9], cred_sign_count = 7, label = None, created_at = ''now''\<rparr>"
  have "?c \<in> set (list_credentials ''u'' (sample_verifier 7))"
    by (simp add: sample_verifier_def list_credentials_def hm_get_def)
  from stored_credentials_registered [OF sample_history(2) this] show ?thesis
    by auto
qed

end
