(* ===== verification/Webauthn_Table.thy ===== *)
theory Webauthn_Table
  imports Webauthn Simulation_Locale
begin

text \<open>
  The whole verifier of \<open>src/webauthn.rs\<close> against a flat table. The code keeps a hash map from
  users to vectors of credentials, searches all vectors for a duplicate and one vector for an
  assertion. The specification is one table with a row per credential, in order of
  registration, keyed by the credential identifier alone; the checks before the registry are a
  gate that names the first one that fails. The two give the same replies to every sequence of
  calls, over any challenge store.
\<close>

section \<open>Calls\<close>

datatype ceremony_call =
    Challenge "u8 list option" string string
  | Register string string string authenticator_data string "u8 list" "u8 list"
  | Authenticate string string authenticator_data string "u8 list"
  | Listing string

datatype 'e ceremony_reply =
    Challenged "('e webauthn_error + string) outcome"
  | Registration "'e webauthn_error + webauthn_credential"
  | Authentication "'e webauthn_error + unit"
  | Listed "webauthn_credential list"

text \<open>
  Each call comes with the environment it runs in: the clock the store reads, the hash function
  and the parser may differ from call to call.
\<close>

fun verifier_step :: "webauthn_config \<Rightarrow> ('e, 's, 'r) webauthn_env \<times> ceremony_call \<Rightarrow> 's verifier
    \<Rightarrow> 'e ceremony_reply \<times> 's verifier" where
  "verifier_step cfg (w, Challenge g u op) v =
     map_prod Challenged id (generate_challenge w cfg g u op v)"
| "verifier_step cfg (w, Register now u chal ad json cid pk) v =
     map_prod Registration id (verify_registration w cfg now u chal ad json cid pk v)"
| "verifier_step cfg (w, Authenticate u chal ad json cid) v =
     map_prod Authentication id (verify_authentication w cfg u chal ad json cid v)"
| "verifier_step cfg (w, Listing u) v = (Listed (list_credentials u v), v)"

text \<open>
  The question a call puts to the challenge store: the key it looks under and the challenge it
  presents. \<open>store_answer\<close> is what the store says, in the state it is in at the call.
\<close>

fun challenge_asked :: "webauthn_config \<Rightarrow> ceremony_call \<Rightarrow> (string \<times> string) option" where
  "challenge_asked cfg (Register now u chal ad json cid pk) =
     Some (challenge_key ''create'' (rp_id cfg) u, chal)"
| "challenge_asked cfg (Authenticate u chal ad json cid) =
     Some (challenge_key ''get'' (rp_id cfg) u, chal)"
| "challenge_asked cfg _ = None"

fun store_answer :: "webauthn_config \<Rightarrow> ('e, 's, 'r) webauthn_env \<times> ceremony_call \<Rightarrow> 's verifier
    \<Rightarrow> (session_store_error + 'r) option" where
  "store_answer cfg (w, c) v = map_option
     (\<lambda>(k, chal). fst (challenge_verify w k chal ''webauthn-challenge'' (session_store v)))
     (challenge_asked cfg c)"

section \<open>The table\<close>

type_synonym rows = "(string \<times> webauthn_credential) list"

record 's table =
  table_store :: 's
  rows :: rows

definition table_new :: "'s \<Rightarrow> 's table" where
  "table_new st = \<lparr>table_store = st, rows = []\<rparr>"

definition row_creds :: "rows \<Rightarrow> string \<Rightarrow> webauthn_credential list" where
  "row_creds rs u = map snd (filter (\<lambda>(u', c). u' = u) rs)"

fun find_row :: "u8 list \<Rightarrow> rows \<Rightarrow> (string \<times> webauthn_credential) option" where
  "find_row cid [] = None"
| "find_row cid (r # rs) = (if credential_id (snd r) = cid then Some r else find_row cid rs)"

definition set_row :: "u8 list \<Rightarrow> u32 \<Rightarrow> rows \<Rightarrow> rows" where
  "set_row cid n rs = map (\<lambda>(u, c). (u, if credential_id c = cid then c\<lparr>cred_sign_count := n\<rparr> else c)) rs"

text \<open>The checks of the arguments, in order, and the challenge: what stops a ceremony first.\<close>

definition require :: "bool \<Rightarrow> 'a \<Rightarrow> 'a option" where
  "require b err = (if b then None else Some err)"

definition ceremony_gate ::
  "('e, 's, 'r) webauthn_env \<Rightarrow> webauthn_config \<Rightarrow> string \<Rightarrow> string \<Rightarrow> bool \<Rightarrow> string \<Rightarrow> string
     \<Rightarrow> authenticator_data \<Rightarrow> string \<Rightarrow> 's \<Rightarrow> 'e webauthn_error option \<times> 's" where
  "ceremony_gate w cfg type operation verified u chal ad json st =
     (case or_else (rp_id_hash_check w cfg ad)
            (or_else (require (up (flags ad)) UserPresenceNotSet)
            (or_else (require (verified \<longrightarrow> uv (flags ad)) UserVerificationNotSet)
               (client_data_check w cfg type chal json))) of
        Some err \<Rightarrow> (Some err, st)
      | None \<Rightarrow> map_prod (case_sum (\<lambda>err. Some (SessionStoreErr err)) (\<lambda>_. None)) id
          (challenge_verify w (challenge_key operation (rp_id cfg) u) chal ''webauthn-challenge'' st))"

fun table_step :: "webauthn_config \<Rightarrow> ('e, 's, 'r) webauthn_env \<times> ceremony_call \<Rightarrow> 's table
    \<Rightarrow> 'e ceremony_reply \<times> 's table" where
  "table_step cfg (w, Challenge g u op) t =
     (let (r, v) = generate_challenge w cfg g u op (verifier_new (table_store t))
      in (Challenged r, t\<lparr>table_store := session_store v\<rparr>))"
| "table_step cfg (w, Register now u chal ad json cid pk) t =
     (let (refused, st) =
            ceremony_gate w cfg ''webauthn.create'' ''create'' True u chal ad json (table_store t);
          t = t\<lparr>table_store := st\<rparr>
      in case refused of
           Some err \<Rightarrow> (Registration (Inl err), t)
         | None \<Rightarrow>
             if find_row cid (rows t) \<noteq> None then (Registration (Inl CredentialAlreadyExists), t)
             else let c = \<lparr>credential_id = cid, public_key = pk, cred_sign_count = sign_count ad,
                           label = None, created_at = now\<rparr>
                  in (Registration (Inr c), t\<lparr>rows := rows t @ [(u, c)]\<rparr>))"
| "table_step cfg (w, Authenticate u chal ad json cid) t =
     (let (refused, st) =
            ceremony_gate w cfg ''webauthn.get'' ''get'' False u chal ad json (table_store t);
          t = t\<lparr>table_store := st\<rparr>
      in case refused of
           Some err \<Rightarrow> (Authentication (Inl err), t)
         | None \<Rightarrow>
             (case find_row cid (rows t) of
                None \<Rightarrow> (Authentication (Inl CredentialNotFound), t)
              | Some (owner, c) \<Rightarrow>
                  if owner = u \<and> cred_sign_count c < sign_count ad
                  then (Authentication (if public_key c = [] then Inl CredentialNotFound else Inr ()),
                        t\<lparr>rows := set_row cid (sign_count ad) (rows t)\<rparr>)
                  else (Authentication (Inl CredentialNotFound), t)))"
| "table_step cfg (w, Listing u) t = (Listed (row_creds (rows t) u), t)"

section \<open>Simulation\<close>

definition row_id :: "string \<times> webauthn_credential \<Rightarrow> u8 list" where
  "row_id r = credential_id (snd r)"

definition table_rel :: "'s verifier \<Rightarrow> 's table \<Rightarrow> bool" where
  "table_rel v t \<longleftrightarrow> session_store v = table_store t \<and> hm_inv (credentials v)
     \<and> distinct (map row_id (rows t)) \<and> (\<forall>u. creds_of (credentials v) u = row_creds (rows t) u)"

lemma find_row_None: "find_row cid rs = None \<longleftrightarrow> cid \<notin> row_id ` set rs"
  by (induction rs) (auto simp: row_id_def)

lemma find_row_Some: "find_row cid rs = Some r \<Longrightarrow> r \<in> set rs \<and> row_id r = cid"
  by (induction rs) (auto simp: row_id_def split: if_splits)

lemma find_credential_row:
  "distinct (map row_id rs) \<Longrightarrow> find_credential cid (row_creds rs u) =
     (case find_row cid rs of None \<Rightarrow> None | Some (u', c) \<Rightarrow> if u' = u then Some c else None)"
proof (induction rs)
  case (Cons r rs)
  have "find_credential cid (row_creds rs u) = None" if "credential_id (snd r) = cid"
    using Cons that by (auto simp: row_id_def find_row_None [symmetric, unfolded row_id_def])
  with Cons show ?case
    by (cases r) (auto simp: row_creds_def)
qed (simp add: row_creds_def)

lemma row_ids_set_row [simp]: "map row_id (set_row cid n rs) = map row_id rs"
  by (induction rs) (auto simp: set_row_def row_id_def)

lemma set_row_absent: "cid \<notin> row_id ` set rs \<Longrightarrow> set_row cid n rs = rs"
  by (induction rs) (auto simp: set_row_def row_id_def)

lemma set_sign_count_absent: "cid \<notin> credential_id ` set cs \<Longrightarrow> set_sign_count cid n cs = cs"
  by (induction cs) auto

lemma row_creds_ids: "credential_id ` set (row_creds rs u) \<subseteq> row_id ` set rs"
  by (auto simp: row_creds_def row_id_def)

lemma row_creds_set_row:
  "distinct (map row_id rs) \<Longrightarrow> find_row cid rs = Some (u, c) \<Longrightarrow>
     row_creds (set_row cid n rs) u' =
       (if u' = u then set_sign_count cid n (row_creds rs u) else row_creds rs u')"
proof (induction rs)
  case (Cons r rs)
  obtain v d where r: "r = (v, d)"
    by fastforce
  show ?case
  proof (cases "credential_id d = cid")
    case True
    then have absent: "cid \<notin> row_id ` set rs"
      using Cons.prems(1) by (auto simp: r row_id_def)
    with True Cons.prems show ?thesis
      using set_row_absent [OF absent, of n]
      by (auto simp: r row_creds_def set_row_def)
  next
    case False
    with Cons show ?thesis
      by (auto simp: r row_creds_def set_row_def)
  qed
qed simp

lemma credential_exists_row:
  assumes "table_rel v t"
  shows "credential_exists cid (credentials v) \<longleftrightarrow> find_row cid (rows t) \<noteq> None"
proof -
  have "credential_exists cid (credentials v) \<longleftrightarrow> (\<exists>u. cid \<in> credential_id ` set (row_creds (rows t) u))"
    using assms credential_exists_user [of "credentials v" cid] by (simp add: table_rel_def)
  also have "\<dots> \<longleftrightarrow> cid \<in> row_id ` set (rows t)"
    by (force simp: row_creds_def row_id_def image_iff)
  finally show ?thesis
    by (simp add: find_row_None)
qed

lemma registration_gate:
  "verify_registration w cfg now u chal ad json cid pk v =
     (let (refused, st) =
            ceremony_gate w cfg ''webauthn.create'' ''create'' True u chal ad json (session_store v);
          v = v\<lparr>session_store := st\<rparr>
      in case refused of
           Some err \<Rightarrow> (Inl err, v)
         | None \<Rightarrow>
             if credential_exists cid (credentials v) then (Inl CredentialAlreadyExists, v)
             else let c = \<lparr>credential_id = cid, public_key = pk, cred_sign_count = sign_count ad,
                           label = None, created_at = now\<rparr>
                  in (Inr c, v\<lparr>credentials := add_credential u c (credentials v)\<rparr>))"
  by (simp add: verify_registration_def ceremony_gate_def require_def or_else_def Let_def split_beta
      split: option.split sum.split prod.split)

lemma authentication_gate:
  "verify_authentication w cfg u chal ad json cid v =
     (let (refused, st) =
            ceremony_gate w cfg ''webauthn.get'' ''get'' False u chal ad json (session_store v);
          v = v\<lparr>session_store := st\<rparr>
      in case refused of
           Some err \<Rightarrow> (Inl err, v)
         | None \<Rightarrow>
             (case find_credential cid (creds_of (credentials v) u) of
                None \<Rightarrow> (Inl CredentialNotFound, v)
              | Some c \<Rightarrow>
                  if cred_sign_count c < sign_count ad
                  then (if public_key c = [] then Inl CredentialNotFound else Inr (),
                        v\<lparr>credentials := hm_insert u
                            (set_sign_count cid (sign_count ad) (creds_of (credentials v) u))
                            (credentials v)\<rparr>)
                  else (Inl CredentialNotFound, v)))"
  by (auto simp: verify_authentication_def ceremony_gate_def require_def or_else_def Let_def split_beta
      creds_of_def verify_signature_def not_less split: option.split sum.split prod.split)

lemma table_rel_store:
  "table_rel v t \<Longrightarrow> table_rel (v\<lparr>session_store := st\<rparr>) (t\<lparr>table_store := st\<rparr>)"
  by (simp add: table_rel_def)

lemma challenge_simulated:
  assumes "table_rel v t"
  shows "fst (verifier_step cfg (w, Challenge g u op) v) = fst (table_step cfg (w, Challenge g u op) t)
    \<and> table_rel (snd (verifier_step cfg (w, Challenge g u op) v))
        (snd (table_step cfg (w, Challenge g u op) t))"
  using assms
  by (auto simp: generate_challenge_def verifier_new_def table_rel_def Let_def
      split: outcome.split sum.split prod.split)

lemma register_simulated:
  assumes R: "table_rel v t" and c: "c = Register now u chal ad json cid pk"
  shows "fst (verifier_step cfg (w, c) v) = fst (table_step cfg (w, c) t)
    \<and> table_rel (snd (verifier_step cfg (w, c) v)) (snd (table_step cfg (w, c) t))"
proof -
  obtain refused st where g: "ceremony_gate w cfg ''webauthn.create'' ''create'' True u chal ad json
      (session_store v) = (refused, st)"
    by fastforce
  have same: "session_store v = table_store t"
    using R by (simp add: table_rel_def)
  have add: "table_rel (v\<lparr>session_store := st, credentials := add_credential u d (credentials v)\<rparr>)
      (t\<lparr>table_store := st, rows := rows t @ [(u, d)]\<rparr>)"
    if "find_row (credential_id d) (rows t) = None" for d
    using R that by (auto simp: table_rel_def hm_inv_add find_row_None row_creds_def row_id_def)
  show ?thesis
  proof (cases refused)
    case None
    then show ?thesis
      using add [of "\<lparr>credential_id = cid, public_key = pk, cred_sign_count = sign_count ad,
          label = None, created_at = now\<rparr>"] g credential_exists_row [OF R, of cid] table_rel_store [OF R]
      by (cases "find_row cid (rows t)") (simp_all add: c registration_gate same [symmetric] Let_def)
  next
    case (Some err)
    then show ?thesis
      using g table_rel_store [OF R]
      by (simp add: c registration_gate same [symmetric] Let_def)
  qed
qed

lemma authenticate_simulated:
  assumes R: "table_rel v t" and c: "c = Authenticate u chal ad json cid"
  shows "fst (verifier_step cfg (w, c) v) = fst (table_step cfg (w, c) t)
    \<and> table_rel (snd (verifier_step cfg (w, c) v)) (snd (table_step cfg (w, c) t))"
proof -
  obtain refused st where g: "ceremony_gate w cfg ''webauthn.get'' ''get'' False u chal ad json
      (session_store v) = (refused, st)"
    by fastforce
  have same: "session_store v = table_store t" and creds: "creds_of (credentials v) u = row_creds (rows t) u"
    and dist: "distinct (map row_id (rows t))"
    using R by (simp_all add: table_rel_def)
  have bump: "table_rel (v\<lparr>session_store := st, credentials :=
        hm_insert u (set_sign_count cid n (row_creds (rows t) u)) (credentials v)\<rparr>)
      (t\<lparr>table_store := st, rows := set_row cid n (rows t)\<rparr>)"
    if "find_row cid (rows t) = Some (u, d)" for d n
    using R by (auto simp: table_rel_def hm_inv_insert row_creds_set_row [OF dist that])
  show ?thesis
  proof (cases refused)
    case None
    then show ?thesis
      using g bump table_rel_store [OF R, of st]
      by (cases "find_row cid (rows t)")
        (auto simp: c authentication_gate same [symmetric] creds find_credential_row [OF dist] Let_def)
  next
    case (Some err)
    then show ?thesis
      using g table_rel_store [OF R]
      by (simp add: c authentication_gate same [symmetric] Let_def)
  qed
qed

interpretation tbl: lockstep "verifier_step cfg" "table_step cfg" table_rel "\<lambda>_ _. True" for cfg
proof
  fix v :: "'s verifier" and t :: "'s table" and q :: "('e, 's, 'r) webauthn_env \<times> ceremony_call"
  assume R: "table_rel v t"
  obtain w c where q: "q = (w, c)"
    by fastforce
  have "fst (verifier_step cfg (w, c) v) = fst (table_step cfg (w, c) t)
    \<and> table_rel (snd (verifier_step cfg (w, c) v)) (snd (table_step cfg (w, c) t))"
    using R by (cases c)
      (metis challenge_simulated, metis register_simulated, metis authenticate_simulated,
        simp add: table_rel_def list_credentials_creds_of)
  then show "fst (verifier_step cfg q v) = fst (table_step cfg q t)"
    and "table_rel (snd (verifier_step cfg q v)) (snd (table_step cfg q t))"
    by (simp_all add: q)
qed

lemma table_rel_new: "table_rel (verifier_new st) (table_new st)"
  by (simp add: table_rel_def verifier_new_def table_new_def creds_of_def row_creds_def)

lemma admitted_all: "admitted (\<lambda>_ _. True) f cs a"
  by (induction cs arbitrary: a) simp_all

section \<open>Properties\<close>

text \<open>
  C6. The verifier is a flat table. For every configuration, challenge store, JSON parser and hash
  function, which may change from call to call, and for every sequence of \<open>generate_challenge\<close>, \<open>verify_registration\<close>,
  \<open>verify_authentication\<close> and \<open>list_credentials\<close> calls on a new verifier, the replies (each
  error among them) are those of one table of credentials keyed by identifier, whose rows belong
  to their owner, are appended by a registration and have their counter replaced by an
  assertion with a higher one; so is the state of the challenge store after the calls.
\<close>

theorem verifier_refines_table:
  "replies (verifier_step cfg) cs (verifier_new st) = replies (table_step cfg) cs (table_new st)
   \<and> session_store (final (verifier_step cfg) cs (verifier_new st)) =
       table_store (final (table_step cfg) cs (table_new st))"
  using tbl.run_simulated [OF table_rel_new admitted_all, of cfg cs st]
  by (simp add: table_rel_def)

end
