(* ===== verification/Webauthn_Challenges.thy ===== *)
theory Webauthn_Challenges
  imports Webauthn_Table
begin

text \<open>
  The challenges of the verifier of \<open>src/webauthn.rs\<close>: when a call turns to the challenge store and
  what it leaves of it, and what follows for a whole sequence of calls from what the file says of
  that store, that a check verifies and consumes. The store is a parameter: the methods the file
  calls, with a kind and a TTL, are not those of the trait in the repository.
\<close>

section \<open>The store after a verification\<close>

lemma verify_registration_store:
  "session_store (snd (verify_registration w cfg now u chal ad json cid pk v)) =
     (if rp_id_hash ad = sha256 w (as_bytes (rp_id cfg)) \<and> up (flags ad) \<and> uv (flags ad)
         \<and> client_data_ok w cfg ''webauthn.create'' chal json
      then snd (challenge_verify w (challenge_key ''create'' (rp_id cfg) u) chal ''webauthn-challenge''
             (session_store v))
      else session_store v)"
  unfolding rp_id_hash_check_None [symmetric] client_data_check_None [symmetric]
  by (auto simp: verify_registration_def Let_def split: option.splits prod.splits sum.splits)

lemma verify_authentication_store:
  "session_store (snd (verify_authentication w cfg u chal ad json cid v)) =
     (if rp_id_hash ad = sha256 w (as_bytes (rp_id cfg)) \<and> up (flags ad)
         \<and> client_data_ok w cfg ''webauthn.get'' chal json
      then snd (challenge_verify w (challenge_key ''get'' (rp_id cfg) u) chal ''webauthn-challenge''
             (session_store v))
      else session_store v)"
  unfolding rp_id_hash_check_None [symmetric] client_data_check_None [symmetric]
  by (auto simp: verify_authentication_def Let_def split: option.splits prod.splits sum.splits)

section \<open>What the file expects of the store\<close>

text \<open>
  \<open>pending\<close> is what the store still accepts, one challenge to a key. Binding makes a challenge
  pending and nothing else; a check answers \<open>Ok\<close> for a pending challenge only, and then it is
  pending no longer (``verify and consume'', the comments before the two calls of \<open>verify_state\<close>;
  the test of a replayed challenge expects the same). A store may forget at any time, as one with a
  TTL does.
\<close>

definition consumes_challenges :: "('s \<Rightarrow> string \<Rightarrow> string option) \<Rightarrow> ('e, 's, 'r) webauthn_env \<Rightarrow> bool" where
  "consumes_challenges pending w \<longleftrightarrow>
     (\<forall>k chal kind secs st. case challenge_bind w k chal kind secs st of (r, st') \<Rightarrow>
        pending st' \<subseteq>\<^sub>m (if r = Ret (Inr ()) then (pending st)(k \<mapsto> chal) else pending st))
     \<and> (\<forall>k chal kind st. case challenge_verify w k chal kind st of
          (Inl err, st') \<Rightarrow> pending st' \<subseteq>\<^sub>m pending st
        | (Inr _, st') \<Rightarrow> pending st k = Some chal \<and> pending st' \<subseteq>\<^sub>m (pending st)(k := None))"

lemma map_leD: "m \<subseteq>\<^sub>m m' \<Longrightarrow> m k = Some x \<Longrightarrow> m' k = Some x"
  by (force simp: map_le_def)

lemma bind_pending:
  assumes "consumes_challenges pending w" and "challenge_bind w k chal kind secs st = (r, st')"
    and "pending st' k' = Some chal'"
  shows "pending st k' = Some chal' \<or> (r = Ret (Inr ()) \<and> k' = k \<and> chal' = chal)"
proof -
  have "pending st' \<subseteq>\<^sub>m (if r = Ret (Inr ()) then (pending st)(k \<mapsto> chal) else pending st)"
    using assms(1,2)
    unfolding consumes_challenges_def by (metis (mono_tags, lifting) case_prod_conv)
  then have "(if r = Ret (Inr ()) then (pending st)(k \<mapsto> chal) else pending st) k' = Some chal'"
    using assms(3) by (rule map_leD)
  then show ?thesis
    by (auto split: if_splits)
qed

lemma verify_pending:
  assumes "consumes_challenges pending w" and "challenge_verify w k chal kind st = (r, st')"
  shows "pending st' k' = Some chal' \<Longrightarrow> pending st k' = Some chal'"
    and "r = Inr a \<Longrightarrow> pending st k = Some chal \<and> pending st' k = None"
proof -
  have *: "case r of Inl err \<Rightarrow> pending st' \<subseteq>\<^sub>m pending st
      | Inr _ \<Rightarrow> pending st k = Some chal \<and> pending st' \<subseteq>\<^sub>m (pending st)(k := None)"
    using assms unfolding consumes_challenges_def by (metis (mono_tags, lifting) case_prod_conv)
  show "pending st k' = Some chal'" if "pending st' k' = Some chal'"
    using * that by (cases r) (auto dest: map_leD split: if_splits)
  show "pending st k = Some chal \<and> pending st' k = None" if "r = Inr a"
  proof -
    from * that have "pending st k = Some chal" and le: "pending st' \<subseteq>\<^sub>m (pending st)(k := None)"
      by simp_all
    moreover have "pending st' k = None"
      using map_leD [OF le, of k] by (cases "pending st' k") auto
    ultimately show ?thesis
      by simp
  qed
qed

section \<open>Challenges issued and used\<close>

text \<open>Read off a call and its reply: the key and the challenge it issued, and those it got accepted.\<close>

fun issued :: "webauthn_config \<Rightarrow> ceremony_call \<Rightarrow> 'e ceremony_reply \<Rightarrow> (string \<times> string) option" where
  "issued cfg (Challenge g u op) (Challenged (Ret (Inr chal))) = Some (challenge_key op (rp_id cfg) u, chal)"
| "issued cfg _ _ = None"

fun succeeded :: "'e ceremony_reply \<Rightarrow> bool" where
  "succeeded (Registration (Inr c)) \<longleftrightarrow> True"
| "succeeded (Authentication (Inr x)) \<longleftrightarrow> True"
| "succeeded _ \<longleftrightarrow> False"

definition used :: "webauthn_config \<Rightarrow> ceremony_call \<Rightarrow> 'e ceremony_reply \<Rightarrow> (string \<times> string) option" where
  "used cfg c r = (if succeeded r then challenge_asked cfg c else None)"

text \<open>One call: what is pending after it was pending before or issued by it, and it uses up what it used.\<close>

lemma step_pending:
  assumes "consumes_challenges pending w" and "verifier_step cfg (w, c) v = (r, v')"
  shows "pending (session_store v') k = Some chal \<Longrightarrow>
      pending (session_store v) k = Some chal \<or> issued cfg c r = Some (k, chal)"
    and "used cfg c r = Some (k, chal) \<Longrightarrow>
      pending (session_store v) k = Some chal \<and> pending (session_store v') k = None"
proof -
  note V = verify_pending [OF assms(1)]
  have keep: "pending st k = Some chal" if "pending (snd (challenge_verify w k' chal' kind st)) k = Some chal"
    for k' chal' kind st
    by (rule V(1) [OF prod.collapse [symmetric] that])
  show "pending (session_store v) k = Some chal \<or> issued cfg c r = Some (k, chal)"
    if P: "pending (session_store v') k = Some chal"
  proof (cases c)
    case (Challenge g u op)
    show ?thesis
    proof (cases g)
      case None
      then show ?thesis
        using assms(2) P by (auto simp: Challenge generate_challenge_def rand_bytes_def)
    next
      case (Some bytes)
      obtain b st where b: "challenge_bind w (challenge_key op (rp_id cfg) u) (b64url_encode w bytes)
          ''webauthn-challenge'' (challenge_ttl_secs cfg) (session_store v) = (b, st)"
        by fastforce
      then have "r = Challenged (case b of Panic \<Rightarrow> Panic | Ret (Inl err) \<Rightarrow> Ret (Inl (SessionStoreErr err))
            | Ret (Inr x) \<Rightarrow> Ret (Inr (b64url_encode w bytes)))"
        and "session_store v' = st"
        using assms(2)
        by (auto simp: Challenge Some generate_challenge_def rand_bytes_def Let_def
            split: outcome.splits sum.splits)
      then show ?thesis
        using P bind_pending [OF assms(1) b, of k chal] by (auto simp: Challenge)
    qed
  next
    case (Register now u chal' ad json cid pk)
    then have "session_store v' = session_store (snd (verify_registration w cfg now u chal' ad json cid pk v))"
      using assms(2) by (auto simp: map_prod_def split: prod.splits)
    then show ?thesis
      using P keep unfolding verify_registration_store by (auto split: if_splits)
  next
    case (Authenticate u chal' ad json cid)
    then have "session_store v' = session_store (snd (verify_authentication w cfg u chal' ad json cid v))"
      using assms(2) by (auto simp: map_prod_def split: prod.splits)
    then show ?thesis
      using P keep unfolding verify_authentication_store by (auto split: if_splits)
  next
    case (Listing u)
    then show ?thesis
      using assms(2) P by auto
  qed
  show "pending (session_store v) k = Some chal \<and> pending (session_store v') k = None"
    if U: "used cfg c r = Some (k, chal)"
  proof (cases c)
    case (Register now u chal' ad json cid pk)
    with U assms(2) obtain d where "verify_registration w cfg now u chal' ad json cid pk v = (Inr d, v')"
      and "k = challenge_key ''create'' (rp_id cfg) u" "chal' = chal"
      by (auto simp: used_def map_prod_def split: if_splits prod.splits elim: succeeded.elims)
    then show ?thesis
      using V(2) by (auto simp: verify_registration_Inr)
  next
    case (Authenticate u chal' ad json cid)
    with U assms(2) have "verify_authentication w cfg u chal' ad json cid v = (Inr (), v')"
      and "k = challenge_key ''get'' (rp_id cfg) u" "chal' = chal"
      by (auto simp: used_def map_prod_def split: if_splits prod.splits elim: succeeded.elims)
    then show ?thesis
      using V(2) by (auto simp: verify_authentication_Inr)
  qed (use U in \<open>auto simp: used_def split: if_splits\<close>)
qed

text \<open>How often a pair occurs among what a run issued, or used.\<close>

definition occurrences :: "(ceremony_call \<Rightarrow> 'e ceremony_reply \<Rightarrow> (string \<times> string) option) \<Rightarrow>
    (('e, 's, 'r) webauthn_env \<times> ceremony_call) list \<Rightarrow> 'e ceremony_reply list \<Rightarrow> string \<times> string \<Rightarrow> nat" where
  "occurrences f cs rs p = length (filter (\<lambda>(c, r). f (snd c) r = Some p) (zip cs rs))"

lemma occurrences_simps [simp]:
  "occurrences f [] [] p = 0"
  "occurrences f (c # cs) (r # rs) p = (if f (snd c) r = Some p then 1 else 0) + occurrences f cs rs p"
  by (simp_all add: occurrences_def)

lemma used_at_most_issued:
  assumes "\<forall>c \<in> set cs. consumes_challenges pending (fst c)"
  shows "occurrences (used cfg) cs (replies (verifier_step cfg) cs v) (k, chal)
    \<le> (if pending (session_store v) k = Some chal then 1 else 0)
      + occurrences (issued cfg) cs (replies (verifier_step cfg) cs v) (k, chal)"
  using assms
proof (induction cs arbitrary: v)
  case (Cons c cs)
  obtain w q where c: "c = (w, q)"
    by fastforce
  obtain r v' where s: "verifier_step cfg (w, q) v = (r, v')"
    by fastforce
  have "consumes_challenges pending w"
    using Cons.prems by (simp add: c)
  note step = step_pending [OF this s, of k chal]
  have "used cfg q r = None \<or> issued cfg q r = None"
    by (cases q) (auto simp: used_def)
  with Cons.IH [of v'] Cons.prems step show ?case
    by (auto simp: c s simp del: verifier_step.simps split: if_splits)
qed simp

section \<open>Property\<close>

text \<open>
  C30. A challenge is good for one ceremony. Let the store be one that consumes what it verifies,
  as the comments of the file say, and let nothing be pending at the start. In any sequence of
  calls of any users, the registrations and assertions that were accepted with a challenge under
  the key of their operation and user are at most as many as the calls of \<open>generate_challenge\<close> that
  issued this challenge under this key: a ceremony with a challenge that was not issued for it, or
  with one used before, is refused, whatever its data and whatever calls come in between.
\<close>

theorem challenge_single_use:
  assumes "\<forall>c \<in> set cs. consumes_challenges pending (fst c)" and "pending st = Map.empty"
  shows "occurrences (used cfg) cs (replies (verifier_step cfg) cs (verifier_new st)) (k, chal)
    \<le> occurrences (issued cfg) cs (replies (verifier_step cfg) cs (verifier_new st)) (k, chal)"
  using used_at_most_issued [OF assms(1), of cfg "verifier_new st" k chal] assms(2)
  by (simp add: verifier_new_def)

text \<open>A store that holds one challenge to a key and removes it when it is verified.\<close>

definition ticket_webauthn :: "(string, string \<Rightarrow> string option, unit) webauthn_env" where
  "ticket_webauthn = \<lparr>sha256 = sha256 sample_webauthn, b64url_encode = b64url_encode sample_webauthn,
     client_data_from_json = client_data_from_json sample_webauthn,
     challenge_bind = (\<lambda>k c _ _ m. (Ret (Inr ()), m(k \<mapsto> c))),
     challenge_verify = (\<lambda>k c _ m. if m k = Some c then (Inr (), m(k := None)) else (Inl Poisoned, m))\<rparr>"

lemma ticket_consumes: "consumes_challenges (\<lambda>m. m) ticket_webauthn"
  by (auto simp: consumes_challenges_def ticket_webauthn_def map_le_def)

text \<open>One challenge, two registrations with it: the second is refused.\<close>

theorem challenge_single_use_witness:
  "occurrences (used sample_config)
     [(ticket_webauthn, Challenge (Some [1]) ''u'' ''create''),
      (ticket_webauthn, Register ''now'' ''u'' ''c'' (sample_data 4) ''webauthn.create'' [1] [9]),
      (ticket_webauthn, Register ''now'' ''u'' ''c'' (sample_data 4) ''webauthn.create'' [2] [9])]
     [Challenged (Ret (Inr ''c'')), Registration (Inr sample_credential),
      Registration (Inl (SessionStoreErr Poisoned))] (challenge_key ''create'' ''a'' ''u'', ''c'') \<le> 1"
  (is "occurrences _ ?cs ?rs ?p \<le> 1")
proof -
  have "\<forall>c \<in> set ?cs. consumes_challenges (\<lambda>m. m) (fst c)"
    by (simp add: ticket_consumes)
  note single = challenge_single_use [OF this, of Map.empty sample_config "challenge_key ''create'' ''a'' ''u''" "''c''"]
  have "replies (verifier_step sample_config) ?cs (verifier_new Map.empty) = ?rs"
    by (simp add: generate_challenge_def rand_bytes_def Let_def verify_registration_def rp_id_hash_check_def
        client_data_check_def ticket_webauthn_def sample_simps sample_credential_def verifier_new_def
        credential_exists_def add_credential_def hm_insert_def challenge_key_def)
  with single show ?thesis
    by (simp add: sample_config_def config_new_def)
qed

end
