(* ===== verification/Webauthn_Race.thy ===== *)
theory Webauthn_Race
  imports Webauthn
begin

text \<open>
  Concurrent registrations of \<open>src/webauthn.rs\<close>. \<open>verify_registration\<close> looks for the identifier
  under the read lock, drops it, and pushes the credential under the write lock: two steps, and
  steps of other calls may come between them. \<open>verify_authentication\<close> uses the registry in one
  step. A request is the user and the credential of a call
  whose earlier checks passed (these read and write nothing of the registry).
\<close>

section \<open>Interleavings\<close>

type_synonym request = "string \<times> webauthn_credential"

abbreviation request_id :: "request \<Rightarrow> u8 list" where
  "request_id r \<equiv> credential_id (snd r)"

text \<open>
  What a call did, by its index in the list of requests: it looked and found the identifier free,
  it looked and was refused, it pushed its credential. \<open>registration_run reqs evs m\<close>: the calls \<open>reqs\<close>
  have done \<open>evs\<close>, newest first, and the registry is \<open>m\<close>.
\<close>

datatype reg_event = Looked nat | Refused nat | Pushed nat

fun event_call :: "reg_event \<Rightarrow> nat" where
  "event_call (Looked i) = i"
| "event_call (Refused i) = i"
| "event_call (Pushed i) = i"

inductive registration_run :: "request list \<Rightarrow> reg_event list \<Rightarrow> registry \<Rightarrow> bool"
  for reqs :: "request list" where
  start: "registration_run reqs [] []"
| looked: "registration_run reqs evs m \<Longrightarrow> i < length reqs \<Longrightarrow> i \<notin> event_call ` set evs
    \<Longrightarrow> \<not> credential_exists (request_id (reqs ! i)) m
    \<Longrightarrow> registration_run reqs (Looked i # evs) m"
| refused: "registration_run reqs evs m \<Longrightarrow> i < length reqs \<Longrightarrow> i \<notin> event_call ` set evs
    \<Longrightarrow> credential_exists (request_id (reqs ! i)) m
    \<Longrightarrow> registration_run reqs (Refused i # evs) m"
| pushed: "registration_run reqs evs m \<Longrightarrow> Looked i \<in> set evs \<Longrightarrow> Pushed i \<notin> set evs
    \<Longrightarrow> reqs ! i = (u, c)
    \<Longrightarrow> registration_run reqs (Pushed i # evs) (add_credential u c m)"

text \<open>\<open>a\<close> happened, and later \<open>b\<close> did.\<close>

definition earlier :: "'a \<Rightarrow> 'a \<Rightarrow> 'a list \<Rightarrow> bool" where
  "earlier a b evs \<longleftrightarrow> (\<exists>xs ys. evs = xs @ b # ys \<and> a \<in> set ys)"

lemma earlier_Cons: "earlier a b (e # evs) \<longleftrightarrow> (e = b \<and> a \<in> set evs) \<or> earlier a b evs"
  unfolding earlier_def by (auto simp: Cons_eq_append_conv)

text \<open>The registry holds what was pushed, each call at most once.\<close>

fun pushes :: "reg_event list \<Rightarrow> nat list" where
  "pushes [] = []"
| "pushes (Pushed i # evs) = i # pushes evs"
| "pushes (e # evs) = pushes evs"

lemma set_pushes [simp]: "i \<in> set (pushes evs) \<longleftrightarrow> Pushed i \<in> set evs"
  by (induction evs rule: pushes.induct) auto

lemma run_pushes:
  "registration_run reqs evs m \<Longrightarrow>
     mset (map credential_id (all_creds m)) = mset (map (\<lambda>i. request_id (reqs ! i)) (pushes evs))
     \<and> distinct (pushes evs)"
  by (induction rule: registration_run.induct) (simp_all add: all_creds_def all_creds_add [unfolded all_creds_def])

lemma run_exists:
  assumes "registration_run reqs evs m"
  shows "credential_exists cid m \<longleftrightarrow> (\<exists>i. Pushed i \<in> set evs \<and> request_id (reqs ! i) = cid)"
proof -
  have "set (map credential_id (all_creds m)) = set (map (\<lambda>i. request_id (reqs ! i)) (pushes evs))"
    using run_pushes [OF assms] by (metis set_mset_mset)
  then show ?thesis
    by (auto simp: credential_exists_iff)
qed

lemma run_unique:
  assumes "registration_run reqs evs m"
  shows "ids_unique m \<longleftrightarrow> (\<forall>i j. Pushed i \<in> set evs \<longrightarrow> Pushed j \<in> set evs
    \<longrightarrow> request_id (reqs ! i) = request_id (reqs ! j) \<longrightarrow> i = j)"
proof -
  have "ids_unique m \<longleftrightarrow> distinct (map (\<lambda>i. request_id (reqs ! i)) (pushes evs))"
    unfolding ids_unique_def using run_pushes [OF assms] by (intro mset_eq_imp_distinct_iff) simp
  also have "\<dots> \<longleftrightarrow> inj_on (\<lambda>i. request_id (reqs ! i)) (set (pushes evs))"
    using run_pushes [OF assms] by (simp add: distinct_map)
  finally show ?thesis
    by (auto simp: inj_on_def)
qed

lemma run_index: "registration_run reqs evs m \<Longrightarrow> e \<in> set evs \<Longrightarrow> event_call e < length reqs"
  by (induction arbitrary: e rule: registration_run.induct) force+

text \<open>Whoever finds an identifier free looks before any push of it; whoever is refused, after one.\<close>

lemma run_looked:
  assumes "registration_run reqs evs m" and "Looked i \<in> set evs" and "Pushed j \<in> set evs"
    and "request_id (reqs ! i) = request_id (reqs ! j)"
  shows "earlier (Looked i) (Pushed j) evs"
  using assms
proof (induction rule: registration_run.induct)
  case (looked evs m k)
  then show ?case
    using run_exists [OF looked.hyps(1)] by (auto simp: earlier_Cons)
qed (auto simp: earlier_Cons)

lemma run_refused:
  assumes "registration_run reqs evs m" and "Refused i \<in> set evs"
  shows "\<exists>j. request_id (reqs ! j) = request_id (reqs ! i) \<and> earlier (Pushed j) (Refused i) evs"
  using assms
proof (induction rule: registration_run.induct)
  case (refused evs m k)
  then show ?case
    using run_exists [OF refused.hyps(1)] by (auto simp: earlier_Cons)
qed (auto simp: earlier_Cons)

lemma run_distinct:
  assumes "distinct (map request_id reqs)" and "registration_run reqs evs m"
  shows "ids_unique m"
proof -
  have "i = j" if "Pushed i \<in> set evs" "Pushed j \<in> set evs" "request_id (reqs ! i) = request_id (reqs ! j)" for i j
    using that run_index [OF assms(2), of "Pushed i"] run_index [OF assms(2), of "Pushed j"]
      nth_eq_iff_index_eq [OF assms(1), of i j] by simp
  then show ?thesis
    unfolding run_unique [OF assms(2)] by blast
qed

text \<open>All calls look before any pushes.\<close>

lemma all_looked: "k \<le> length reqs \<Longrightarrow> registration_run reqs (map Looked (rev [0..<k])) []"
proof (induction k)
  case (Suc k)
  moreover have "k \<notin> event_call ` set (map Looked (rev [0..<k]))"
    by (auto simp: image_image)
  ultimately show ?case
    using registration_run.looked [of reqs "map Looked (rev [0..<k])" "[]" k]
    by (simp add: credential_exists_def)
qed (simp add: registration_run.start)

lemma all_pushed:
  "k \<le> length reqs \<Longrightarrow>
     \<exists>m. registration_run reqs (map Pushed (rev [0..<k]) @ map Looked (rev [0..<length reqs])) m"
proof (induction k)
  case 0
  then show ?case
    using all_looked [of "length reqs" reqs] by auto
next
  case (Suc k)
  then obtain m where m: "registration_run reqs (map Pushed (rev [0..<k]) @ map Looked (rev [0..<length reqs])) m"
    by auto
  obtain u c where "reqs ! k = (u, c)"
    by fastforce
  moreover have "Looked k \<in> set (map Looked (rev [0..<length reqs]))"
    using Suc.prems by simp
  moreover have "Pushed k \<notin> set (map Pushed (rev [0..<k]) @ map Looked (rev [0..<length reqs]))"
    by auto
  ultimately show ?case
    using registration_run.pushed [OF m, of k u c] by auto
qed

lemma run_duplicate:
  assumes "\<not> distinct (map request_id reqs)"
  shows "\<exists>evs m. registration_run reqs evs m \<and> \<not> ids_unique m"
proof -
  obtain m where m: "registration_run reqs
      (map Pushed (rev [0..<length reqs]) @ map Looked (rev [0..<length reqs])) m"
    using all_pushed [of "length reqs" reqs] by blast
  obtain i j where ij: "i < length reqs" "j < length reqs" "i \<noteq> j"
    and "request_id (reqs ! i) = request_id (reqs ! j)"
    using assms by (auto simp: distinct_conv_nth)
  moreover have "Pushed k \<in> set (map Pushed (rev [0..<length reqs]) @ map Looked (rev [0..<length reqs]))"
    if "k < length reqs" for k
    using that by simp
  ultimately have "\<not> ids_unique m"
    unfolding run_unique [OF m] by blast
  with m show ?thesis
    by blast
qed

text \<open>A call that nothing interrupts is the sequential one.\<close>

lemma uninterrupted:
  assumes "verify_registration w cfg now u chal ad json cid pk v = (Inr c, v')"
    and "registration_run reqs evs (credentials v)" and "i \<notin> event_call ` set evs"
    and "i < length reqs" and "reqs ! i = (u, c)"
  shows "registration_run reqs (Pushed i # Looked i # evs) (credentials v')"
proof -
  have "\<not> credential_exists (request_id (reqs ! i)) (credentials v)"
    and v': "credentials v' = add_credential u c (credentials v)"
    using assms(1,5) by (auto simp: verify_registration_Inr)
  then have "registration_run reqs (Looked i # evs) (credentials v)"
    using registration_run.looked [OF assms(2,4,3)] by simp
  moreover have "Pushed i \<notin> set (Looked i # evs)"
    using assms(3) by force
  ultimately show ?thesis
    using registration_run.pushed [of reqs "Looked i # evs" _ i u c] assms(5) by (simp add: v')
qed

section \<open>Assertions among the registrations\<close>

text \<open>
  \<open>verify_authentication\<close> holds the write lock from the search for the credential to the new
  counter: one step, with the credential when the counter was accepted.
\<close>

definition assertion_section ::
  "string \<Rightarrow> u8 list \<Rightarrow> u32 \<Rightarrow> registry \<Rightarrow> webauthn_credential option \<times> registry" where
  "assertion_section u cid n m =
     (case hm_get m u of
        None \<Rightarrow> (None, m)
      | Some creds \<Rightarrow>
     (case find_credential cid creds of
        None \<Rightarrow> (None, m)
      | Some c \<Rightarrow>
          if n \<le> cred_sign_count c then (None, m)
          else (Some c, hm_insert u (set_sign_count cid n creds) m)))"

lemma assertion_section_Some:
  "assertion_section u cid n m = (Some c, m') \<longleftrightarrow>
     find_credential cid (creds_of m u) = Some c \<and> cred_sign_count c < n
     \<and> m' = hm_insert u (set_sign_count cid n (creds_of m u)) m"
  by (auto simp: assertion_section_def creds_of_def split: option.splits if_splits)

lemma assertion_section_None: "assertion_section u cid n m = (None, m') \<Longrightarrow> m' = m"
  by (auto simp: assertion_section_def split: option.splits if_splits)

text \<open>The sequential call does nothing else to the registry.\<close>

lemma verify_authentication_section:
  "credentials (snd (verify_authentication w cfg u chal ad json cid v)) =
     (if assertion_passes w cfg u chal ad json v
      then snd (assertion_section u cid (sign_count ad) (credentials v)) else credentials v)"
  "fst (verify_authentication w cfg u chal ad json cid v) = Inr () \<longleftrightarrow>
     assertion_passes w cfg u chal ad json v
     \<and> (\<exists>c m. assertion_section u cid (sign_count ad) (credentials v) = (Some c, m) \<and> public_key c \<noteq> [])"
proof -
  show "fst (verify_authentication w cfg u chal ad json cid v) = Inr () \<longleftrightarrow>
     assertion_passes w cfg u chal ad json v
     \<and> (\<exists>c m. assertion_section u cid (sign_count ad) (credentials v) = (Some c, m) \<and> public_key c \<noteq> [])"
    unfolding verify_authentication_fst assertion_section_Some list_credentials_creds_of by blast
  show "credentials (snd (verify_authentication w cfg u chal ad json cid v)) =
     (if assertion_passes w cfg u chal ad json v
      then snd (assertion_section u cid (sign_count ad) (credentials v)) else credentials v)"
    unfolding assertion_passes_def rp_id_hash_check_None [symmetric] client_data_check_None [symmetric]
    by (auto simp: verify_authentication_def assertion_section_def Let_def
        split: option.splits prod.splits sum.splits)
qed

inductive registry_run :: "webauthn_event list \<Rightarrow> request list \<Rightarrow> registry \<Rightarrow> bool" where
  empty: "registry_run [] [] []"
| look: "registry_run evs ps m \<Longrightarrow> \<not> credential_exists (request_id r) m
    \<Longrightarrow> registry_run evs (r # ps) m"
| push: "registry_run evs (ps @ (u, c) # qs) m
    \<Longrightarrow> registry_run (Registered u c # evs) (ps @ qs) (add_credential u c m)"
| assertion: "registry_run evs ps m \<Longrightarrow> assertion_section u cid n m = (Some c, m')
    \<Longrightarrow> public_key c \<noteq> [] \<Longrightarrow> registry_run (Authenticated u cid n # evs) ps m'"
| no_assertion: "registry_run evs ps m \<Longrightarrow> assertion_section u cid n m = (r, m')
    \<Longrightarrow> (\<And>c. r = Some c \<Longrightarrow> public_key c = []) \<Longrightarrow> registry_run evs ps m'"

text \<open>The counters of the accepted assertions, newest first.\<close>

fun assertion_counts :: "webauthn_event list \<Rightarrow> string \<Rightarrow> u8 list \<Rightarrow> u32 list" where
  "assertion_counts [] u cid = []"
| "assertion_counts (Registered u' c # evs) u cid = assertion_counts evs u cid"
| "assertion_counts (Authenticated u' cid' n # evs) u cid =
     (if u' = u \<and> cid' = cid then [n] else []) @ assertion_counts evs u cid"

lemma count_ok_bumped:
  assumes "\<And>u cid. count_ok (f u cid) (find_credential cid (creds_of m u))"
    and "assertion_section u cid n m = (Some c, m')"
  shows "count_ok (f u' cid') (find_credential cid' (creds_of m' u'))"
    and "count_ok (n # f u cid) (find_credential cid (creds_of m' u))"
  using assms(1) [of u' cid'] assms(1) [of u cid] assms(2) count_ok_bump [of "f u cid" c n]
  by (auto simp: assertion_section_Some find_set_sign_count)

lemma registry_run_counts:
  "registry_run evs ps m \<Longrightarrow>
     count_ok (assertion_counts evs u cid) (find_credential cid (creds_of m u))"
proof (induction arbitrary: u cid rule: registry_run.induct)
  case empty
  show ?case
    by (simp add: count_ok_def creds_of_def)
next
  case (push evs ps v c qs m)
  then show ?case
    using push.IH [of u cid]
    by (cases "find_credential cid (creds_of m u)")
      (auto simp: find_credential_append or_else_def count_ok_def)
next
  case (assertion evs ps m v cid' n c m')
  from count_ok_bumped [of "assertion_counts evs", OF assertion.IH assertion.hyps(2)] show ?case
    by auto
next
  case (no_assertion evs ps m v cid' n r m')
  show ?case
  proof (cases r)
    case None
    then show ?thesis
      using no_assertion.hyps(2) no_assertion.IH assertion_section_None by blast
  next
    case (Some c)
    then show ?thesis
      using count_ok_bumped(1) [of "assertion_counts evs", OF no_assertion.IH] no_assertion.hyps(2)
      by blast
  qed
qed simp

section \<open>Properties\<close>

text \<open>
  C16. The check and the insertion are not atomic. Every interleaving of concurrent registrations
  leaves each identifier registered once exactly when no two of the requests carry the same
  identifier; otherwise some interleaving leaves an identifier registered twice. What the check
  still gives in every interleaving: a call that found its identifier free looked before any push
  of that identifier, so an identifier is stored twice only by calls that both looked before
  either had pushed; a call is refused only after a push of its identifier; and the identifiers
  are unique exactly when no two calls that pushed carry the same one.
\<close>

theorem concurrent_ids_unique:
  "((\<forall>evs m. registration_run reqs evs m \<longrightarrow> ids_unique m) \<longleftrightarrow> distinct (map request_id reqs))
   \<and> (\<forall>evs m. registration_run reqs evs m \<longrightarrow>
       (ids_unique m \<longleftrightarrow> (\<forall>i j. Pushed i \<in> set evs \<longrightarrow> Pushed j \<in> set evs
          \<longrightarrow> request_id (reqs ! i) = request_id (reqs ! j) \<longrightarrow> i = j))
       \<and> (\<forall>i j. Looked i \<in> set evs \<longrightarrow> Pushed j \<in> set evs
          \<longrightarrow> request_id (reqs ! i) = request_id (reqs ! j) \<longrightarrow> earlier (Looked i) (Pushed j) evs)
       \<and> (\<forall>i. Refused i \<in> set evs \<longrightarrow>
          (\<exists>j. request_id (reqs ! j) = request_id (reqs ! i) \<and> earlier (Pushed j) (Refused i) evs)))"
  using run_distinct run_duplicate run_unique run_looked run_refused by meson

text \<open>Two calls with one identifier: some run stores it twice, and a call that comes after is refused.\<close>

theorem concurrent_ids_unique_witness:
  "(\<exists>evs m. registration_run [(''u'', sample_credential), (''v'', sample_credential)] evs m \<and> \<not> ids_unique m)
   \<and> \<not> (\<exists>m. registration_run [(''u'', sample_credential), (''v'', sample_credential)]
        [Looked 1, Pushed 0, Looked 0] m)"
proof -
  let ?reqs = "[(''u'', sample_credential), (''v'', sample_credential)]"
  note race = concurrent_ids_unique [of ?reqs]
  have "\<not> registration_run ?reqs [Looked 1, Pushed 0, Looked 0] m" for m
  proof
    assume "registration_run ?reqs [Looked 1, Pushed 0, Looked 0] m"
    with race have "earlier (Looked 1) (Pushed 0) [Looked 1, Pushed 0, Looked 0]"
      by (metis (no_types, lifting) list.set_intros(1,2) nth_Cons_0 nth_Cons_Suc One_nat_def snd_conv)
    then show False
      by (simp add: earlier_Cons) (simp add: earlier_def)
  qed
  with race show ?thesis
    by auto
qed

text \<open>
  C32. Replay defence holds under every interleaving. However registrations and assertions of any
  users overlap, and even where a race has stored an identifier twice, the counters of the
  accepted assertions of a credential fall strictly from the newest to the oldest, and the locked
  section of \<open>verify_authentication\<close> takes a counter only if it is above all of them: no assertion
  is accepted twice.
\<close>

theorem replay_defence_concurrent:
  assumes "registry_run evs ps m"
  shows "sorted_wrt (>) (assertion_counts evs u cid)
    \<and> (fst (assertion_section u cid n m) \<noteq> None \<longrightarrow> (\<forall>k \<in> set (assertion_counts evs u cid). k < n))"
proof -
  have ok: "count_ok (assertion_counts evs u cid) (find_credential cid (creds_of m u))"
    using assms by (rule registry_run_counts)
  have "\<forall>k \<in> set (assertion_counts evs u cid). k < n" if "fst (assertion_section u cid n m) \<noteq> None"
  proof -
    obtain c m' where "assertion_section u cid n m = (Some c, m')"
      using \<open>fst _ \<noteq> None\<close> by (cases "assertion_section u cid n m") auto
    then show ?thesis
      using ok by (auto simp: assertion_section_Some count_ok_def dest!: bspec elim!: le_less_trans)
  qed
  with ok show ?thesis
    by (simp add: count_ok_def)
qed

text \<open>The race that stores the identifier twice, an accepted assertion, and its replay.\<close>

theorem replay_defence_concurrent_witness:
  "\<exists>m. registry_run [Authenticated ''u'' [1] 7, Registered ''u'' sample_credential,
        Registered ''u'' sample_credential] [] m
     \<and> fst (assertion_section ''u'' [1] 7 m) = None"
proof -
  let ?r = "(''u'', sample_credential)"
  have "registry_run [] ([?r] @ ?r # []) []"
    by (simp add: registry_run.intros credential_exists_def)
  from registry_run.push [OF this]
  have "registry_run [Registered ''u'' sample_credential] ([] @ ?r # []) (add_credential ''u'' sample_credential [])"
    by simp
  from registry_run.push [OF this]
  have "registry_run [Registered ''u'' sample_credential, Registered ''u'' sample_credential] []
      (add_credential ''u'' sample_credential (add_credential ''u'' sample_credential []))"
    by simp
  from registry_run.assertion [OF this, of "''u''" "[1]" 7 sample_credential]
  obtain m where run: "registry_run [Authenticated ''u'' [1] 7, Registered ''u'' sample_credential,
      Registered ''u'' sample_credential] [] m"
    by (auto simp: assertion_section_Some creds_of_def sample_credential_def)
  have "fst (assertion_section ''u'' [1] 7 m) = None"
    using replay_defence_concurrent [OF run, of "''u''" "[1]" 7] by auto
  with run show ?thesis
    by blast
qed

end
