(* ===== verification/Json.thy ===== *)
theory Json
  imports Str_Debug
begin

text \<open>
  JSON as the derives of \<open>serde\<close> on the crate's structs use it. A value keeps the keys of an object
  in the order and as often as they are written, and a number as it is written. The reader that
  turns text into a value is \<open>serde_json\<close>'s and stays a parameter; the compact writer and what
  the attributes on the fields mean are defined here, from their documentation: a field is
  required unless it has \<open>default\<close> or, in an object, its type is an \<open>Option\<close>; a known field
  written twice is an error, an unknown one is skipped; an array gives the fields by position.
  Which error it is does not matter to any caller, so a failure is \<open>None\<close>.
\<close>

datatype json =
    JNull
  | JBool bool
  | JNum string
  | JStr string
  | JArr "json list"
  | JObj "(string \<times> json) list"

section \<open>Writing\<close>

definition json_escape :: "char \<Rightarrow> string" where
  "json_escape c = (let n = of_char c in
     if n = 0x22 \<or> n = 0x5C then [CHR 0x5C, c]
     else if n = 0x08 then [CHR 0x5C, CHR ''b'']
     else if n = 0x0C then [CHR 0x5C, CHR ''f'']
     else if n = 0x0A then [CHR 0x5C, CHR ''n'']
     else if n = 0x0D then [CHR 0x5C, CHR ''r'']
     else if n = 0x09 then [CHR 0x5C, CHR ''t'']
     else if n < (0x20 :: nat) then CHR 0x5C # ''u00'' @ [hex_lower (n div 16), hex_lower (n mod 16)]
     else [c])"

definition json_string :: "string \<Rightarrow> string" where
  "json_string s = CHR 0x22 # concat (map json_escape s) @ [CHR 0x22]"

fun json_text :: "json \<Rightarrow> string" where
  "json_text JNull = ''null''"
| "json_text (JBool b) = (if b then ''true'' else ''false'')"
| "json_text (JNum n) = n"
| "json_text (JStr s) = json_string s"
| "json_text (JArr vs) = CHR ''['' # intercalate '','' (map json_text vs) @ '']''"
| "json_text (JObj kvs) =
     CHR ''{'' # intercalate '','' (map (\<lambda>(k, v). json_string k @ CHR '':'' # json_text v) kvs) @ ''}''"

section \<open>Reading a value as a type\<close>

fun de_string :: "json \<Rightarrow> string option" where
  "de_string (JStr s) = Some s"
| "de_string _ = None"

fun de_bool :: "json \<Rightarrow> bool option" where
  "de_bool (JBool b) = Some b"
| "de_bool _ = None"

text \<open>An unsigned integer: digits only, and in the range of the type.\<close>

definition de_uint :: "json \<Rightarrow> 'w::len word option" where
  "de_uint j = (case j of
     JNum n \<Rightarrow> if n \<noteq> [] \<and> list_all is_digit n \<and> decimal_value n < 2 ^ LENGTH('w)
       then Some (word_of_nat (decimal_value n)) else None
   | _ \<Rightarrow> None)"

definition de_option :: "(json \<Rightarrow> 'a option) \<Rightarrow> json \<Rightarrow> 'a option option" where
  "de_option d j = (if j = JNull then Some None else map_option Some (d j))"

fun de_vec :: "(json \<Rightarrow> 'a option) \<Rightarrow> json \<Rightarrow> 'a list option" where
  "de_vec d (JArr vs) = those (map d vs)"
| "de_vec d _ = None"

text \<open>
  The value of the field with this position and name: \<open>None\<close> when it is written twice or the value
  is no struct, \<open>Some None\<close> when it is absent.
\<close>

fun field_value :: "json \<Rightarrow> nat \<Rightarrow> string \<Rightarrow> json option option" where
  "field_value (JObj kvs) i k =
     (case filter (\<lambda>(k', v). k' = k) kvs of
        [] \<Rightarrow> Some None
      | [(k', v)] \<Rightarrow> Some (Some v)
      | _ \<Rightarrow> None)"
| "field_value (JArr vs) i k = Some (if i < length vs then Some (vs ! i) else None)"
| "field_value _ i k = None"

fun is_object :: "json \<Rightarrow> bool" where
  "is_object (JObj kvs) \<longleftrightarrow> True"
| "is_object _ \<longleftrightarrow> False"

text \<open>An array may leave fields out at its end and may not have more elements than there are fields.\<close>

fun struct_shape :: "nat \<Rightarrow> json \<Rightarrow> bool" where
  "struct_shape n (JObj kvs) \<longleftrightarrow> True"
| "struct_shape n (JArr vs) \<longleftrightarrow> length vs \<le> n"
| "struct_shape n _ \<longleftrightarrow> False"

definition required_field :: "(json \<Rightarrow> 'a option) \<Rightarrow> json \<Rightarrow> nat \<Rightarrow> string \<Rightarrow> 'a option" where
  "required_field d j i k = (case field_value j i k of Some (Some v) \<Rightarrow> d v | _ \<Rightarrow> None)"

definition default_field :: "(json \<Rightarrow> 'a option) \<Rightarrow> 'a \<Rightarrow> json \<Rightarrow> nat \<Rightarrow> string \<Rightarrow> 'a option" where
  "default_field d x j i k =
     (case field_value j i k of None \<Rightarrow> None | Some None \<Rightarrow> Some x | Some (Some v) \<Rightarrow> d v)"

definition option_field :: "(json \<Rightarrow> 'a option) \<Rightarrow> json \<Rightarrow> nat \<Rightarrow> string \<Rightarrow> 'a option option" where
  "option_field d j i k =
     (if is_object j then default_field (de_option d) None j i k
      else required_field (de_option d) j i k)"

section \<open>Writing a value of a type\<close>

definition ser_option :: "('a \<Rightarrow> json) \<Rightarrow> 'a option \<Rightarrow> json" where
  "ser_option f x = (case x of None \<Rightarrow> JNull | Some a \<Rightarrow> f a)"

definition ser_vec :: "('a \<Rightarrow> json) \<Rightarrow> 'a list \<Rightarrow> json" where
  "ser_vec f xs = JArr (map f xs)"

definition ser_uint :: "'w::len word \<Rightarrow> json" where
  "ser_uint w = JNum (show_nat (unat w))"

section \<open>Lemmas\<close>

named_theorems json_simps \<open>reading back what was written\<close>

lemma those_map_Some [json_simps]: "those (map (\<lambda>x. d (f x)) xs) = Some xs" if "\<And>x. d (f x) = Some x"
  using that by (induction xs) auto

lemma de_uint_ser [json_simps]: "de_uint (ser_uint w) = Some w"
  using show_nat_digits unsigned_less [of w, where 'a = nat]
  by (auto simp: de_uint_def ser_uint_def list_all_iff)

lemma de_uint_range: "2 ^ LENGTH('w) \<le> n \<Longrightarrow> de_uint (JNum (show_nat n)) = (None :: 'w::len word option)"
  by (simp add: de_uint_def)

lemma those_Some: "those xs = Some ys \<longleftrightarrow> xs = map Some ys"
proof (induction xs arbitrary: ys)
  case (Cons x xs)
  then show ?case
    by (cases ys) (auto split: option.splits)
qed auto

lemma those_None: "those xs = None \<longleftrightarrow> None \<in> set xs"
  by (induction xs) (auto split: option.splits)

lemma de_vec_ser [json_simps]: "(\<And>x. d (f x) = Some x) \<Longrightarrow> de_vec d (ser_vec f xs) = Some xs"
  by (induction xs) (auto simp: ser_vec_def)

lemma de_option_ser [json_simps]:
  "(\<And>x. d (f x) = Some x) \<Longrightarrow> (\<And>x. f x \<noteq> JNull) \<Longrightarrow> de_option d (ser_option f x) = Some x"
  by (auto simp: de_option_def ser_option_def split: option.splits)

text \<open>Keys that a struct does not know change nothing, wherever they stand.\<close>

lemma field_value_unknown:
  "k \<notin> set (map fst extra) \<Longrightarrow> field_value (JObj (kvs @ extra @ kvs')) i k = field_value (JObj (kvs @ kvs')) i k"
proof -
  assume k: "k \<notin> set (map fst extra)"
  have "filter (\<lambda>(k', v). k' = k) extra = []"
    using k by (induction extra) auto
  then show ?thesis
    by simp
qed

lemma fields_unknown:
  assumes "k \<notin> set (map fst extra)"
  shows "required_field d (JObj (kvs @ extra @ kvs')) i k = required_field d (JObj (kvs @ kvs')) i k"
    and "default_field d x (JObj (kvs @ extra @ kvs')) i k = default_field d x (JObj (kvs @ kvs')) i k"
    and "option_field d' (JObj (kvs @ extra @ kvs')) i k = option_field d' (JObj (kvs @ kvs')) i k"
  by (simp_all only: required_field_def default_field_def option_field_def is_object.simps
      field_value_unknown [OF assms])

lemma required_field_missing: "k \<notin> set (map fst kvs) \<Longrightarrow> required_field d (JObj kvs) i k = None"
proof -
  assume "k \<notin> set (map fst kvs)"
  then have "filter (\<lambda>(k', v). k' = k) kvs = []"
    by (induction kvs) auto
  then show ?thesis
    by (simp add: required_field_def)
qed

end
