(* ===== verification/Webauthn_Json.thy ===== *)
theory Webauthn_Json
  imports Webauthn Json
begin

text \<open>
  The JSON form of the client data of \<open>src/webauthn.rs\<close>, as the attributes on
  \<open>CollectedClientData\<close> and \<open>TokenBinding\<close> give it, and the verifier with it in place of an
  abstract parser: \<open>with_json\<close> takes only the reader of JSON text as a parameter.
\<close>

section \<open>The derived codecs\<close>

definition token_binding_of_json :: "json \<Rightarrow> token_binding option" where
  "token_binding_of_json j =
     (if \<not> struct_shape 2 j then None
      else Option.bind (required_field de_string j 0 ''status'') (\<lambda>status.
           Option.bind (default_field (de_option de_string) None j 1 ''id'') (\<lambda>id.
           Some \<lparr>tb_status = status, tb_id = id\<rparr>)))"

definition client_data_of_json :: "json \<Rightarrow> collected_client_data option" where
  "client_data_of_json j =
     (if \<not> struct_shape 5 j then None
      else Option.bind (required_field de_string j 0 ''type'') (\<lambda>t.
           Option.bind (required_field de_string j 1 ''challenge'') (\<lambda>chal.
           Option.bind (required_field de_string j 2 ''origin'') (\<lambda>orig.
           Option.bind (default_field de_bool False j 3 ''crossOrigin'') (\<lambda>cross.
           Option.bind (default_field (de_option token_binding_of_json) None j 4 ''tokenBinding'') (\<lambda>tb.
           Some \<lparr>ty = t, challenge = chal, origin = orig, cross_origin = cross, token_binding = tb\<rparr>))))))"

definition token_binding_to_json :: "token_binding \<Rightarrow> json" where
  "token_binding_to_json t = JObj [(''status'', JStr (tb_status t)), (''id'', ser_option JStr (tb_id t))]"

definition client_data_to_json :: "collected_client_data \<Rightarrow> json" where
  "client_data_to_json c = JObj
     [(''type'', JStr (ty c)), (''challenge'', JStr (challenge c)), (''origin'', JStr (origin c)),
      (''crossOrigin'', JBool (cross_origin c)),
      (''tokenBinding'', ser_option token_binding_to_json (token_binding c))]"

text \<open>
  The stored credential: its byte vectors are arrays of numbers. Nothing in the crate writes it yet;
  the derives are what a database adapter would use.
\<close>

definition credential_of_json :: "json \<Rightarrow> webauthn_credential option" where
  "credential_of_json j =
     (if \<not> struct_shape 5 j then None
      else Option.bind (required_field (de_vec de_uint) j 0 ''credential_id'') (\<lambda>cid.
           Option.bind (required_field (de_vec de_uint) j 1 ''public_key'') (\<lambda>pk.
           Option.bind (required_field de_uint j 2 ''sign_count'') (\<lambda>n.
           Option.bind (default_field (de_option de_string) None j 3 ''label'') (\<lambda>l.
           Option.bind (required_field de_string j 4 ''created_at'') (\<lambda>t.
           Some \<lparr>credential_id = cid, public_key = pk, cred_sign_count = n, label = l, created_at = t\<rparr>))))))"

definition credential_to_json :: "webauthn_credential \<Rightarrow> json" where
  "credential_to_json c = JObj
     [(''credential_id'', ser_vec ser_uint (credential_id c)),
      (''public_key'', ser_vec ser_uint (public_key c)),
      (''sign_count'', ser_uint (cred_sign_count c)),
      (''label'', ser_option JStr (label c)), (''created_at'', JStr (created_at c))]"

section \<open>The verifier with the codecs\<close>

text \<open>
  \<open>reader\<close> is \<open>serde_json\<close>'s reader of text, \<open>mismatch\<close> the error it makes of a value that does
  not fit the type.
\<close>

definition with_json ::
  "(string \<Rightarrow> 'e + json) \<Rightarrow> 'e \<Rightarrow> ('e, 's, 'r) webauthn_env \<Rightarrow> ('e, 's, 'r) webauthn_env" where
  "with_json reader mismatch w = w\<lparr>client_data_from_json := \<lambda>text.
     (case reader text of
        Inl e \<Rightarrow> Inl e
      | Inr j \<Rightarrow> (case client_data_of_json j of None \<Rightarrow> Inl mismatch | Some c \<Rightarrow> Inr c))\<rparr>"

section \<open>Lemmas\<close>

lemma token_binding_roundtrip [json_simps]: "token_binding_of_json (token_binding_to_json t) = Some t"
  by (simp add: token_binding_of_json_def token_binding_to_json_def required_field_def
      default_field_def json_simps)

lemma token_binding_not_null [simp]: "token_binding_to_json t \<noteq> JNull"
  by (simp add: token_binding_to_json_def)

lemma client_data_ok_with_json:
  "client_data_ok (with_json reader mismatch w) cfg t chal text \<longleftrightarrow>
     (\<exists>j c. reader text = Inr j \<and> client_data_of_json j = Some c \<and> ty c = t \<and> challenge c = chal
        \<and> origin c \<in> set (allowed_origins cfg))"
  by (auto simp: client_data_ok_def with_json_def split: sum.splits option.splits)

section \<open>Properties\<close>

text \<open>
  Client data round trip. Reading back what the derived writer wrote gives the same client
  data, also when keys the struct does not know are put anywhere in the object.
\<close>

theorem client_data_roundtrip:
  assumes "client_data_to_json c = JObj (kvs @ kvs')"
    and "{''type'', ''challenge'', ''origin'', ''crossOrigin'', ''tokenBinding''} \<inter> set (map fst extra) = {}"
  shows "client_data_of_json (JObj (kvs @ extra @ kvs')) = Some c"
proof -
  have "client_data_of_json (client_data_to_json c) = Some c"
    by (simp add: client_data_of_json_def client_data_to_json_def required_field_def default_field_def
        json_simps)
  moreover have "k \<notin> set (map fst extra)"
    if "k \<in> {''type'', ''challenge'', ''origin'', ''crossOrigin'', ''tokenBinding''}" for k
    using assms(2) that by blast
  ultimately show ?thesis
    unfolding assms(1) by (simp add: client_data_of_json_def fields_unknown del: set_map)
qed

theorem client_data_roundtrip_witness:
  "client_data_of_json (JObj [(''topOrigin'', JNum ''1''), (''type'', JStr ''webauthn.get''),
      (''challenge'', JStr ''c''), (''origin'', JStr ''o''), (''crossOrigin'', JBool False),
      (''tokenBinding'', JNull)]) =
   Some \<lparr>ty = ''webauthn.get'', challenge = ''c'', origin = ''o'', cross_origin = False, token_binding = None\<rparr>"
  using client_data_roundtrip [of "\<lparr>ty = ''webauthn.get'', challenge = ''c'', origin = ''o'',
      cross_origin = False, token_binding = None\<rparr>" "[]" "[(''type'', JStr ''webauthn.get''),
      (''challenge'', JStr ''c''), (''origin'', JStr ''o''), (''crossOrigin'', JBool False),
      (''tokenBinding'', JNull)]" "[(''topOrigin'', JNum ''1'')]"]
  by (simp add: client_data_to_json_def ser_option_def)

text \<open>
  A stored credential survives its JSON form, whatever its bytes, counter and label, and a
  counter that does not fit in \<open>u32\<close> is an error and not a wrapped counter, which would undo the
  replay defence.
\<close>

theorem credential_json_roundtrip:
  "credential_of_json (credential_to_json c) = Some c
   \<and> (2 ^ 32 \<le> n \<longrightarrow> credential_of_json (JObj
        [(''credential_id'', ser_vec ser_uint (credential_id c)), (''public_key'', ser_vec ser_uint (public_key c)),
         (''sign_count'', JNum (show_nat n)), (''label'', ser_option JStr (label c)),
         (''created_at'', JStr (created_at c))]) = None)"
proof -
  have "credential_of_json (credential_to_json c) = Some c"
    by (simp add: credential_of_json_def credential_to_json_def required_field_def default_field_def json_simps)
  moreover have "credential_of_json (JObj
        [(''credential_id'', ser_vec ser_uint (credential_id c)), (''public_key'', ser_vec ser_uint (public_key c)),
         (''sign_count'', JNum (show_nat n)), (''label'', ser_option JStr (label c)),
         (''created_at'', JStr (created_at c))]) = None" if "2 ^ 32 \<le> n"
  proof -
    have "de_uint (JNum (show_nat n)) = (None :: u32 option)"
      using that by (intro de_uint_range) simp
    then show ?thesis
      by (simp add: credential_of_json_def required_field_def default_field_def json_simps)
  qed
  ultimately show ?thesis
    by blast
qed

theorem credential_json_roundtrip_witness:
  "credential_of_json (JObj [(''credential_id'', JArr [JNum ''1'']), (''public_key'', JArr [JNum ''9'']),
     (''sign_count'', JNum (show_nat (2 ^ 32))), (''label'', JNull), (''created_at'', JStr ''now'')]) = None"
proof -
  have "ser_vec ser_uint [1 :: u8] = JArr [JNum ''1'']" "ser_vec ser_uint [9 :: u8] = JArr [JNum ''9'']"
    by (simp_all add: ser_vec_def ser_uint_def show_nat.simps digit_char_def char_of_eq_iff take_bit_eq_mod)
  then show ?thesis
    using credential_json_roundtrip [of sample_credential "2 ^ 32"]
    by (simp add: sample_credential_def ser_option_def)
qed

end
