(* ===== verification/Webauthn_Assertions.thy ===== *)
theory Webauthn_Assertions
  imports Webauthn_Table
begin

text \<open>
  A registered credential in use: what \<open>verify_authentication\<close> of \<open>src/webauthn.rs\<close> answers to a
  whole sequence of assertions of one authenticator, over any challenge store that accepts their
  challenges. The counters are then the only thing that decides, through the highest one seen so
  far.
\<close>

section \<open>Assertions of one authenticator\<close>

text \<open>
  An assertion with the environment of its call: challenge, authenticator data, client data. It is
  genuine when the authenticator and the browser did their part for this relying party; whether
  its challenge was issued and is still good is for the challenge store to say.
\<close>

type_synonym ('e, 's, 'r) assertion =
  "('e, 's, 'r) webauthn_env \<times> string \<times> authenticator_data \<times> string"

fun assertion_call :: "string \<Rightarrow> u8 list \<Rightarrow> ('e, 's, 'r) assertion
    \<Rightarrow> ('e, 's, 'r) webauthn_env \<times> ceremony_call" where
  "assertion_call u cid (w, chal, ad, json) = (w, Authenticate u chal ad json cid)"

fun genuine_assertion :: "webauthn_config \<Rightarrow> ('e, 's, 'r) assertion \<Rightarrow> bool" where
  "genuine_assertion cfg (w, chal, ad, json) \<longleftrightarrow>
     rp_id_hash ad = sha256 w (as_bytes (rp_id cfg)) \<and> up (flags ad)
     \<and> client_data_ok w cfg ''webauthn.get'' chal json"

fun shown_count :: "('e, 's, 'r) assertion \<Rightarrow> u32" where
  "shown_count (w, chal, ad, json) = sign_count ad"

text \<open>The store, in the state it is in at the call, accepts the challenge a call presents.\<close>

definition challenge_passes ::
  "webauthn_config \<Rightarrow> ('e, 's, 'r) webauthn_env \<times> ceremony_call \<Rightarrow> 's verifier \<Rightarrow> bool" where
  "challenge_passes cfg c v \<longleftrightarrow>
     (case store_answer cfg c v of Some (Inl err) \<Rightarrow> False | _ \<Rightarrow> True)"

text \<open>Which counters of a sequence exceed all those before them, starting above \<open>n\<close>.\<close>

fun high_water :: "u32 \<Rightarrow> u32 list \<Rightarrow> bool list" where
  "high_water n [] = []"
| "high_water n (m # ms) = (n < m) # high_water (max n m) ms"

lemma high_water_increasing: "sorted_wrt (<) (n # ms) \<Longrightarrow> high_water n ms = replicate (length ms) True"
proof (induction ms arbitrary: n)
  case (Cons m ms)
  then have "n < m"
    by simp
  then have "max n m = m"
    by simp
  with Cons show ?case
    by simp
qed simp

lemma high_water_nth:
  "i < length ms \<Longrightarrow> high_water n ms ! i \<longleftrightarrow> n < ms ! i \<and> (\<forall>j < i. ms ! j < ms ! i)"
proof (induction ms arbitrary: n i)
  case (Cons m ms)
  show ?case
  proof (cases i)
    case (Suc k)
    with Cons.prems have "high_water (max n m) ms ! k \<longleftrightarrow> max n m < ms ! k \<and> (\<forall>j < k. ms ! j < ms ! k)"
      by (intro Cons.IH) simp
    then show ?thesis
      by (auto simp: Suc less_Suc_eq_0_disj)
  qed simp
qed simp

definition assertion_reply :: "bool \<Rightarrow> 'e ceremony_reply" where
  "assertion_reply b = Authentication (if b then Inr () else Inl CredentialNotFound)"

section \<open>One assertion\<close>

lemma genuine_assertion_step:
  assumes "genuine_assertion cfg a" and "challenge_passes cfg (assertion_call u cid a) v"
    and "find_credential cid (list_credentials u v) = Some c" and "public_key c \<noteq> []"
    and "verifier_step cfg (assertion_call u cid a) v = (r, v')"
  shows "r = assertion_reply (cred_sign_count c < shown_count a)
    \<and> find_credential cid (list_credentials u v') =
        Some (c\<lparr>cred_sign_count := max (cred_sign_count c) (shown_count a)\<rparr>)"
proof -
  obtain w chal ad json where a: "a = (w, chal, ad, json)"
    by (cases a) auto
  obtain b st where cv: "challenge_verify w (challenge_key ''get'' (rp_id cfg) u) chal
      ''webauthn-challenge'' (session_store v) = (Inr b, st)"
    using assms(2) by (auto simp: a challenge_passes_def split: sum.splits) (metis prod.collapse)
  have gate: "ceremony_gate w cfg ''webauthn.get'' ''get'' False u chal ad json (session_store v) = (None, st)"
    using assms(1) cv rp_id_hash_check_None [of w cfg ad]
      client_data_check_None [of w cfg "''webauthn.get''" chal json]
    by (simp add: a ceremony_gate_def require_def or_else_def)
  have set: "find_credential cid (set_sign_count cid n (creds_of m u)) =
      map_option (\<lambda>c. c\<lparr>cred_sign_count := n\<rparr>) (find_credential cid (creds_of m u))" for n m
    by (simp add: find_set_sign_count)
  have "verify_authentication w cfg u chal ad json cid v =
      (if cred_sign_count c < sign_count ad
       then (Inr (), v\<lparr>session_store := st, credentials := hm_insert u
          (set_sign_count cid (sign_count ad) (creds_of (credentials v) u)) (credentials v)\<rparr>)
       else (Inl CredentialNotFound, v\<lparr>session_store := st\<rparr>))"
    using assms(3,4) by (simp add: authentication_gate gate list_credentials_creds_of)
  then show ?thesis
    using assms(3,5) set
    by (auto simp: a assertion_reply_def list_credentials_creds_of max_def split: if_splits)
qed

lemma assertions_high_water:
  assumes "list_all (genuine_assertion cfg) as"
    and "admitted (challenge_passes cfg) (verifier_step cfg) (map (assertion_call u cid) as) v"
    and "find_credential cid (list_credentials u v) = Some c" and "public_key c \<noteq> []"
  shows "replies (verifier_step cfg) (map (assertion_call u cid) as) v =
    map assertion_reply (high_water (cred_sign_count c) (map shown_count as))"
  using assms
proof (induction as arbitrary: v c)
  case (Cons a as)
  obtain r v' where s: "verifier_step cfg (assertion_call u cid a) v = (r, v')"
    by fastforce
  from genuine_assertion_step [OF _ _ Cons.prems(3,4) s] Cons.prems(1,2,4)
  show ?case
    using Cons.IH [of v' "c\<lparr>cred_sign_count := max (cred_sign_count c) (shown_count a)\<rparr>"]
    by (simp add: s)
qed simp

section \<open>Property\<close>

text \<open>
  C21. An honest authenticator always gets in. Take a stored credential with a key, and any sequence
  of genuine assertions of any length, over any challenge store that answers \<open>Ok\<close> to the challenge
  of each when it is made. When their counters rise strictly from the stored one every assertion is
  accepted. In general the \<open>i\<close>th is accepted exactly when its counter exceeds the stored counter and
  all those shown before it, whether those were accepted or not; the answer to the others is
  \<open>CredentialNotFound\<close>.
\<close>

theorem genuine_assertions_accepted:
  assumes "list_all (genuine_assertion cfg) as"
    and "admitted (challenge_passes cfg) (verifier_step cfg) (map (assertion_call u cid) as) v"
    and "find_credential cid (list_credentials u v) = Some c" and "public_key c \<noteq> []"
  shows "(sorted_wrt (<) (cred_sign_count c # map shown_count as) \<longrightarrow>
      replies (verifier_step cfg) (map (assertion_call u cid) as) v =
        replicate (length as) (Authentication (Inr ())))
    \<and> (\<forall>i < length as. replies (verifier_step cfg) (map (assertion_call u cid) as) v ! i =
        Authentication
          (if cred_sign_count c < shown_count (as ! i) \<and> (\<forall>j < i. shown_count (as ! j) < shown_count (as ! i))
           then Inr () else Inl CredentialNotFound))"
proof -
  have len: "length (high_water n ms) = length ms" for n ms
    by (induction ms arbitrary: n) simp_all
  show ?thesis
    using high_water_increasing [of "cred_sign_count c" "map shown_count as"]
    by (simp add: assertions_high_water [OF assms] assertion_reply_def len high_water_nth)
qed

text \<open>Three assertions over a store that accepts every challenge.\<close>

theorem genuine_assertions_accepted_witness:
  "replies (verifier_step sample_config)
     (map (assertion_call ''u'' [1])
       (map (\<lambda>n. (sample_webauthn, ''c'', sample_data n, ''webauthn.get'')) [5, 6, 9]))
     (sample_verifier 4) =
   replicate 3 (Authentication (Inr ()))"
proof -
  let ?as = "map (\<lambda>n. (sample_webauthn, ''c'', sample_data n, ''webauthn.get'')) [5, 6, 9]"
  have g: "list_all (genuine_assertion sample_config) ?as"
    by (simp add: sample_simps)
  have "challenge_passes sample_config (sample_webauthn, q) v" for q v
    by (cases q) (simp_all add: challenge_passes_def sample_webauthn_def)
  then have p: "admitted (challenge_passes sample_config) (verifier_step sample_config)
      (map (assertion_call ''u'' [1]) ?as) (sample_verifier 4)"
    by simp
  have c: "find_credential [1] (list_credentials ''u'' (sample_verifier 4)) = Some sample_credential"
    by (simp add: sample_verifier_def sample_credential_def list_credentials_def hm_get_def)
  have k: "public_key sample_credential \<noteq> []"
    and srt: "sorted_wrt (<) (cred_sign_count sample_credential # map shown_count ?as)"
    and len: "length ?as = 3"
    by (simp_all add: sample_credential_def sample_data_def)
  show ?thesis
    using genuine_assertions_accepted [OF g p c k, THEN conjunct1, THEN mp, OF srt]
    unfolding len .
qed

end
