(* ===== verification/Webauthn_Isolation.thy ===== *)
theory Webauthn_Isolation
  imports Webauthn_Table
begin

text \<open>
  Users of one verifier of \<open>src/webauthn.rs\<close> do not influence each other through its registry: over
  any challenge store, the answers a user gets are those of a verifier nobody else uses and whose
  store gives the same answers to the user's challenge checks, as long as nobody else asks to
  register an identifier the user registers.
\<close>

section \<open>One user's calls\<close>

type_synonym ('e, 's, 'r) ceremony = "('e, 's, 'r) webauthn_env \<times> ceremony_call"

text \<open>The calls a user's account depends on: registrations, assertions and listings for that user.\<close>

fun account_call :: "string \<Rightarrow> ('e, 's, 'r) ceremony \<Rightarrow> bool" where
  "account_call u (w, Challenge g u' op) \<longleftrightarrow> False"
| "account_call u (w, Register now u' chal ad json cid pk) \<longleftrightarrow> u' = u"
| "account_call u (w, Authenticate u' chal ad json cid) \<longleftrightarrow> u' = u"
| "account_call u (w, Listing u') \<longleftrightarrow> u' = u"

text \<open>The identifier a call asks to register, and for whom.\<close>

fun claims :: "('e, 's, 'r) ceremony \<Rightarrow> (string \<times> u8 list) option" where
  "claims (w, Register now u chal ad json cid pk) = Some (u, cid)"
| "claims (w, _) = None"

definition unshared_ids :: "string \<Rightarrow> ('e, 's, 'r) ceremony list \<Rightarrow> bool" where
  "unshared_ids u cs \<longleftrightarrow>
     (\<forall>c \<in> set cs. \<forall>c' \<in> set cs. \<forall>cid u'. claims c = Some (u, cid) \<longrightarrow> claims c' = Some (u', cid) \<longrightarrow> u' = u)"

text \<open>
  The challenge store is not the verifier's and may be shared with anybody, so what it answers
  may depend on the others. A call made alone brings the answer it had among the others with it.
\<close>

definition answering :: "(session_store_error + 'r) \<Rightarrow> ('e, 's, 'r) webauthn_env \<Rightarrow> ('e, 's, 'r) webauthn_env" where
  "answering r w = w\<lparr>challenge_verify := \<lambda>_ _ _ st. (r, st)\<rparr>"

fun with_answer :: "webauthn_config \<Rightarrow> ('e, 's, 'r) ceremony \<Rightarrow> 's verifier \<Rightarrow> ('e, 's, 'r) ceremony" where
  "with_answer cfg (w, c) v =
     (case store_answer cfg (w, c) v of None \<Rightarrow> (w, c) | Some r \<Rightarrow> (answering r w, c))"

lemma answering_fields [simp]:
  "sha256 (answering r w) = sha256 w"
  "client_data_ok (answering r w) = client_data_ok w"
  "rp_id_hash_check (answering r w) = rp_id_hash_check w"
  "client_data_check (answering r w) = client_data_check w"
  "challenge_verify (answering r w) k chal kind st = (r, st)"
  by (simp_all add: answering_def fun_eq_iff client_data_ok_def rp_id_hash_check_def client_data_check_def
      Let_def cong: if_cong)

lemma gate_answering:
  "ceremony_gate (answering (fst (challenge_verify w (challenge_key op (rp_id cfg) u) chal
      ''webauthn-challenge'' st)) w) cfg t op b u chal ad json st' =
    (fst (ceremony_gate w cfg t op b u chal ad json st), st')"
  by (simp add: ceremony_gate_def split: option.split)

section \<open>Unwinding\<close>

text \<open>
  Two verifiers look alike to \<open>u\<close>: the same credentials for \<open>u\<close>, and nobody else holds an
  identifier from \<open>own\<close>, the ones \<open>u\<close> may register. Their stores need not look alike.
\<close>

definition ids_of :: "registry \<Rightarrow> string \<Rightarrow> u8 list list" where
  "ids_of m u = map credential_id (creds_of m u)"

definition others_lack :: "string \<Rightarrow> (u8 list \<Rightarrow> bool) \<Rightarrow> registry \<Rightarrow> bool" where
  "others_lack u own m \<longleftrightarrow> (\<forall>u'. u' \<noteq> u \<longrightarrow> (\<forall>i \<in> set (ids_of m u'). \<not> own i))"

lemma ids_of_update:
  "ids_of (add_credential u c m) = (ids_of m)(u := ids_of m u @ [credential_id c])"
  "ids_of (hm_insert u (set_sign_count cid n (creds_of m u)) m) = ids_of m"
  by (simp_all add: ids_of_def fun_eq_iff)

definition alike :: "string \<Rightarrow> (u8 list \<Rightarrow> bool) \<Rightarrow> 's verifier \<Rightarrow> 's verifier \<Rightarrow> bool" where
  "alike u own v v' \<longleftrightarrow>
     hm_inv (credentials v) \<and> hm_inv (credentials v')
     \<and> creds_of (credentials v) u = creds_of (credentials v') u
     \<and> others_lack u own (credentials v) \<and> others_lack u own (credentials v')"

definition admissible :: "string \<Rightarrow> (u8 list \<Rightarrow> bool) \<Rightarrow> ('e, 's, 'r) ceremony \<Rightarrow> bool" where
  "admissible u own c \<longleftrightarrow> (case claims c of None \<Rightarrow> True | Some (u', cid) \<Rightarrow> own cid \<longleftrightarrow> u' = u)"

lemma others_lack_exists:
  assumes "hm_inv m" and "others_lack u own m" and "own cid"
  shows "credential_exists cid m \<longleftrightarrow> cid \<in> set (ids_of m u)"
proof -
  have "credential_exists cid m \<longleftrightarrow> (\<exists>u. cid \<in> set (ids_of m u))"
    unfolding ids_of_def by (rule credential_exists_user [OF assms(1)])
  then show ?thesis
    using assms(2,3) by (metis others_lack_def)
qed

lemma others_lack_add:
  "others_lack u own m \<Longrightarrow> u' = u \<or> \<not> own (credential_id c) \<Longrightarrow> others_lack u own (add_credential u' c m)"
  by (auto simp: others_lack_def ids_of_update)

lemma others_lack_count:
  "others_lack u own m \<Longrightarrow> others_lack u own (hm_insert u' (set_sign_count cid n (creds_of m u')) m)"
  by (simp add: others_lack_def ids_of_update)

lemma alike_exists:
  assumes "alike u own v v'" and "own cid"
  shows "credential_exists cid (credentials v) \<longleftrightarrow> credential_exists cid (credentials v')"
proof -
  have "ids_of (credentials v) u = ids_of (credentials v') u"
    using assms(1) by (simp add: alike_def ids_of_def)
  then show ?thesis
    using assms others_lack_exists [of "credentials v" u own cid] others_lack_exists [of "credentials v'" u own cid]
    by (simp add: alike_def)
qed

lemma alike_cong: "credentials v1 = credentials v \<Longrightarrow> alike u own v1 v' \<longleftrightarrow> alike u own v v'"
  by (simp add: alike_def)

lemma alike_store [simp]:
  "alike u own (v\<lparr>session_store := st\<rparr>) v' \<longleftrightarrow> alike u own v v'"
  "alike u own v (v'\<lparr>session_store := st\<rparr>) \<longleftrightarrow> alike u own v v'"
  by (simp_all add: alike_def)

lemma alike_other:
  assumes R: "alike u own v v'" and adm: "admissible u own (w, c)" and other: "\<not> account_call u (w, c)"
  shows "alike u own (snd (verifier_step cfg (w, c) v)) v'"
proof (cases c)
  case (Challenge g u' op)
  have "credentials (snd (generate_challenge w cfg g u' op v)) = credentials v"
    by (simp add: generate_challenge_def Let_def split: outcome.split sum.split prod.split)
  from alike_cong [OF this] show ?thesis
    using R by (simp add: Challenge)
next
  case (Register now u' chal ad json cid pk)
  obtain r st where g: "ceremony_gate w cfg ''webauthn.create'' ''create'' True u' chal ad json
      (session_store v) = (r, st)"
    by fastforce
  have "u' \<noteq> u" and "\<not> own cid"
    using adm other by (auto simp: Register admissible_def)
  then have "alike u own (v\<lparr>session_store := st, credentials := add_credential u' \<lparr>credential_id = cid,
      public_key = pk, cred_sign_count = sign_count ad, label = None, created_at = now\<rparr> (credentials v)\<rparr>) v'"
    using R by (simp add: alike_def hm_inv_add others_lack_add)
  then show ?thesis
    using R by (simp add: Register registration_gate g Let_def split: option.split)
next
  case (Authenticate u' chal ad json cid)
  obtain r st where g: "ceremony_gate w cfg ''webauthn.get'' ''get'' False u' chal ad json
      (session_store v) = (r, st)"
    by fastforce
  have "u' \<noteq> u"
    using other by (simp add: Authenticate)
  then have "alike u own (v\<lparr>session_store := st, credentials :=
      hm_insert u' (set_sign_count cid n (creds_of (credentials v) u')) (credentials v)\<rparr>) v'" for n
    using R by (simp add: alike_def hm_inv_insert others_lack_count)
  then show ?thesis
    using R by (simp add: Authenticate authentication_gate g Let_def split: option.split)
next
  case (Listing u')
  then show ?thesis
    using R by simp
qed

lemma alike_own:
  assumes R: "alike u own v v'" and adm: "admissible u own (w, c)" and mine: "account_call u (w, c)"
  shows "fst (verifier_step cfg (w, c) v) = fst (verifier_step cfg (with_answer cfg (w, c) v) v')
    \<and> alike u own (snd (verifier_step cfg (w, c) v)) (snd (verifier_step cfg (with_answer cfg (w, c) v) v'))"
proof (cases c)
  case (Challenge g u' op)
  then show ?thesis
    using mine by simp
next
  case (Register now u' chal ad json cid pk)
  have u: "u' = u" and own: "own cid"
    using adm mine by (auto simp: Register admissible_def)
  obtain r st where g: "ceremony_gate w cfg ''webauthn.create'' ''create'' True u chal ad json
      (session_store v) = (r, st)"
    by fastforce
  let ?c = "\<lparr>credential_id = cid, public_key = pk, cred_sign_count = sign_count ad, label = None,
    created_at = now\<rparr>"
  have "alike u own (v\<lparr>session_store := st, credentials := add_credential u ?c (credentials v)\<rparr>)
      (v'\<lparr>credentials := add_credential u ?c (credentials v')\<rparr>)"
    using R by (simp add: alike_def hm_inv_add others_lack_add)
  then show ?thesis
    using alike_exists [OF R own] R
    by (simp add: Register registration_gate gate_answering g u Let_def split: option.split)
next
  case (Authenticate u' chal ad json cid)
  have u: "u' = u" and same: "creds_of (credentials v) u = creds_of (credentials v') u"
    using mine R by (simp_all add: Authenticate alike_def)
  obtain r st where g: "ceremony_gate w cfg ''webauthn.get'' ''get'' False u chal ad json
      (session_store v) = (r, st)"
    by fastforce
  have "alike u own
      (v\<lparr>session_store := st, credentials := hm_insert u (set_sign_count cid n (creds_of (credentials v) u)) (credentials v)\<rparr>)
      (v'\<lparr>credentials := hm_insert u (set_sign_count cid n (creds_of (credentials v') u)) (credentials v')\<rparr>)" for n
    using R others_lack_count [of u own "credentials v" u] others_lack_count [of u own "credentials v'" u]
    by (simp add: alike_def hm_inv_insert)
  then show ?thesis
    using R same
    by (simp add: Authenticate authentication_gate gate_answering g u Let_def split: option.split)
next
  case (Listing u')
  then show ?thesis
    using R mine by (simp add: alike_def list_credentials_creds_of)
qed

interpretation users: separation "verifier_step cfg" "verifier_step cfg" "account_call u"
  "with_answer cfg" "alike u own" "\<lambda>c _. admissible u own c" for cfg u own
proof
  fix v v' :: "'s verifier" and c :: "('e, 's, 'r) ceremony"
  assume R: "alike u own v v'" and adm: "admissible u own c"
  obtain w q where c: "c = (w, q)"
    by (cases c) auto
  show "fst (verifier_step cfg c v) = fst (verifier_step cfg (with_answer cfg c v) v')" if "account_call u c"
    using alike_own [OF R, of w q cfg] adm that unfolding c by blast
  show "alike u own (snd (verifier_step cfg c v)) (snd (verifier_step cfg (with_answer cfg c v) v'))"
    if "account_call u c"
    using alike_own [OF R, of w q cfg] adm that unfolding c by blast
  show "alike u own (snd (verifier_step cfg c v)) v'" if "\<not> account_call u c"
    using alike_other [OF R, of w q cfg] adm that unfolding c by blast
qed

lemma alike_new: "alike u own (verifier_new st) (verifier_new st')"
  by (simp add: alike_def others_lack_def ids_of_def verifier_new_def creds_of_def)

lemma admitted_calls: "list_all adm cs \<Longrightarrow> admitted (\<lambda>c _. adm c) f cs s"
  by (induction cs arbitrary: s) simp_all

lemma admissible_calls:
  assumes "unshared_ids u cs"
  shows "list_all (admissible u (\<lambda>i. \<exists>c \<in> set cs. claims c = Some (u, i))) cs"
  using assms by (fastforce simp: list_all_iff unshared_ids_def admissible_def split: option.split)

lemma isolated_replies:
  assumes "unshared_ids u cs"
  shows "own_replies (account_call u) (verifier_step cfg) cs (verifier_new st) =
    replies (verifier_step cfg)
      (own_calls (account_call u) (with_answer cfg) (verifier_step cfg) cs (verifier_new st)) (verifier_new st')"
  by (rule users.separated [OF alike_new admitted_calls [OF admissible_calls [OF assms]]])

section \<open>Property\<close>

text \<open>
  C7. Users are isolated. Take any sequence of calls of any users on a new verifier over any
  challenge store, in which nobody else asks to register an identifier that \<open>u\<close> asks to register.
  The replies to all registrations, assertions and listings of \<open>u\<close> are those that these calls
  alone get from a new verifier, when the store answers each of their challenge checks as it did
  among the others. So the challenge store is the only way from one user to another: no number of
  registrations, assertions and challenges of other users changes a reply through the registry.
\<close>

theorem users_isolated:
  assumes "unshared_ids u cs"
  shows "own_replies (account_call u) (verifier_step cfg) cs (verifier_new st) =
    replies (verifier_step cfg)
      (own_calls (account_call u) (with_answer cfg) (verifier_step cfg) cs (verifier_new st)) (verifier_new st')"
  using assms by (rule isolated_replies)

text \<open>
  Two users take turns on one verifier, with a store that accepts everything; the second answers
  as if the first were not there.
\<close>

theorem users_isolated_witness:
  "own_replies (account_call ''u'') (verifier_step sample_config)
     [(sample_webauthn, Challenge (Some [1]) ''v'' ''create''),
      (sample_webauthn, Register ''now'' ''v'' ''c'' (sample_data 4) ''webauthn.create'' [2] [9]),
      (sample_webauthn, Register ''now'' ''u'' ''c'' (sample_data 4) ''webauthn.create'' [1] [9]),
      (sample_webauthn, Authenticate ''v'' ''c'' (sample_data 8) ''webauthn.get'' [1]),
      (sample_webauthn, Listing ''u'')]
     (verifier_new ()) = [Registration (Inr sample_credential), Listed [sample_credential]]"
  (is "own_replies _ _ ?cs _ = _")
proof -
  have ids: "unshared_ids ''u'' ?cs"
    by (auto simp: unshared_ids_def)
  have ans: "answering (Inr ()) sample_webauthn = sample_webauthn"
    by (simp add: answering_def sample_webauthn_def)
  have ask: "fst (challenge_verify sample_webauthn k c kind st) = Inr ()" for k c kind st
    by (simp add: sample_webauthn_def)
  have own: "own_calls (account_call ''u'') (with_answer sample_config) (verifier_step sample_config) ?cs (verifier_new ())
      = [(sample_webauthn, Register ''now'' ''u'' ''c'' (sample_data 4) ''webauthn.create'' [1] [9]),
         (sample_webauthn, Listing ''u'')]"
    by (simp add: ans ask del: verifier_step.simps)
  have "list_credentials ''u'' (sample_verifier 4) = [sample_credential]"
    by (simp add: list_credentials_def sample_verifier_def sample_credential_def hm_get_def)
  then show ?thesis
    using users_isolated [OF ids, of sample_config "()" "()"] sample_registration
    unfolding own by simp
qed

end
