(* ===== verification/Webauthn_Service.thy ===== *)
theory Webauthn_Service
  imports Webauthn_Isolation Webauthn_Assertions Webauthn_Challenges
begin

text \<open>
  An honest user of the verifier of \<open>src/webauthn.rs\<close> from registration to the last assertion, on a
  verifier that any number of other users call in between.
\<close>

section \<open>One user's calls\<close>

fun genuine_registration :: "webauthn_config \<Rightarrow> ('e, 's, 'r) webauthn_env \<Rightarrow> string \<Rightarrow> authenticator_data
    \<Rightarrow> string \<Rightarrow> bool" where
  "genuine_registration cfg w chal ad json \<longleftrightarrow>
     rp_id_hash ad = sha256 w (as_bytes (rp_id cfg)) \<and> up (flags ad) \<and> uv (flags ad)
     \<and> client_data_ok w cfg ''webauthn.create'' chal json"

text \<open>A call that the store let through, made alone: the same call over a store that lets it through.\<close>

fun let_through :: "('e, 's, 'r) webauthn_env \<times> 'q \<Rightarrow> ('e, 's, 'r) webauthn_env \<times> 'q \<Rightarrow> bool" where
  "let_through (w, q) (w', q') \<longleftrightarrow> q' = q \<and> (\<exists>r. w' = answering (Inr r) w)"

lemma with_answer_passes:
  assumes "challenge_passes cfg c v" and "challenge_asked cfg (snd c) \<noteq> None"
  shows "let_through c (with_answer cfg c v)"
  using assms by (cases c) (auto simp: challenge_passes_def split: sum.splits)

lemma own_calls_pass:
  assumes "admitted (\<lambda>c v. account_call u c \<longrightarrow> challenge_passes cfg c v) (verifier_step cfg) cs v"
    and "list_all (\<lambda>c. challenge_asked cfg (snd c) \<noteq> None) (filter (account_call u) cs)"
  shows "list_all2 let_through (filter (account_call u) cs)
    (own_calls (account_call u) (with_answer cfg) (verifier_step cfg) cs v)"
  using assms by (induction cs arbitrary: v) (auto simp: with_answer_passes simp del: with_answer.simps)

lemma let_through_genuine:
  assumes "list_all2 let_through as as'" and "list_all (genuine_assertion cfg) as"
  shows "list_all (genuine_assertion cfg) as' \<and> map shown_count as' = map shown_count as"
  using assms by (induction rule: list_all2_induct) auto

lemma let_through_admitted:
  assumes "list_all2 let_through as as'"
  shows "admitted (challenge_passes cfg) (verifier_step cfg) (map (assertion_call u cid) as') v"
  using assms
  by (induction arbitrary: v rule: list_all2_induct) (auto simp: challenge_passes_def simp del: verifier_step.simps)

lemma let_through_calls:
  "list_all2 let_through (map (assertion_call u cid) as) ds \<Longrightarrow>
     \<exists>as'. ds = map (assertion_call u cid) as' \<and> list_all2 let_through as as'"
proof (induction as arbitrary: ds)
  case (Cons a as)
  then obtain d ds' where ds: "ds = d # ds'" and d: "let_through (assertion_call u cid a) d"
    and "list_all2 let_through (map (assertion_call u cid) as) ds'"
    by (auto simp: list_all2_Cons1)
  with Cons.IH obtain as' where "ds' = map (assertion_call u cid) as'" "list_all2 let_through as as'"
    by blast
  moreover obtain w chal ad json where a: "a = (w, chal, ad, json)"
    by (cases a) auto
  moreover from d obtain r where "d = assertion_call u cid (answering (Inr r) w, chal, ad, json)"
    by (cases d) (auto simp: a)
  moreover have "let_through a (answering (Inr r) w, chal, ad, json)"
    by (auto simp: a)
  ultimately show ?case
    using ds by (intro exI [of _ "(answering (Inr r) w, chal, ad, json) # as'"]) simp
qed simp

lemma registration_step:
  assumes "genuine_registration cfg w chal ad json"
  obtains c v where "verifier_step cfg (answering (Inr r) w, Register now u chal ad json cid pk) (verifier_new st)
      = (Registration (Inr c), v)"
    and "c = \<lparr>credential_id = cid, public_key = pk, cred_sign_count = sign_count ad, label = None, created_at = now\<rparr>"
    and "list_credentials u v = [c]"
proof -
  let ?c = "\<lparr>credential_id = cid, public_key = pk, cred_sign_count = sign_count ad, label = None,
    created_at = now\<rparr>"
  let ?v = "(verifier_new st)\<lparr>session_store := st, credentials := add_credential u ?c []\<rparr>"
  have "verify_registration (answering (Inr r) w) cfg now u chal ad json cid pk (verifier_new st) = (Inr ?c, ?v)"
    unfolding verify_registration_Inr using assms
    by (simp add: verifier_new_def credential_exists_def)
  then show thesis
    using that [of ?c ?v] by (simp add: list_credentials_creds_of) (simp add: creds_of_def)
qed

section \<open>Property\<close>

text \<open>
  C22. An honest user is served. On a new verifier over any challenge store let any users make any
  calls, the identifier of the user's authenticator being registered by nobody else. If the user's
  own calls are one genuine registration with a non-empty key and after it any number of genuine
  assertions whose counters rise, and the store answers \<open>Ok\<close> to the challenge of each of them when
  it is made, all of them are accepted, in whatever way the calls of the others fall between them.
\<close>

theorem honest_user_served:
  assumes "unshared_ids u cs"
    and "filter (account_call u) cs = (w, Register now u chal ad json cid pk) # map (assertion_call u cid) as"
    and "admitted (\<lambda>c v. account_call u c \<longrightarrow> challenge_passes cfg c v) (verifier_step cfg) cs (verifier_new st)"
    and "genuine_registration cfg w chal ad json" and "pk \<noteq> []"
    and "list_all (genuine_assertion cfg) as" and "sorted_wrt (<) (sign_count ad # map shown_count as)"
  shows "own_replies (account_call u) (verifier_step cfg) cs (verifier_new st) =
    Registration (Inr \<lparr>credential_id = cid, public_key = pk, cred_sign_count = sign_count ad,
      label = None, created_at = now\<rparr>) # replicate (length as) (Authentication (Inr ()))"
proof -
  let ?own = "own_calls (account_call u) (with_answer cfg) (verifier_step cfg) cs (verifier_new st)"
  have "list_all2 let_through (filter (account_call u) cs) ?own"
  proof (rule own_calls_pass [OF assms(3)])
    have "challenge_asked cfg (snd (assertion_call u cid a)) \<noteq> None" for a :: "('a, 'b, 'c) assertion"
      by (cases a) simp
    then show "list_all (\<lambda>c. challenge_asked cfg (snd c) \<noteq> None) (filter (account_call u) cs)"
      by (simp add: assms(2) list_all_iff)
  qed
  then obtain d ds where d: "?own = d # ds" "let_through (w, Register now u chal ad json cid pk) d"
    and ds: "list_all2 let_through (map (assertion_call u cid) as) ds"
    unfolding assms(2) list_all2_Cons1 by blast
  from d(2) obtain r where "d = (answering (Inr r) w, Register now u chal ad json cid pk)"
    by (cases d) auto
  moreover obtain as' where "ds = map (assertion_call u cid) as'" and as': "list_all2 let_through as as'"
    using let_through_calls [OF ds] by blast
  ultimately have own: "?own = (answering (Inr r) w, Register now u chal ad json cid pk)
      # map (assertion_call u cid) as'"
    using d(1) by simp
  obtain c v where reg: "verifier_step cfg (answering (Inr r) w, Register now u chal ad json cid pk) (verifier_new st)
      = (Registration (Inr c), v)"
    and c: "c = \<lparr>credential_id = cid, public_key = pk, cred_sign_count = sign_count ad, label = None,
      created_at = now\<rparr>"
    and v: "list_credentials u v = [c]"
    using registration_step [OF assms(4)] .
  note genuine = let_through_genuine [OF as' assms(6)]
  have "replies (verifier_step cfg) (map (assertion_call u cid) as') v =
      map assertion_reply (high_water (cred_sign_count c) (map shown_count as'))"
    using genuine assms(5) by (intro assertions_high_water let_through_admitted [OF as']) (simp_all add: v c)
  also have "\<dots> = replicate (length as) (Authentication (Inr ()))"
    using assms(7) genuine by (simp add: c high_water_increasing assertion_reply_def)
  finally show ?thesis
    using isolated_replies [OF assms(1), of cfg st st] reg
    by (simp add: own c del: verifier_step.simps)
qed

text \<open>
  A user registers and signs in twice, while another registers, and fails to sign in, in between;
  the store consumes the challenges it issues.
\<close>

theorem honest_user_served_witness:
  "own_replies (account_call ''u'') (verifier_step sample_config)
     [(ticket_webauthn, Challenge (Some [1]) ''v'' ''create''),
      (ticket_webauthn, Challenge (Some [1]) ''u'' ''create''),
      (ticket_webauthn, Register ''now'' ''v'' ''c'' (sample_data 4) ''webauthn.create'' [2] [9]),
      (ticket_webauthn, Register ''now'' ''u'' ''c'' (sample_data 4) ''webauthn.create'' [1] [9]),
      (ticket_webauthn, Authenticate ''v'' ''c'' (sample_data 8) ''webauthn.get'' [1]),
      (ticket_webauthn, Challenge (Some [1]) ''u'' ''get''),
      (ticket_webauthn, Authenticate ''u'' ''c'' (sample_data 5) ''webauthn.get'' [1]),
      (ticket_webauthn, Challenge (Some [1]) ''u'' ''get''),
      (ticket_webauthn, Authenticate ''u'' ''c'' (sample_data 6) ''webauthn.get'' [1])]
     (verifier_new Map.empty) =
   [Registration (Inr sample_credential), Authentication (Inr ()), Authentication (Inr ())]"
  (is "own_replies _ _ ?cs _ = _")
proof -
  let ?as = "map (\<lambda>n. (ticket_webauthn, ''c'', sample_data n, ''webauthn.get'')) [5, 6]"
  have ids: "unshared_ids ''u'' ?cs"
    by (auto simp: unshared_ids_def)
  have own: "filter (account_call ''u'') ?cs =
      (ticket_webauthn, Register ''now'' ''u'' ''c'' (sample_data 4) ''webauthn.create'' [1] [9])
        # map (assertion_call ''u'' [1]) ?as"
    by simp
  have adm: "admitted (\<lambda>c v. account_call ''u'' c \<longrightarrow> challenge_passes sample_config c v)
      (verifier_step sample_config) ?cs (verifier_new Map.empty)"
    by (simp add: challenge_passes_def generate_challenge_def rand_bytes_def Let_def verifier_new_def
        verify_registration_store verify_authentication_store challenge_key_def
        ticket_webauthn_def sample_simps)
  have gr: "genuine_registration sample_config ticket_webauthn ''c'' (sample_data 4) ''webauthn.create''"
    and ga: "list_all (genuine_assertion sample_config) ?as"
    by (simp_all add: ticket_webauthn_def sample_simps)
  have srt: "sorted_wrt (<) (sign_count (sample_data 4) # map shown_count ?as)"
    by (simp add: sample_data_def)
  show ?thesis
    using honest_user_served [OF ids own adm gr _ ga srt]
    by (simp add: sample_credential_def sample_data_def numeral_2_eq_2)
qed

end
