(* ===== verification/Webauthn_Errors.thy ===== *)
theory Webauthn_Errors
  imports Webauthn_Table
begin

text \<open>
  Which error the two verifications of \<open>src/webauthn.rs\<close> answer, and when: the checks in order, each
  error with the exact condition under which it is the first to fail.
\<close>

section \<open>What stops a ceremony\<close>

text \<open>The client data as parsed, when type, challenge and origin are not the expected ones.\<close>

definition client_data_wrong ::
  "('e, 's, 'r) webauthn_env \<Rightarrow> webauthn_config \<Rightarrow> string \<Rightarrow> string \<Rightarrow> string \<Rightarrow> bool" where
  "client_data_wrong w cfg type chal json \<longleftrightarrow>
     (\<exists>cd. client_data_from_json w json = Inr cd
        \<and> (ty cd \<noteq> type \<or> challenge cd \<noteq> chal \<or> origin cd \<notin> set (allowed_origins cfg)))"

definition right_party :: "('e, 's, 'r) webauthn_env \<Rightarrow> webauthn_config \<Rightarrow> authenticator_data \<Rightarrow> bool" where
  "right_party w cfg ad \<longleftrightarrow> rp_id_hash ad = sha256 w (as_bytes (rp_id cfg))"

lemma client_data_check_cases:
  "client_data_check w cfg t chal json = Some err \<longleftrightarrow>
     (\<exists>e. client_data_from_json w json = Inl e \<and> err = ClientDataJsonErr e)
     \<or> client_data_wrong w cfg t chal json \<and> err = ChallengeNotFound"
  by (auto simp: client_data_check_def client_data_wrong_def split: sum.splits)

lemma ceremony_gate_refuses:
  "fst (ceremony_gate w cfg type operation verified u chal ad json st) = Some err \<longleftrightarrow>
     \<not> right_party w cfg ad
       \<and> err = RpIdHashMismatch (b64url_encode w (sha256 w (as_bytes (rp_id cfg)))) (b64url_encode w (rp_id_hash ad))
     \<or> right_party w cfg ad \<and> \<not> up (flags ad) \<and> err = UserPresenceNotSet
     \<or> right_party w cfg ad \<and> up (flags ad) \<and> verified \<and> \<not> uv (flags ad) \<and> err = UserVerificationNotSet
     \<or> right_party w cfg ad \<and> up (flags ad) \<and> (verified \<longrightarrow> uv (flags ad))
       \<and> client_data_check w cfg type chal json = Some err
     \<or> right_party w cfg ad \<and> up (flags ad) \<and> (verified \<longrightarrow> uv (flags ad))
       \<and> client_data_ok w cfg type chal json
       \<and> (\<exists>e. fst (challenge_verify w (challenge_key operation (rp_id cfg) u) chal ''webauthn-challenge'' st)
              = Inl e \<and> err = SessionStoreErr e)"
  unfolding client_data_check_None [symmetric]
  by (auto simp: ceremony_gate_def rp_id_hash_check_def right_party_def require_def or_else_def Let_def
      split: option.split sum.split)

text \<open>Every answer of a registration, by the gate: its refusal, a duplicate, or the credential.\<close>

definition gate_passed ::
  "('e, 's, 'r) webauthn_env \<Rightarrow> webauthn_config \<Rightarrow> string \<Rightarrow> string \<Rightarrow> bool \<Rightarrow> string \<Rightarrow> string
     \<Rightarrow> authenticator_data \<Rightarrow> string \<Rightarrow> 's \<Rightarrow> bool" where
  "gate_passed w cfg type operation verified u chal ad json st \<longleftrightarrow>
     right_party w cfg ad \<and> up (flags ad) \<and> (verified \<longrightarrow> uv (flags ad))
     \<and> client_data_ok w cfg type chal json
     \<and> (\<exists>r. fst (challenge_verify w (challenge_key operation (rp_id cfg) u) chal ''webauthn-challenge'' st) = Inr r)"

lemma ceremony_gate_passes:
  "fst (ceremony_gate w cfg type operation verified u chal ad json st) = None \<longleftrightarrow>
     gate_passed w cfg type operation verified u chal ad json st"
  unfolding client_data_check_None [symmetric] gate_passed_def
  by (auto simp: ceremony_gate_def rp_id_hash_check_def right_party_def require_def or_else_def Let_def
      split: option.split sum.split)

lemma registration_answers:
  "fst (verify_registration w cfg now u chal ad json cid pk v) = Inl err \<longleftrightarrow>
     fst (ceremony_gate w cfg ''webauthn.create'' ''create'' True u chal ad json (session_store v)) = Some err
     \<or> gate_passed w cfg ''webauthn.create'' ''create'' True u chal ad json (session_store v)
       \<and> credential_exists cid (credentials v) \<and> err = CredentialAlreadyExists"
  unfolding ceremony_gate_passes [symmetric]
  by (auto simp: registration_gate Let_def split: prod.split option.split)

lemma authentication_answers:
  "fst (verify_authentication w cfg u chal ad json cid v) = Inl err \<longleftrightarrow>
     fst (ceremony_gate w cfg ''webauthn.get'' ''get'' False u chal ad json (session_store v)) = Some err
     \<or> gate_passed w cfg ''webauthn.get'' ''get'' False u chal ad json (session_store v)
       \<and> (\<nexists>c. find_credential cid (list_credentials u v) = Some c \<and> cred_sign_count c < sign_count ad
             \<and> public_key c \<noteq> []) \<and> err = CredentialNotFound"
  unfolding ceremony_gate_passes [symmetric]
  by (auto simp: authentication_gate list_credentials_creds_of Let_def split: prod.split option.split)

lemmas error_cases = ceremony_gate_refuses client_data_check_cases

section \<open>Properties\<close>

text \<open>
  C25. The errors of a registration. The checks are made in one order, and each error comes back
  exactly when its check is the first to fail: the relying party, user presence, user
  verification, the client data as JSON, its contents (type, challenge or origin, all three
  reported as \<open>ChallengeNotFound\<close>), the session store, and last the identifier, which must be
  new. The two remaining errors of the type never come back.
\<close>

theorem registration_errors_exact:
  "(fst (verify_registration w cfg now u chal ad json cid pk v) = Inl (RpIdHashMismatch a b) \<longleftrightarrow>
      \<not> right_party w cfg ad \<and> a = b64url_encode w (sha256 w (as_bytes (rp_id cfg)))
      \<and> b = b64url_encode w (rp_id_hash ad))
   \<and> (fst (verify_registration w cfg now u chal ad json cid pk v) = Inl UserPresenceNotSet \<longleftrightarrow>
      right_party w cfg ad \<and> \<not> up (flags ad))
   \<and> (fst (verify_registration w cfg now u chal ad json cid pk v) = Inl UserVerificationNotSet \<longleftrightarrow>
      right_party w cfg ad \<and> up (flags ad) \<and> \<not> uv (flags ad))
   \<and> (fst (verify_registration w cfg now u chal ad json cid pk v) = Inl (ClientDataJsonErr e) \<longleftrightarrow>
      right_party w cfg ad \<and> up (flags ad) \<and> uv (flags ad) \<and> client_data_from_json w json = Inl e)
   \<and> (fst (verify_registration w cfg now u chal ad json cid pk v) = Inl ChallengeNotFound \<longleftrightarrow>
      right_party w cfg ad \<and> up (flags ad) \<and> uv (flags ad)
      \<and> client_data_wrong w cfg ''webauthn.create'' chal json)
   \<and> (fst (verify_registration w cfg now u chal ad json cid pk v) = Inl (SessionStoreErr se) \<longleftrightarrow>
      right_party w cfg ad \<and> up (flags ad) \<and> uv (flags ad)
      \<and> client_data_ok w cfg ''webauthn.create'' chal json
      \<and> fst (challenge_verify w (challenge_key ''create'' (rp_id cfg) u) chal ''webauthn-challenge''
             (session_store v)) = Inl se)
   \<and> (fst (verify_registration w cfg now u chal ad json cid pk v) = Inl CredentialAlreadyExists \<longleftrightarrow>
      gate_passed w cfg ''webauthn.create'' ''create'' True u chal ad json (session_store v)
      \<and> credential_exists cid (credentials v))
   \<and> fst (verify_registration w cfg now u chal ad json cid pk v) \<noteq> Inl CredentialNotFound
   \<and> fst (verify_registration w cfg now u chal ad json cid pk v) \<noteq> Inl (Base64Err e)"
  unfolding registration_answers error_cases by (auto simp: client_data_wrong_def)

text \<open>
  C26. The errors of an authentication. User verification is not asked for; after the gate every
  refusal is \<open>CredentialNotFound\<close>: no credential of this user with the identifier, a counter
  that does not exceed the stored one, or a credential without a key.
\<close>

theorem authentication_errors_exact:
  "(fst (verify_authentication w cfg u chal ad json cid v) = Inl (RpIdHashMismatch a b) \<longleftrightarrow>
      \<not> right_party w cfg ad \<and> a = b64url_encode w (sha256 w (as_bytes (rp_id cfg)))
      \<and> b = b64url_encode w (rp_id_hash ad))
   \<and> (fst (verify_authentication w cfg u chal ad json cid v) = Inl UserPresenceNotSet \<longleftrightarrow>
      right_party w cfg ad \<and> \<not> up (flags ad))
   \<and> (fst (verify_authentication w cfg u chal ad json cid v) = Inl (ClientDataJsonErr e) \<longleftrightarrow>
      right_party w cfg ad \<and> up (flags ad) \<and> client_data_from_json w json = Inl e)
   \<and> (fst (verify_authentication w cfg u chal ad json cid v) = Inl ChallengeNotFound \<longleftrightarrow>
      right_party w cfg ad \<and> up (flags ad) \<and> client_data_wrong w cfg ''webauthn.get'' chal json)
   \<and> (fst (verify_authentication w cfg u chal ad json cid v) = Inl (SessionStoreErr se) \<longleftrightarrow>
      right_party w cfg ad \<and> up (flags ad) \<and> client_data_ok w cfg ''webauthn.get'' chal json
      \<and> fst (challenge_verify w (challenge_key ''get'' (rp_id cfg) u) chal ''webauthn-challenge''
             (session_store v)) = Inl se)
   \<and> (fst (verify_authentication w cfg u chal ad json cid v) = Inl CredentialNotFound \<longleftrightarrow>
      gate_passed w cfg ''webauthn.get'' ''get'' False u chal ad json (session_store v)
      \<and> (\<nexists>c. find_credential cid (list_credentials u v) = Some c
             \<and> cred_sign_count c < sign_count ad \<and> public_key c \<noteq> []))
   \<and> fst (verify_authentication w cfg u chal ad json cid v) \<noteq> Inl UserVerificationNotSet
   \<and> fst (verify_authentication w cfg u chal ad json cid v) \<noteq> Inl CredentialAlreadyExists
   \<and> fst (verify_authentication w cfg u chal ad json cid v) \<noteq> Inl (Base64Err e)"
  unfolding authentication_answers error_cases by (auto simp: client_data_wrong_def)

end
