(* ===== verification/Webauthn_Debug.thy ===== *)
theory Webauthn_Debug
  imports Webauthn Json
begin

text \<open>
  What leaves the verifier of \<open>src/webauthn.rs\<close> as text: the \<open>Debug\<close> output, which goes into logs,
  and the keys under which challenges are stored, among them keys of the users named by a UUID.
\<close>

section \<open>Debug\<close>

definition list_debug :: "('a \<Rightarrow> string) \<Rightarrow> 'a list \<Rightarrow> string" where
  "list_debug d xs = ''['' @ intercalate '', '' (map d xs) @ '']''"

text \<open>\<open>debug_struct\<close> with three fields and \<open>finish_non_exhaustive\<close>: store and registry are left out.\<close>

definition verifier_debug :: "(string \<Rightarrow> string) \<Rightarrow> webauthn_config \<Rightarrow> 's verifier \<Rightarrow> string" where
  "verifier_debug esc cfg v =
     ''WebAuthnVerifier { rp_id: '' @ str_debug esc (rp_id cfg)
     @ '', allowed_origins: '' @ list_debug (str_debug esc) (allowed_origins cfg)
     @ '', challenge_ttl_secs: '' @ show_nat (unat (challenge_ttl_secs cfg)) @ '', .. }''"

lemma one_line_show_nat: "one_line (show_nat n)"
  by (fastforce simp: one_line_def list_all_iff is_digit_def dest: show_nat_digits)

section \<open>Keys\<close>

text \<open>\<open>uuid.to_string()\<close>: the text of a UUID is the \<open>uuid\<close> crate's.\<close>

definition user_id_from_uuid :: "('uuid \<Rightarrow> string) \<Rightarrow> 'uuid \<Rightarrow> string" where
  "user_id_from_uuid to_text uuid = to_text uuid"

lemma append_colon_eq:
  "CHR '':'' \<notin> set a \<Longrightarrow> CHR '':'' \<notin> set b \<Longrightarrow>
     a @ CHR '':'' # s = b @ CHR '':'' # t \<longleftrightarrow> a = b \<and> s = t"
  by (metis option.inject prod.inject split_once_append)

lemma challenge_key_eq:
  assumes "CHR '':'' \<notin> set op" and "CHR '':'' \<notin> set op'" and "CHR '':'' \<notin> set rp"
    and "CHR '':'' \<notin> set rp'"
  shows "challenge_key op rp u = challenge_key op' rp' u' \<longleftrightarrow> op = op' \<and> rp = rp' \<and> u = u'"
proof -
  have "challenge_key op rp u = ''webauthn:'' @ op @ CHR '':'' # rp @ CHR '':'' # u" for op rp u
    by (simp add: challenge_key_def)
  then show ?thesis
    using append_colon_eq [OF assms(1,2)] append_colon_eq [OF assms(3,4)] by simp
qed

section \<open>Properties\<close>

text \<open>
  The log line of a verifier. \<open>Debug\<close> writes one line whatever the relying party identifier and
  the origins contain (line breaks and control characters in them are escaped), provided the
  table for the other code points writes none, and it does not depend on the credentials and
  the session store.
\<close>

theorem verifier_debug_one_line:
  assumes "\<And>t. one_line (esc t)"
  shows "one_line (verifier_debug esc cfg v) \<and> verifier_debug esc cfg v = verifier_debug esc cfg v'"
proof -
  have s: "one_line (str_debug esc t)" for t
    using one_line_escape [of esc t] assms by (simp add: str_debug_def)
  have "one_line (intercalate '', '' (map (str_debug esc) (allowed_origins cfg)))"
    by (rule one_line_intercalate) (simp_all add: list_all_iff s)
  then show ?thesis
    by (simp add: verifier_debug_def list_debug_def s one_line_show_nat)
qed

theorem verifier_debug_one_line_witness:
  "one_line (verifier_debug (\<lambda>_. ''?'') (config_new [CHR 0x0A] [[CHR 0x22, CHR 0x1B]]) (verifier_new ()))
   \<and> verifier_debug (\<lambda>_. ''?'') (config_new ''a'' [[CHR 0x1B]]) (verifier_new ()) =
       ''WebAuthnVerifier { rp_id: '' @ [CHR 0x22, CHR ''a'', CHR 0x22] @ '', allowed_origins: [''
       @ [CHR 0x22, CHR 0x5C] @ ''u{1b}'' @ [CHR 0x22] @ ''], challenge_ttl_secs: 60, .. }''"
proof -
  have "one_line ''?''"
    by simp
  moreover have "verifier_debug (\<lambda>_. ''?'') (config_new ''a'' [[CHR 0x1B]]) (verifier_new ()) =
       ''WebAuthnVerifier { rp_id: '' @ [CHR 0x22, CHR ''a'', CHR 0x22] @ '', allowed_origins: [''
       @ [CHR 0x22, CHR 0x5C] @ ''u{1b}'' @ [CHR 0x22] @ ''], challenge_ttl_secs: 60, .. }''"
    by (simp add: verifier_debug_def config_new_def str_debug_def list_debug_def escape_debug_ascii_def
        show_hex.simps hex_lower_def digit_char_def char_of_eq_iff show_nat.simps Let_def)
  ultimately show ?thesis
    using verifier_debug_one_line [of "\<lambda>_. ''?''" "config_new [CHR 0x0A] [[CHR 0x22, CHR 0x1B]]" "verifier_new ()"]
    by blast
qed

text \<open>
  Challenges do not meet. The key of a challenge determines the operation, the relying party
  and the user, whatever the user identifier is, as long as operation and relying party have no
  colon in them (the two operations and every domain); so users named by different UUIDs have
  different keys wherever the text of a UUID is unique.
\<close>

theorem challenge_keys_separate:
  assumes "CHR '':'' \<notin> set op" and "CHR '':'' \<notin> set op'" and "CHR '':'' \<notin> set rp"
    and "CHR '':'' \<notin> set rp'"
  shows "(challenge_key op rp u = challenge_key op' rp' u' \<longleftrightarrow> op = op' \<and> rp = rp' \<and> u = u')
    \<and> (inj to_text \<longrightarrow> (challenge_key op rp (user_id_from_uuid to_text i) =
          challenge_key op' rp' (user_id_from_uuid to_text j) \<longleftrightarrow> op = op' \<and> rp = rp' \<and> i = j))"
  using challenge_key_eq [OF assms] by (auto simp: user_id_from_uuid_def inj_eq)

theorem challenge_keys_separate_witness:
  "challenge_key ''create'' ''a'' ''x:y'' \<noteq> challenge_key ''get'' ''a'' ''x:y''
   \<and> challenge_key ''a'' ''a:b'' ''c'' = challenge_key ''a'' ''a'' ''b:c''"
proof -
  have no_colon: "CHR '':'' \<notin> set ''create''" "CHR '':'' \<notin> set ''get''" "CHR '':'' \<notin> set ''a''"
    by simp_all
  show ?thesis
    using challenge_keys_separate [OF no_colon(1,2,3,3), of "''x:y''" "''x:y''"]
    by (simp add: challenge_key_def)
qed

end
