(* ===== verification/Oidc.thy ===== *)
theory Oidc
  imports AuthKit_Prelude
begin

text \<open>
  \<open>src/oidc.rs\<close>: OpenID Connect discovery and the cached fetch of JSON Web Key Sets.

  \<open>oidc_env\<close> holds what the crate takes from \<open>url\<close> and \<open>reqwest\<close>: parsing, the path of a URL
  and its replacement, the client builder, and the three fallible steps of a request (\<open>send\<close>,
  \<open>error_for_status\<close>, \<open>json\<close>, the last one on the types this file derives \<open>Deserialize\<close> for).
  A request has no other effect on the client, so the network is a function of the call's
  environment; two calls may have different environments. Monotonic instants and durations are
  naturals, in nanoseconds, and \<open>elapsed\<close> saturates at 0 as natural subtraction does. No code
  panics while it holds the cache mutex, so its \<open>expect\<close>s do not fire.
\<close>

section \<open>Data\<close>

record discovery_doc =
  doc_issuer :: string
  authorization_endpoint :: "string option"
  token_endpoint :: "string option"
  jwks_uri :: "string option"
  userinfo_endpoint :: "string option"
  end_session_endpoint :: "string option"
  introspection_endpoint :: "string option"
  revocation_endpoint :: "string option"
  response_types_supported :: "string list"
  subject_types_supported :: "string list"
  id_token_signing_alg_values_supported :: "string list"
  code_challenge_methods_supported :: "string list"
  scopes_supported :: "string list"
  claims_supported :: "string list"

record jwk =
  jwk_kty :: string
  jwk_use :: "string option"
  jwk_kid :: "string option"
  jwk_alg :: "string option"
  jwk_n :: "string option"
  jwk_e :: "string option"
  jwk_crv :: "string option"
  jwk_x :: "string option"
  jwk_y :: "string option"
  jwk_k :: "string option"
  jwk_x5c :: "string list"

record jwks_doc =
  keys :: "jwk list"

record cached_jwks =
  fetched_at :: nat
  by_kid :: "(string, jwk) hashmap"

definition jwks_lookup :: "cached_jwks \<Rightarrow> string \<Rightarrow> jwk option" where
  "jwks_lookup c kid = hm_get (by_kid c) kid"

definition is_fresh :: "nat \<Rightarrow> cached_jwks \<Rightarrow> nat \<Rightarrow> bool" where
  "is_fresh now c ttl \<longleftrightarrow> now - fetched_at c < ttl"

text \<open>
  The errors carry those of \<open>url\<close> (\<open>'p\<close>), \<open>reqwest\<close> (\<open>'h\<close>) and \<open>serde_json\<close> (\<open>'j\<close>). Without
  the feature the type has the first constructor only, with the same text.
\<close>

datatype ('p, 'h, 'j) discovery_error =
    NotEnabled
  | InvalidIssuerUrl string
  | InvalidDiscoveryUrl 'p
  | Http 'h
  | Json 'j
  | IssuerMismatch string string

fun discovery_error_display ::
  "('p \<Rightarrow> string) \<Rightarrow> ('h \<Rightarrow> string) \<Rightarrow> ('j \<Rightarrow> string) \<Rightarrow> ('p, 'h, 'j) discovery_error \<Rightarrow> string" where
  "discovery_error_display dp dh dj NotEnabled = ''oidc feature is not enabled on authkit''"
| "discovery_error_display dp dh dj (InvalidIssuerUrl s) = ''invalid issuer url: '' @ s"
| "discovery_error_display dp dh dj (InvalidDiscoveryUrl p) =
     ''failed to parse discovery url: '' @ dp p"
| "discovery_error_display dp dh dj (Http h) = ''http error: '' @ dh h"
| "discovery_error_display dp dh dj (Json j) = ''invalid json: '' @ dj j"
| "discovery_error_display dp dh dj (IssuerMismatch doc req) =
     ''issuer mismatch: discovery doc says '' @ doc @ '', request used '' @ req"

datatype discovery_error_stub = StubNotEnabled

fun discovery_error_stub_display :: "discovery_error_stub \<Rightarrow> string" where
  "discovery_error_stub_display StubNotEnabled = ''oidc feature is not enabled on authkit''"

record 'cl discovery_client =
  http :: 'cl
  user_agent :: string
  jwks_cache :: "cached_jwks option"
  cache_ttl :: nat

record ('p, 'h, 'url, 'resp, 'cl) oidc_env =
  url_parse :: "string \<Rightarrow> 'p + 'url"
  url_error_display :: "'p \<Rightarrow> string"
  url_path :: "'url \<Rightarrow> string"
  url_set_path :: "string \<Rightarrow> 'url \<Rightarrow> 'url"
  build_client :: "string \<Rightarrow> nat \<Rightarrow> 'h + 'cl"
  send_url :: "'cl \<Rightarrow> 'url \<Rightarrow> 'h + 'resp"
  send_str :: "'cl \<Rightarrow> string \<Rightarrow> 'h + 'resp"
  error_for_status :: "'resp \<Rightarrow> 'h + 'resp"
  json_discovery :: "'resp \<Rightarrow> 'h + discovery_doc"
  json_jwks :: "'resp \<Rightarrow> 'h + jwks_doc"

section \<open>Operations\<close>

definition seconds :: "nat \<Rightarrow> nat" where
  "seconds n = n * 1000000000"

text \<open>\<open>concat!("authkit/", env!("CARGO_PKG_VERSION"))\<close>, the version being that of \<open>Cargo.toml\<close>.\<close>

definition agent :: string where
  "agent = ''authkit/0.1.0''"

definition client_new ::
  "('p, 'h, 'url, 'resp, 'cl) oidc_env \<Rightarrow> ('p, 'h, 'j) discovery_error + 'cl discovery_client" where
  "client_new w =
     (case build_client w agent (seconds 10) of
        Inl err \<Rightarrow> Inl (Http err)
      | Inr cl \<Rightarrow> Inr \<lparr>http = cl, user_agent = agent, jwks_cache = None, cache_ttl = seconds 600\<rparr>)"

definition client_default :: "('p, 'h, 'url, 'resp, 'cl) oidc_env \<Rightarrow> 'cl discovery_client outcome" where
  "client_default w =
     (case (client_new w :: ('p, 'h, unit) discovery_error + _) of Inl _ \<Rightarrow> Panic | Inr c \<Rightarrow> Ret c)"

text \<open>On a client that is not shared, where \<open>Arc::make_mut\<close> changes the value in place.\<close>

definition with_cache_ttl :: "nat \<Rightarrow> 'cl discovery_client \<Rightarrow> 'cl discovery_client" where
  "with_cache_ttl t c = c\<lparr>cache_ttl := t\<rparr>"

definition trim_end_slashes :: "string \<Rightarrow> string" where
  "trim_end_slashes s = rev (dropWhile (\<lambda>c. c = CHR ''/'') (rev s))"

definition well_known :: string where
  "well_known = ''/.well-known/openid-configuration''"

definition discovery_path :: "string \<Rightarrow> string" where
  "discovery_path p = trim_end_slashes p @ well_known"

text \<open>\<open>send().await?.error_for_status()?.json().await?\<close>: every error of the chain is \<open>reqwest\<close>'s.\<close>

definition fetch :: "('resp \<Rightarrow> 'h + 'resp) \<Rightarrow> ('resp \<Rightarrow> 'h + 'a) \<Rightarrow> 'h + 'resp \<Rightarrow> 'h + 'a" where
  "fetch status json sent =
     (case sent of Inl err \<Rightarrow> Inl err
      | Inr r \<Rightarrow> (case status r of Inl err \<Rightarrow> Inl err | Inr r' \<Rightarrow> json r'))"

definition discover ::
  "('p, 'h, 'url, 'resp, 'cl) oidc_env \<Rightarrow> string \<Rightarrow> 'cl discovery_client
     \<Rightarrow> ('p, 'h, 'j) discovery_error + discovery_doc" where
  "discover w iss c =
     (case url_parse w iss of
        Inl err \<Rightarrow> Inl (InvalidIssuerUrl (url_error_display w err @ '': '' @ iss))
      | Inr u \<Rightarrow>
     (case fetch (error_for_status w) (json_discovery w)
             (send_url w (http c) (url_set_path w (discovery_path (url_path w u)) u)) of
        Inl err \<Rightarrow> Inl (Http err)
      | Inr doc \<Rightarrow>
          if doc_issuer doc \<noteq> iss then Inl (IssuerMismatch (doc_issuer doc) iss) else Inr doc))"

text \<open>Without the feature the client is a struct without fields: it can be made, and finds nothing.\<close>

datatype discovery_client_stub = DiscoveryClientStub

definition client_new_stub :: "discovery_error_stub + discovery_client_stub" where
  "client_new_stub = Inr DiscoveryClientStub"

definition discover_stub :: "discovery_client_stub \<Rightarrow> string \<Rightarrow> discovery_error_stub + discovery_doc" where
  "discover_stub c iss = Inl StubNotEnabled"

text \<open>\<open>filter_map\<close> with the clone of the key identifier, collected into a map from the left.\<close>

definition index_keys :: "jwk list \<Rightarrow> (string, jwk) hashmap" where
  "index_keys ks = fold (\<lambda>k m. case jwk_kid k of None \<Rightarrow> m | Some kid \<Rightarrow> hm_insert kid k m) ks []"

definition snapshot :: "nat \<Rightarrow> jwks_doc \<Rightarrow> cached_jwks" where
  "snapshot now doc = \<lparr>fetched_at = now, by_kid = index_keys (keys doc)\<rparr>"

text \<open>
  \<open>jwks\<close>. \<open>now_check\<close> is the instant \<open>elapsed\<close> reads, \<open>now_fetch\<close> the one after the answer arrived.
\<close>

definition jwks ::
  "('p, 'h, 'url, 'resp, 'cl) oidc_env \<Rightarrow> nat \<Rightarrow> nat \<Rightarrow> string \<Rightarrow> 'cl discovery_client
     \<Rightarrow> (('p, 'h, 'j) discovery_error + cached_jwks) \<times> 'cl discovery_client" where
  "jwks w now_check now_fetch uri c =
     (let refetch = (case fetch (error_for_status w) (json_jwks w) (send_str w (http c) uri) of
            Inl err \<Rightarrow> (Inl (Http err), c)
          | Inr doc \<Rightarrow> (let cached = snapshot now_fetch doc
                        in (Inr cached, c\<lparr>jwks_cache := Some cached\<rparr>)))
      in case jwks_cache c of
           None \<Rightarrow> refetch
         | Some cached \<Rightarrow> if is_fresh now_check cached (cache_ttl c) then (Inr cached, c) else refetch)"

section \<open>Lemmas\<close>

lemma trim_end_slashes_append: "trim_end_slashes (p @ replicate n CHR ''/'') = trim_end_slashes p"
proof -
  have "dropWhile (\<lambda>c. c = CHR ''/'') (replicate n CHR ''/'' @ q) = dropWhile (\<lambda>c. c = CHR ''/'') q" for q
    by (induction n) auto
  then show ?thesis
    by (simp add: trim_end_slashes_def)
qed

lemma trim_end_slashes_split: "\<exists>n. p = trim_end_slashes p @ replicate n CHR ''/''"
proof -
  let ?t = "takeWhile (\<lambda>c. c = CHR ''/'') (rev p)"
  have "p = rev (?t @ dropWhile (\<lambda>c. c = CHR ''/'') (rev p))"
    by simp
  then have "p = trim_end_slashes p @ rev ?t"
    unfolding rev_append trim_end_slashes_def .
  moreover have "replicate (length (rev ?t)) CHR ''/'' = rev ?t"
    by (rule replicate_length_same) (auto dest: set_takeWhileD)
  ultimately show ?thesis
    by (intro exI [of _ "length (rev ?t)"]) (simp only:)
qed

lemma trim_end_slashes_last: "trim_end_slashes p \<noteq> [] \<Longrightarrow> last (trim_end_slashes p) \<noteq> CHR ''/''"
  using hd_dropWhile [of "\<lambda>c. c = CHR ''/''" "rev p"] by (auto simp: trim_end_slashes_def last_rev)

lemma trim_end_slashes_stripped: "(p \<noteq> [] \<longrightarrow> last p \<noteq> CHR ''/'') \<Longrightarrow> trim_end_slashes p = p"
  by (cases p rule: rev_cases) (simp_all add: trim_end_slashes_def)

text \<open>The URL of the discovery document, as the standard puts it.\<close>

definition well_known_url :: "('p, 'h, 'url, 'resp, 'cl) oidc_env \<Rightarrow> string \<Rightarrow> 'url \<Rightarrow> bool" where
  "well_known_url w iss url \<longleftrightarrow> (\<exists>u p n. url_parse w iss = Inr u
     \<and> url_path w u = p @ replicate n CHR ''/'' \<and> (p \<noteq> [] \<longrightarrow> last p \<noteq> CHR ''/'')
     \<and> url = url_set_path w (p @ ''/.well-known/openid-configuration'') u)"

lemma well_known_url_eq:
  assumes "url_parse w iss = Inr u"
  shows "well_known_url w iss url \<longleftrightarrow> url = url_set_path w (discovery_path (url_path w u)) u"
proof -
  let ?p = "trim_end_slashes (url_path w u)"
  obtain n where n: "url_path w u = ?p @ replicate n CHR ''/''"
    using trim_end_slashes_split [of "url_path w u"] by auto
  show ?thesis
  proof
    assume "well_known_url w iss url"
    then obtain p k where p: "url_path w u = p @ replicate k CHR ''/''" "p \<noteq> [] \<longrightarrow> last p \<noteq> CHR ''/''"
      and url: "url = url_set_path w (p @ ''/.well-known/openid-configuration'') u"
      using assms by (auto simp: well_known_url_def)
    have "?p = p"
      unfolding p(1) trim_end_slashes_append by (rule trim_end_slashes_stripped [OF p(2)])
    then show "url = url_set_path w (discovery_path (url_path w u)) u"
      unfolding url discovery_path_def well_known_def by (simp only:)
  next
    assume url: "url = url_set_path w (discovery_path (url_path w u)) u"
    have "?p \<noteq> [] \<longrightarrow> last ?p \<noteq> CHR ''/''"
      using trim_end_slashes_last by blast
    with assms n url show "well_known_url w iss url"
      unfolding well_known_url_def discovery_path_def well_known_def by blast
  qed
qed

lemma index_keys_get: "hm_get (index_keys ks) kid = find (\<lambda>k. jwk_kid k = Some kid) (rev ks)"
proof (induction ks rule: rev_induct)
  case Nil
  show ?case
    by (simp add: index_keys_def)
next
  case (snoc k ks)
  then show ?case
    by (auto simp: index_keys_def hm_simps split: option.splits)
qed

lemma fetch_Inr: "fetch status json sent = Inr a \<longleftrightarrow>
    (\<exists>r r'. sent = Inr r \<and> status r = Inr r' \<and> json r' = Inr a)"
  by (auto simp: fetch_def split: sum.splits)

text \<open>What a successful fetch from a URI returned.\<close>

definition served :: "('p, 'h, 'url, 'resp, 'cl) oidc_env \<Rightarrow> 'cl \<Rightarrow> string \<Rightarrow> jwks_doc \<Rightarrow> bool" where
  "served w cl uri doc \<longleftrightarrow> fetch (error_for_status w) (json_jwks w) (send_str w cl uri) = Inr doc"

lemma jwks_cases:
  assumes "jwks w t t' uri c = (r, c')"
  obtains (hit) cached where "jwks_cache c = Some cached" and "is_fresh t cached (cache_ttl c)"
      and "r = Inr cached" and "c' = c"
    | (fetched) doc where "served w (http c) uri doc" and "r = Inr (snapshot t' doc)"
      and "c' = c\<lparr>jwks_cache := Some (snapshot t' doc)\<rparr>"
    | (failed) err where "r = Inl (Http err)" and "c' = c"
  using assms that
  by (auto simp: jwks_def served_def Let_def split: option.splits sum.splits if_splits)

section \<open>Histories of a client\<close>

text \<open>
  The calls of \<open>jwks\<close> on one client, newest first, each with its environment, instants, URI and
  result. Nothing relates the instants or the environments of different calls. Clones of a client
  share the cache and the mutex is free while a request is under way, so calls overlap: \<open>landed\<close>
  is the end of a call that found nothing fresh when it looked, whatever the cache holds by now.
\<close>

type_synonym ('p, 'h, 'j, 'url, 'resp, 'cl) jwks_call =
  "('p, 'h, 'url, 'resp, 'cl) oidc_env \<times> nat \<times> nat \<times> string
     \<times> (('p, 'h, 'j) discovery_error + cached_jwks)"

inductive client_history ::
  "'cl \<Rightarrow> ('p, 'h, 'j, 'url, 'resp, 'cl) jwks_call list \<Rightarrow> 'cl discovery_client \<Rightarrow> bool"
  for cl :: 'cl where
  new: "(client_new (w :: ('p, 'h, 'url, 'resp, 'cl) oidc_env)
        :: ('p, 'h, 'j) discovery_error + 'cl discovery_client) = Inr c
    \<Longrightarrow> http c = cl \<Longrightarrow> client_history cl [] c"
| retimed: "client_history cl evs c \<Longrightarrow> client_history cl evs (with_cache_ttl d c)"
| called: "client_history cl evs c \<Longrightarrow> jwks w t t' uri c = (r, c')
    \<Longrightarrow> client_history cl ((w, t, t', uri, r) # evs) c'"
| landed: "client_history cl evs c \<Longrightarrow> served w cl uri doc
    \<Longrightarrow> client_history cl ((w, t, t', uri, Inr (snapshot t' doc)) # evs)
          (c\<lparr>jwks_cache := Some (snapshot t' doc)\<rparr>)"

text \<open>The cached snapshot was built by a call of the history from what its URI served then.\<close>

definition snapshot_of ::
  "'cl \<Rightarrow> ('p, 'h, 'j, 'url, 'resp, 'cl) jwks_call list \<Rightarrow> cached_jwks \<Rightarrow> bool" where
  "snapshot_of cl evs k \<longleftrightarrow> (\<exists>w t t' uri doc. (w, t, t', uri, Inr k) \<in> set evs
     \<and> served w cl uri doc \<and> k = snapshot t' doc)"

lemma snapshot_of_Cons: "snapshot_of cl evs k \<Longrightarrow> snapshot_of cl (ev # evs) k"
  unfolding snapshot_of_def by (elim ex_forward) auto

lemma snapshot_of_served:
  "served w cl uri doc \<Longrightarrow> snapshot_of cl ((w, t, t', uri, Inr (snapshot t' doc)) # evs) (snapshot t' doc)"
  unfolding snapshot_of_def by (intro exI [of _ w] exI [of _ t] exI [of _ t'] exI [of _ uri]
    exI [of _ doc]) simp

lemma client_history_cache:
  "client_history cl evs c \<Longrightarrow> http c = cl \<and> (\<forall>k. jwks_cache c = Some k \<longrightarrow> snapshot_of cl evs k)"
proof (induction rule: client_history.induct)
  case (new w c)
  then show ?case
    by (auto simp: client_new_def split: sum.splits)
next
  case (retimed evs c d)
  then show ?case
    by (simp add: with_cache_ttl_def)
next
  case (called evs c w t t' uri r c')
  from called.hyps(2) show ?case
  proof (cases rule: jwks_cases)
    case (fetched doc)
    with called.IH show ?thesis
      by (simp add: snapshot_of_served)
  qed (use called.IH in \<open>auto intro: snapshot_of_Cons\<close>)
next
  case (landed evs c w uri doc t t')
  then show ?case
    by (simp add: snapshot_of_served)
qed

section \<open>Properties\<close>

text \<open>A network that serves one key at one address and a document for one issuer.\<close>

definition sample_key :: "string \<Rightarrow> string \<Rightarrow> jwk" where
  "sample_key kid kty = \<lparr>jwk_kty = kty, jwk_use = None, jwk_kid = Some kid, jwk_alg = None,
     jwk_n = None, jwk_e = None, jwk_crv = None, jwk_x = None, jwk_y = None, jwk_k = None,
     jwk_x5c = []\<rparr>"

definition sample_oidc :: "(unit, unit, string, string, unit) oidc_env" where
  "sample_oidc = \<lparr>url_parse = (\<lambda>s. if s = [] then Inl () else Inr s), url_error_display = (\<lambda>_. ''empty''),
     url_path = (\<lambda>u. u), url_set_path = (\<lambda>p _. p), build_client = (\<lambda>_ _. Inr ()),
     send_url = (\<lambda>_ u. Inr u), send_str = (\<lambda>_ u. if u = ''down'' then Inl () else Inr u),
     error_for_status = Inr, json_discovery = (\<lambda>_. Inl ()),
     json_jwks = (\<lambda>r. Inr \<lparr>keys = [sample_key ''1'' r]\<rparr>)\<rparr>"

definition sample_client :: "unit discovery_client" where
  "sample_client = \<lparr>http = (), user_agent = agent, jwks_cache = None, cache_ttl = seconds 600\<rparr>"

text \<open>
  C28. Discovery accepts only the issuer asked for. The URL asked is the parsed issuer with its path
  replaced by that path without the slashes at its end, followed by
  \<open>/.well-known/openid-configuration\<close>. \<open>discover\<close> answers a document exactly when the request to
  this URL was answered, with a status that is no error and a body that reads as this document,
  and the document names the issuer character by character. It reports an issuer mismatch exactly
  when a document that names another issuer came back, an HTTP error exactly when the request, the
  status or the body failed with it, an invalid issuer exactly when the issuer is no URL, with the
  parser's message, a colon and the issuer, and never \<open>NotEnabled\<close>, \<open>InvalidDiscoveryUrl\<close> or \<open>Json\<close>.
\<close>

theorem discover_exact:
  "(discover w iss c = Inr doc \<longleftrightarrow> doc_issuer doc = iss \<and> (\<exists>url. well_known_url w iss url
       \<and> (\<exists>resp resp'. send_url w (http c) url = Inr resp \<and> error_for_status w resp = Inr resp'
            \<and> json_discovery w resp' = Inr doc)))
   \<and> (discover w iss c = Inl (IssuerMismatch d req) \<longleftrightarrow> req = iss \<and> d \<noteq> iss \<and> (\<exists>url. well_known_url w iss url
       \<and> (\<exists>resp resp' doc. send_url w (http c) url = Inr resp \<and> error_for_status w resp = Inr resp'
            \<and> json_discovery w resp' = Inr doc \<and> doc_issuer doc = d)))
   \<and> (discover w iss c = Inl (Http h) \<longleftrightarrow> (\<exists>url. well_known_url w iss url
       \<and> (send_url w (http c) url = Inl h
          \<or> (\<exists>resp. send_url w (http c) url = Inr resp
               \<and> (error_for_status w resp = Inl h
                  \<or> (\<exists>resp'. error_for_status w resp = Inr resp' \<and> json_discovery w resp' = Inl h))))))
   \<and> (discover w iss c = Inl (InvalidIssuerUrl msg) \<longleftrightarrow>
        (\<exists>err. url_parse w iss = Inl err \<and> msg = url_error_display w err @ '': '' @ iss))
   \<and> discover w iss c \<noteq> Inl NotEnabled \<and> discover w iss c \<noteq> Inl (InvalidDiscoveryUrl p)
   \<and> discover w iss c \<noteq> Inl (Json j)"
proof (cases "url_parse w iss")
  case (Inl err)
  then have "\<not> well_known_url w iss url" for url
    by (simp add: well_known_url_def)
  with Inl show ?thesis
    by (auto simp: discover_def)
next
  case (Inr u)
  show ?thesis
    unfolding well_known_url_eq [OF Inr]
    by (auto simp: discover_def fetch_def Inr split: sum.splits)
qed

text \<open>
  The discovery path. Any number of slashes at the end of the issuer's path makes no
  difference, and the path requested is the issuer's path without them followed by
  \<open>/.well-known/openid-configuration\<close>, so never with a double slash in between.
\<close>

theorem discovery_path_trimmed:
  "discovery_path (p @ replicate n CHR ''/'') = discovery_path p
   \<and> (\<exists>q k. p = q @ replicate k CHR ''/'' \<and> (\<nexists>q'. q = q' @ ''/'')
        \<and> discovery_path p = q @ ''/.well-known/openid-configuration'')"
proof -
  have "\<nexists>q'. trim_end_slashes p = q' @ ''/''"
    using trim_end_slashes_last [of p] by auto
  then show ?thesis
    using trim_end_slashes_split [of p]
    by (auto simp: discovery_path_def well_known_def trim_end_slashes_append)
qed

text \<open>
  What a fetched key set answers. Looking a key identifier up in the snapshot gives the last
  key of the document that carries it, and finds nothing exactly when no key does; keys
  without an identifier are in no answer.
\<close>

theorem snapshot_lookup:
  "jwks_lookup (snapshot now doc) kid = find (\<lambda>k. jwk_kid k = Some kid) (rev (keys doc))
   \<and> (jwks_lookup (snapshot now doc) kid = None \<longleftrightarrow> Some kid \<notin> jwk_kid ` set (keys doc))"
  by (auto simp: jwks_lookup_def snapshot_def index_keys_get find_None_iff image_iff)

text \<open>
  C17. Where keys come from. After any history of a client, with calls that overlap, a key set
  \<open>jwks\<close> returns was either served by the requested URI in this very call, or served to another
  call on this client less than the cache TTL before the instant of this one; a failure is an HTTP
  error and leaves the client, its cache included, as it was.
\<close>

theorem jwks_provenance:
  fixes evs :: "('p, 'h, 'j, 'url, 'resp, 'cl) jwks_call list"
    and r :: "('p, 'h, 'j) discovery_error + cached_jwks"
  assumes "client_history cl evs c" and "jwks w t t' uri c = (r, c')"
  shows "case r of
      Inl err \<Rightarrow> (\<exists>h. err = Http h) \<and> c' = c
    | Inr k \<Rightarrow> jwks_cache c' = Some k \<and>
        ((\<exists>doc. served w cl uri doc \<and> k = snapshot t' doc)
         \<or> snapshot_of cl evs k \<and> t - fetched_at k < cache_ttl c)"
  using assms(2)
proof (cases rule: jwks_cases)
  case (hit cached)
  then show ?thesis
    using client_history_cache [OF assms(1)] by (simp add: is_fresh_def)
next
  case (fetched doc)
  then show ?thesis
    using client_history_cache [OF assms(1)] by auto
qed simp

theorem jwks_provenance_witness:
  "\<exists>k. fst (jwks sample_oidc 0 5 ''idp'' sample_client :: ((unit, unit, unit) discovery_error + _) \<times> _) = Inr k
     \<and> (\<exists>doc. served sample_oidc () ''idp'' doc \<and> k = snapshot 5 doc)"
proof -
  have "client_new sample_oidc = (Inr sample_client :: (unit, unit, unit) discovery_error + _)"
    by (simp add: client_new_def sample_oidc_def sample_client_def)
  then have "client_history () ([] :: (unit, unit, unit, string, string, unit) jwks_call list) sample_client"
    by (rule client_history.new) simp
  note h = jwks_provenance [OF this surjective_pairing, of sample_oidc 0 5 "''idp''"]
  have "\<exists>k. fst (jwks sample_oidc 0 5 ''idp'' sample_client
      :: ((unit, unit, unit) discovery_error + _) \<times> _) = Inr k"
    by (simp add: jwks_def sample_client_def sample_oidc_def fetch_def Let_def)
  then show ?thesis
    using h by (auto simp: snapshot_of_def)
qed

text \<open>
  C31. The cache does not know which URI it holds. Once \<open>jwks\<close> has returned a key set, every call
  on this client while it is fresh returns this same set whatever URI is asked for and whatever
  the network would answer, so the keys of one provider are handed out for another; once it is
  stale the requested URI is always asked again.
\<close>

theorem jwks_cache_ignores_uri:
  assumes "jwks w t t' uri c = (Inr k :: ('p, 'h, 'j) discovery_error + cached_jwks, c')"
  shows "(jwks w\<^sub>2 t\<^sub>2 t\<^sub>2' uri\<^sub>2 c' :: (('p, 'h, 'j) discovery_error + cached_jwks) \<times> _) =
     (if is_fresh t\<^sub>2 k (cache_ttl c) then (Inr k, c')
      else case fetch (error_for_status w\<^sub>2) (json_jwks w\<^sub>2) (send_str w\<^sub>2 (http c) uri\<^sub>2) of
             Inl err \<Rightarrow> (Inl (Http err), c')
           | Inr doc \<Rightarrow> (Inr (snapshot t\<^sub>2' doc), c'\<lparr>jwks_cache := Some (snapshot t\<^sub>2' doc)\<rparr>))"
proof -
  have "jwks_cache c' = Some k \<and> cache_ttl c' = cache_ttl c \<and> http c' = http c"
    using assms by (cases rule: jwks_cases) auto
  then show ?thesis
    by (simp add: jwks_def Let_def split: sum.split)
qed

theorem jwks_cache_ignores_uri_witness:
  "let c = snd (jwks sample_oidc 0 5 ''evil'' sample_client
        :: ((unit, unit, unit) discovery_error + _) \<times> _)
   in fst (jwks sample_oidc (seconds 60) (seconds 61) ''good'' c
        :: ((unit, unit, unit) discovery_error + _) \<times> _) =
      Inr (snapshot 5 \<lparr>keys = [sample_key ''1'' ''evil'']\<rparr>)"
proof -
  have "jwks sample_oidc 0 5 ''evil'' sample_client =
      (Inr (snapshot 5 \<lparr>keys = [sample_key ''1'' ''evil'']\<rparr>) :: (unit, unit, unit) discovery_error + _,
       sample_client\<lparr>jwks_cache := Some (snapshot 5 \<lparr>keys = [sample_key ''1'' ''evil'']\<rparr>)\<rparr>)"
    by (simp add: jwks_def sample_client_def sample_oidc_def fetch_def Let_def)
  from jwks_cache_ignores_uri [OF this, of sample_oidc "seconds 60" "seconds 61" "''good''"] this
  show ?thesis
    by (simp add: Let_def is_fresh_def snapshot_def sample_client_def seconds_def)
qed

end
