(* ===== verification/Test_Harness.thy ===== *)
theory Test_Harness
  imports AuthKit_Prelude
begin

text \<open>
  What the unit tests of the crate are written in: calls on one piece of state in sequence,
  \<open>unwrap\<close>, \<open>unwrap_err\<close>, \<open>assert!\<close> and \<open>for\<close> loops. A test is a run from a fresh state; it
  passes when it returns and fails when it panics.
\<close>

type_synonym ('a, 's) test = "'s \<Rightarrow> 'a outcome \<times> 's"

definition t_return :: "'a \<Rightarrow> ('a, 's) test" where
  "t_return a s = (Ret a, s)"

definition t_panic :: "('a, 's) test" where
  "t_panic s = (Panic, s)"

definition t_bind :: "('a, 's) test \<Rightarrow> ('a \<Rightarrow> ('b, 's) test) \<Rightarrow> ('b, 's) test" where
  "t_bind m f s = (case m s of (Ret a, s') \<Rightarrow> f a s' | (Panic, s') \<Rightarrow> (Panic, s'))"

definition t_then :: "(unit, 's) test \<Rightarrow> ('b, 's) test \<Rightarrow> ('b, 's) test" where
  "t_then m k = t_bind m (\<lambda>_. k)"

definition t_unwrap :: "('e + 'a, 's) test \<Rightarrow> ('a, 's) test" where
  "t_unwrap m = t_bind m (\<lambda>r. case r of Inl _ \<Rightarrow> t_panic | Inr a \<Rightarrow> t_return a)"

definition t_unwrap_err :: "('e + 'a, 's) test \<Rightarrow> ('e, 's) test" where
  "t_unwrap_err m = t_bind m (\<lambda>r. case r of Inl e \<Rightarrow> t_return e | Inr _ \<Rightarrow> t_panic)"

definition t_assert :: "bool \<Rightarrow> (unit, 's) test" where
  "t_assert b = (if b then t_return () else t_panic)"

definition t_get :: "('s \<Rightarrow> 'a) \<Rightarrow> ('a, 's) test" where
  "t_get f s = (Ret (f s), s)"

definition t_lift :: "'a outcome \<Rightarrow> ('a, 's) test" where
  "t_lift p s = (p, s)"

fun t_for :: "'i list \<Rightarrow> ('i \<Rightarrow> (unit, 's) test) \<Rightarrow> (unit, 's) test" where
  "t_for [] body = t_return ()"
| "t_for (i # is) body = t_then (body i) (t_for is body)"

definition run_test :: "(unit, 's) test \<Rightarrow> 's \<Rightarrow> unit outcome" where
  "run_test t s = fst (t s)"

named_theorems test_simps \<open>how a step of a test runs\<close>

lemma t_bind_Ret [test_simps]: "m s = (Ret a, s') \<Longrightarrow> t_bind m f s = f a s'"
  by (simp add: t_bind_def)

lemma t_then_Ret [test_simps]: "m s = (Ret (), s') \<Longrightarrow> t_then m k s = k s'"
  by (simp add: t_then_def t_bind_def)

lemma t_unwrap_Inr [test_simps]: "m s = (Ret (Inr a), s') \<Longrightarrow> t_unwrap m s = (Ret a, s')"
  by (simp add: t_unwrap_def t_bind_def t_return_def)

lemma t_unwrap_err_Inl [test_simps]: "m s = (Ret (Inl e), s') \<Longrightarrow> t_unwrap_err m s = (Ret e, s')"
  by (simp add: t_unwrap_err_def t_bind_def t_return_def)

lemma t_assert_run [test_simps]: "t_assert b s = ((if b then Ret () else Panic), s)"
  by (simp add: t_assert_def t_return_def t_panic_def)

lemma t_return_run [test_simps]: "t_return a s = (Ret a, s)"
  by (simp add: t_return_def)

lemma t_get_run [test_simps]: "t_get f s = (Ret (f s), s)"
  by (simp add: t_get_def)

lemma t_lift_run [test_simps]: "t_lift p s = (p, s)"
  by (simp add: t_lift_def)

lemma t_bind_lift [test_simps]: "t_bind (t_lift (Ret a)) f s = f a s"
  by (simp add: t_bind_def t_lift_def)

lemma t_unwrap_err_Inr [test_simps]: "m s = (Ret (Inr a), s') \<Longrightarrow> t_unwrap_err m s = (Panic, s')"
  by (simp add: t_unwrap_err_def t_bind_def t_panic_def)

lemma t_unwrap_err_of_unwrap: "t_unwrap m s = (Ret a, s') \<Longrightarrow> t_unwrap_err m s = (Panic, s')"
  by (auto simp: t_unwrap_def t_unwrap_err_def t_bind_def t_return_def t_panic_def
      split: prod.splits outcome.splits sum.splits)

text \<open>Assertions on a value that is at hand.\<close>

definition assert_all :: "bool list \<Rightarrow> unit outcome" where
  "assert_all bs = (if list_all (\<lambda>b. b) bs then Ret () else Panic)"

definition unwrap_some :: "'a option \<Rightarrow> 'a outcome" where
  "unwrap_some x = (case x of None \<Rightarrow> Panic | Some a \<Rightarrow> Ret a)"

text \<open>\<open>str::contains\<close>.\<close>

fun contains :: "string \<Rightarrow> string \<Rightarrow> bool" where
  "contains hay needle \<longleftrightarrow> take (length needle) hay = needle \<or>
     (case hay of [] \<Rightarrow> False | c # cs \<Rightarrow> contains cs needle)"

declare contains.simps [simp del]

lemma contains_prefix: "contains (needle @ b) needle"
  by (subst contains.simps) simp

lemma contains_later: "contains (a @ needle @ b) needle"
proof (induction a)
  case Nil
  then show ?case
    by (simp add: contains_prefix)
next
  case (Cons c a)
  then show ?case
    by (subst contains.simps) simp
qed

end
