(* ===== verification/Oidc_Json.thy ===== *)
theory Oidc_Json
  imports Oidc Json Test_Harness
begin

text \<open>
  The JSON form of the documents of \<open>src/oidc.rs\<close>, as the attributes on \<open>DiscoveryDoc\<close>,
  \<open>JwksDoc\<close> and \<open>Jwk\<close> give it, and the unit tests of the file.
\<close>

section \<open>The derived codecs\<close>

definition discovery_doc_of_json :: "json \<Rightarrow> discovery_doc option" where
  "discovery_doc_of_json j =
     (let opt = option_field de_string j; vec = default_field (de_vec de_string) [] j in
      if \<not> struct_shape 14 j then None
      else Option.bind (required_field de_string j 0 ''issuer'') (\<lambda>iss.
           Option.bind (opt 1 ''authorization_endpoint'') (\<lambda>auth.
           Option.bind (opt 2 ''token_endpoint'') (\<lambda>token.
           Option.bind (opt 3 ''jwks_uri'') (\<lambda>uri.
           Option.bind (opt 4 ''userinfo_endpoint'') (\<lambda>userinfo.
           Option.bind (opt 5 ''end_session_endpoint'') (\<lambda>logout.
           Option.bind (opt 6 ''introspection_endpoint'') (\<lambda>introspection.
           Option.bind (opt 7 ''revocation_endpoint'') (\<lambda>revocation.
           Option.bind (vec 8 ''response_types_supported'') (\<lambda>responses.
           Option.bind (vec 9 ''subject_types_supported'') (\<lambda>subjects.
           Option.bind (vec 10 ''id_token_signing_alg_values_supported'') (\<lambda>algs.
           Option.bind (vec 11 ''code_challenge_methods_supported'') (\<lambda>methods.
           Option.bind (vec 12 ''scopes_supported'') (\<lambda>scopes.
           Option.bind (vec 13 ''claims_supported'') (\<lambda>claims.
           Some \<lparr>doc_issuer = iss, authorization_endpoint = auth, token_endpoint = token,
             jwks_uri = uri, userinfo_endpoint = userinfo, end_session_endpoint = logout,
             introspection_endpoint = introspection, revocation_endpoint = revocation,
             response_types_supported = responses, subject_types_supported = subjects,
             id_token_signing_alg_values_supported = algs, code_challenge_methods_supported = methods,
             scopes_supported = scopes, claims_supported = claims\<rparr>)))))))))))))))"

definition jwk_of_json :: "json \<Rightarrow> jwk option" where
  "jwk_of_json j =
     (let opt = option_field de_string j in
      if \<not> struct_shape 11 j then None
      else Option.bind (required_field de_string j 0 ''kty'') (\<lambda>kty.
           Option.bind (default_field (de_option de_string) None j 1 ''use'') (\<lambda>use.
           Option.bind (opt 2 ''kid'') (\<lambda>kid.
           Option.bind (opt 3 ''alg'') (\<lambda>alg.
           Option.bind (opt 4 ''n'') (\<lambda>n.
           Option.bind (opt 5 ''e'') (\<lambda>e.
           Option.bind (opt 6 ''crv'') (\<lambda>crv.
           Option.bind (opt 7 ''x'') (\<lambda>x.
           Option.bind (opt 8 ''y'') (\<lambda>y.
           Option.bind (opt 9 ''k'') (\<lambda>k.
           Option.bind (default_field (de_vec de_string) [] j 10 ''x5c'') (\<lambda>x5c.
           Some \<lparr>jwk_kty = kty, jwk_use = use, jwk_kid = kid, jwk_alg = alg, jwk_n = n, jwk_e = e,
             jwk_crv = crv, jwk_x = x, jwk_y = y, jwk_k = k, jwk_x5c = x5c\<rparr>))))))))))))"

definition jwks_doc_of_json :: "json \<Rightarrow> jwks_doc option" where
  "jwks_doc_of_json j =
     (if \<not> struct_shape 1 j then None
      else Option.bind (required_field (de_vec jwk_of_json) j 0 ''keys'') (\<lambda>ks. Some \<lparr>keys = ks\<rparr>))"

definition discovery_doc_to_json :: "discovery_doc \<Rightarrow> json" where
  "discovery_doc_to_json d = (let opt = ser_option JStr; vec = ser_vec JStr in JObj
     [(''issuer'', JStr (doc_issuer d)),
      (''authorization_endpoint'', opt (authorization_endpoint d)),
      (''token_endpoint'', opt (token_endpoint d)),
      (''jwks_uri'', opt (jwks_uri d)),
      (''userinfo_endpoint'', opt (userinfo_endpoint d)),
      (''end_session_endpoint'', opt (end_session_endpoint d)),
      (''introspection_endpoint'', opt (introspection_endpoint d)),
      (''revocation_endpoint'', opt (revocation_endpoint d)),
      (''response_types_supported'', vec (response_types_supported d)),
      (''subject_types_supported'', vec (subject_types_supported d)),
      (''id_token_signing_alg_values_supported'', vec (id_token_signing_alg_values_supported d)),
      (''code_challenge_methods_supported'', vec (code_challenge_methods_supported d)),
      (''scopes_supported'', vec (scopes_supported d)),
      (''claims_supported'', vec (claims_supported d))])"

definition jwk_to_json :: "jwk \<Rightarrow> json" where
  "jwk_to_json k = (let opt = ser_option JStr in JObj
     [(''kty'', JStr (jwk_kty k)), (''use'', opt (jwk_use k)), (''kid'', opt (jwk_kid k)),
      (''alg'', opt (jwk_alg k)), (''n'', opt (jwk_n k)), (''e'', opt (jwk_e k)),
      (''crv'', opt (jwk_crv k)), (''x'', opt (jwk_x k)), (''y'', opt (jwk_y k)),
      (''k'', opt (jwk_k k)), (''x5c'', ser_vec JStr (jwk_x5c k))])"

definition jwks_doc_to_json :: "jwks_doc \<Rightarrow> json" where
  "jwks_doc_to_json d = JObj [(''keys'', ser_vec jwk_to_json (keys d))]"

section \<open>Lemmas\<close>

lemma discovery_doc_json_roundtrip: "discovery_doc_of_json (discovery_doc_to_json d) = Some d"
  by (simp add: discovery_doc_of_json_def discovery_doc_to_json_def Let_def required_field_def
      default_field_def option_field_def json_simps)

lemma jwk_json_roundtrip [json_simps]: "jwk_of_json (jwk_to_json k) = Some k"
  by (simp add: jwk_of_json_def jwk_to_json_def Let_def required_field_def default_field_def
      option_field_def json_simps)

lemma jwks_doc_json_roundtrip: "jwks_doc_of_json (jwks_doc_to_json d) = Some d"
  by (simp add: jwks_doc_of_json_def jwks_doc_to_json_def required_field_def json_simps)

section \<open>The tests of the file\<close>

text \<open>The literals of the tests, as the reader gives them.\<close>

definition canonical_example :: json where
  "canonical_example = JObj
     [(''issuer'', JStr ''https://example.com''),
      (''authorization_endpoint'', JStr ''https://example.com/authorize''),
      (''token_endpoint'', JStr ''https://example.com/oauth/token''),
      (''jwks_uri'', JStr ''https://example.com/.well-known/jwks.json''),
      (''response_types_supported'', JArr [JStr ''code'']),
      (''subject_types_supported'', JArr [JStr ''public'']),
      (''id_token_signing_alg_values_supported'', JArr [JStr ''RS256'']),
      (''code_challenge_methods_supported'', JArr [JStr ''S256''])]"

definition extra_fields_example :: json where
  "extra_fields_example = JObj
     [(''issuer'', JStr ''https://example.com''),
      (''response_types_supported'', JArr [JStr ''code'']),
      (''frontchannel_logout_supported'', JBool True),
      (''unknown_field_we_dont_know_about'', JArr [JNum ''1'', JNum ''2'', JNum ''3''])]"

definition rsa_key_example :: json where
  "rsa_key_example = JObj [(''keys'', JArr [JObj
     [(''kty'', JStr ''RSA''), (''use'', JStr ''sig''), (''kid'', JStr ''test-key-1''), (''alg'', JStr ''RS256''),
      (''n'', JStr ''0vx7agoebGcQSuuPiLJXZptN9nndrQmbXEps2aiAFbWhM78LhWx4cbbfAAtVT86z''),
      (''e'', JStr ''AQAB'')]])]"

definition discovery_doc_deserializes_canonical_example :: "unit outcome" where
  "discovery_doc_deserializes_canonical_example =
     and_then (unwrap_some (discovery_doc_of_json canonical_example)) (\<lambda>doc. assert_all
       [doc_issuer doc = ''https://example.com'',
        token_endpoint doc = Some ''https://example.com/oauth/token'',
        List.member (code_challenge_methods_supported doc) ''S256''])"

definition discovery_doc_tolerates_extra_fields :: "unit outcome" where
  "discovery_doc_tolerates_extra_fields =
     and_then (unwrap_some (discovery_doc_of_json extra_fields_example)) (\<lambda>doc. assert_all
       [doc_issuer doc = ''https://example.com'', token_endpoint doc = None])"

definition jwks_doc_deserializes_rsa_key :: "unit outcome" where
  "jwks_doc_deserializes_rsa_key =
     and_then (unwrap_some (jwks_doc_of_json rsa_key_example)) (\<lambda>doc.
     and_then (assert_all [length (keys doc) = 1]) (\<lambda>_.
     and_then (index_at (keys doc) 0) (\<lambda>key. assert_all
       [jwk_kty key = ''RSA'', jwk_kid key = Some ''test-key-1'', jwk_alg key = Some ''RS256''])))"

definition cached_jwks_lookup_by_kid :: "nat \<Rightarrow> nat \<Rightarrow> unit outcome" where
  "cached_jwks_lookup_by_kid now later =
     (let key = \<lparr>jwk_kty = ''oct'', jwk_use = Some ''sig'', jwk_kid = Some ''kid-1'',
            jwk_alg = Some ''HS256'', jwk_n = None, jwk_e = None, jwk_crv = None, jwk_x = None,
            jwk_y = None, jwk_k = Some ''dGVzdA'', jwk_x5c = []\<rparr>;
          cached = \<lparr>fetched_at = now, by_kid = hm_insert ''kid-1'' key []\<rparr>
      in assert_all [jwks_lookup cached ''kid-1'' \<noteq> None, jwks_lookup cached ''kid-missing'' = None,
           is_fresh later cached (seconds 60)])"

definition no_feature_discover_returns_not_enabled :: "unit outcome" where
  "no_feature_discover_returns_not_enabled =
     (case client_new_stub of
        Inl _ \<Rightarrow> Panic
      | Inr client \<Rightarrow>
        (case discover_stub client ''https://example.com'' of
           Inl err \<Rightarrow> assert_all [err = StubNotEnabled] | Inr _ \<Rightarrow> Panic))"

lemmas oidc_test_defs = discovery_doc_deserializes_canonical_example_def canonical_example_def
  discovery_doc_tolerates_extra_fields_def extra_fields_example_def jwks_doc_deserializes_rsa_key_def
  rsa_key_example_def cached_jwks_lookup_by_kid_def no_feature_discover_returns_not_enabled_def
  discovery_doc_of_json_def jwks_doc_of_json_def jwk_of_json_def required_field_def default_field_def
  option_field_def de_option_def unwrap_some_def assert_all_def index_at_def jwks_lookup_def
  is_fresh_def client_new_stub_def discover_stub_def Let_def

section \<open>Properties\<close>

text \<open>
  The documents survive a round trip through JSON: discovery document and key set are read back
  from what the derived writers write, absent and empty fields included.
\<close>

theorem documents_json_roundtrip:
  "discovery_doc_of_json (discovery_doc_to_json d) = Some d \<and> jwks_doc_of_json (jwks_doc_to_json ks) = Some ks"
  by (simp add: discovery_doc_json_roundtrip jwks_doc_json_roundtrip)

text \<open>
  A key set is read as a whole. An object with one \<open>keys\<close> array, among any unknown fields,
  gives the keys of the array in order, each read on its own; as soon as one entry cannot be read
  (a key without \<open>kty\<close>, say) there is no key set at all, however good the others are.
\<close>

theorem jwks_all_or_nothing:
  assumes "''keys'' \<notin> set (map fst before)" and "''keys'' \<notin> set (map fst after)"
  shows "(jwks_doc_of_json (JObj (before @ (''keys'', JArr vs) # after)) = Some ks \<longleftrightarrow>
      map jwk_of_json vs = map Some (keys ks))
    \<and> (\<forall>kvs. JObj kvs \<in> set vs \<and> ''kty'' \<notin> set (map fst kvs)
        \<longrightarrow> jwks_doc_of_json (JObj (before @ (''keys'', JArr vs) # after)) = None)"
proof -
  have f: "filter (\<lambda>(k', v). k' = ''keys'') kvs = []" if "''keys'' \<notin> set (map fst kvs)" for kvs :: "(string \<times> json) list"
    using that by (induction kvs) auto
  have doc: "jwks_doc_of_json (JObj (before @ (''keys'', JArr vs) # after)) =
      map_option (\<lambda>ks. \<lparr>keys = ks\<rparr>) (those (map jwk_of_json vs))"
    by (cases "those (map jwk_of_json vs)")
      (simp_all add: jwks_doc_of_json_def required_field_def f [OF assms(1)] f [OF assms(2)])
  have "jwk_of_json (JObj kvs) = None" if "''kty'' \<notin> set (map fst kvs)" for kvs
    by (simp add: jwk_of_json_def Let_def required_field_missing [OF that])
  then have "those (map jwk_of_json vs) = None" if "JObj kvs \<in> set vs" "''kty'' \<notin> set (map fst kvs)" for kvs
    using that unfolding those_None by (metis image_eqI list.set_map)
  moreover have "map_option (\<lambda>ks. \<lparr>keys = ks\<rparr>) r = Some ks \<longleftrightarrow> r = Some (keys ks)" for r
    by (cases r; cases ks) auto
  ultimately show ?thesis
    unfolding doc those_Some [symmetric] by auto
qed

theorem jwks_all_or_nothing_witness:
  "jwks_doc_of_json (JObj [(''keys'', JArr [jwk_to_json (sample_key ''1'' ''RSA''), JObj [(''kid'', JStr ''2'')]])]) = None
   \<and> jwks_doc_of_json (JObj [(''keys'', JArr [jwk_to_json (sample_key ''1'' ''RSA'')])]) =
      Some \<lparr>keys = [sample_key ''1'' ''RSA'']\<rparr>"
  using jwks_all_or_nothing [of "[]" "[]" "[jwk_to_json (sample_key ''1'' ''RSA''), JObj [(''kid'', JStr ''2'')]]",
      THEN conjunct2, THEN spec, of "[(''kid'', JStr ''2'')]"]
    jwks_all_or_nothing [of "[]" "[]" "[jwk_to_json (sample_key ''1'' ''RSA'')]"
      "\<lparr>keys = [sample_key ''1'' ''RSA'']\<rparr>", THEN conjunct1]
  by (simp add: jwk_json_roundtrip)

text \<open>
  The tests of the file pass: the four tests of the documents and of the cached set (read within
  a minute of its creation, a clock that goes back included), and the test of the build without the
  feature.
\<close>

theorem oidc_tests_pass:
  assumes "later - now < seconds 60"
  shows "discovery_doc_deserializes_canonical_example = Ret ()
    \<and> discovery_doc_tolerates_extra_fields = Ret () \<and> jwks_doc_deserializes_rsa_key = Ret ()
    \<and> cached_jwks_lookup_by_kid now later = Ret () \<and> no_feature_discover_returns_not_enabled = Ret ()"
  using assms by (intro conjI) (simp_all add: oidc_test_defs hm_get_insert)

theorem oidc_tests_pass_witness: "cached_jwks_lookup_by_kid 5 (seconds 7) = Ret ()"
  using oidc_tests_pass [of "seconds 7" 5] by (simp add: seconds_def)

end
