(* ===== verification/Oidc_Cache.thy ===== *)
theory Oidc_Cache
  imports Oidc Simulation_Locale
begin

text \<open>
  The JWKS cache of \<open>src/oidc.rs\<close> against a client without one. A call names its network, the two
  instants it reads and the URI; what counts of its reply is the error, or which key each
  identifier finds. The time stamp of the snapshot is the one thing a cache is allowed to change.
\<close>

section \<open>Calls\<close>




section \<open>A client without a cache\<close>





section \<open>Simulation\<close>








section \<open>Property\<close>



end
