(* ===== verification/Oidc_Keys.thy ===== *)
theory Oidc_Keys
  imports Oidc
begin

text \<open>
  The shape of the key tables in \<open>src/oidc.rs\<close>: a table maps an identifier to one key, which
  carries that identifier. Every operation of the client keeps its cache in this shape.
\<close>

section \<open>Well-formed tables\<close>

definition key_table_wf :: "(string, jwk) hashmap \<Rightarrow> bool" where
  "key_table_wf m \<longleftrightarrow> hm_inv m \<and> (\<forall>kid k. hm_get m kid = Some k \<longrightarrow> jwk_kid k = Some kid)"

definition client_wf :: "'cl discovery_client \<Rightarrow> bool" where
  "client_wf c \<longleftrightarrow> (case jwks_cache c of None \<Rightarrow> True | Some k \<Rightarrow> key_table_wf (by_kid k))"

lemma hm_inv_index_keys: "hm_inv (index_keys ks)"
proof (induction ks rule: rev_induct)
  case (snoc k ks)
  then show ?case
    by (auto simp: index_keys_def hm_inv_insert split: option.split)
qed (simp add: index_keys_def)

lemma key_table_wf_index [simp]: "key_table_wf (index_keys ks)"
  by (auto simp: key_table_wf_def hm_inv_index_keys index_keys_get find_Some_iff)

lemma snapshot_wf [simp]: "key_table_wf (by_kid (snapshot now doc))"
  by (simp add: snapshot_def)

lemma jwks_wf:
  assumes "client_wf c" and "jwks w t t' uri c = (r, c')"
  shows "client_wf c' \<and> (\<forall>k. r = Inr k \<longrightarrow> key_table_wf (by_kid k))"
  using assms(2)
proof (cases rule: jwks_cases)
  case (hit cached)
  then show ?thesis
    using assms(1) by (simp add: client_wf_def)
next
  case (fetched doc)
  then show ?thesis
    by (simp add: client_wf_def)
next
  case (failed err)
  then show ?thesis
    using assms(1) by simp
qed

lemma client_new_wf: "client_new w = Inr c \<Longrightarrow> client_wf c"
  by (auto simp: client_new_def client_wf_def split: sum.splits)

lemma client_history_wf:
  fixes evs :: "('p, 'h, 'j, 'url, 'resp, 'cl) jwks_call list"
  shows "client_history cl evs c \<Longrightarrow> client_wf c"
proof (induction rule: client_history.induct)
  case (new w c)
  then show ?case
    using client_new_wf by blast
next
  case (retimed evs c d)
  then show ?case
    by (simp add: client_wf_def with_cache_ttl_def)
next
  case (called evs c w t t' uri r c')
  then show ?case
    using jwks_wf by blast
next
  case (landed evs c w uri doc t t')
  then show ?case
    by (simp add: client_wf_def)
qed

section \<open>Property\<close>

text \<open>
  C34. A key has the identifier it was looked up by. A new client is well formed, \<open>jwks\<close> and
  \<open>with_cache_ttl\<close> keep it so whatever the network answers and however calls on clones of the
  client overlap, and in every key set the client hands out an identifier maps to one key, which
  carries it: \<open>lookup\<close> never returns a key of another identifier or one without any.
\<close>

theorem client_wf_preserved:
  fixes evs :: "('p, 'h, 'j, 'url, 'resp, 'cl) jwks_call list"
    and r :: "('p, 'h, 'j) discovery_error + cached_jwks"
  shows "(client_new w = (Inr c\<^sub>0 :: ('p, 'h, 'j) discovery_error + _) \<longrightarrow> client_wf c\<^sub>0)
    \<and> (client_wf c \<longrightarrow> client_wf (with_cache_ttl d c))
    \<and> (client_wf c \<longrightarrow> jwks w t t' uri c = (r, c') \<longrightarrow> client_wf c')
    \<and> (client_history cl evs c \<longrightarrow> client_wf c)
    \<and> (client_wf c \<longrightarrow> jwks w t t' uri c = (Inr k :: ('p, 'h, 'j) discovery_error + _, c') \<longrightarrow>
         jwks_lookup k kid = Some key \<longrightarrow> jwk_kid key = Some kid)"
  using jwks_wf [of c w t t' uri r c'] jwks_wf [of c w t t' uri "Inr k :: ('p, 'h, 'j) discovery_error + _" c']
    client_history_wf [of cl evs c] client_new_wf [of w c\<^sub>0]
  by (auto simp: client_wf_def with_cache_ttl_def jwks_lookup_def key_table_wf_def)

theorem client_wf_preserved_witness:
  "let c = snd (jwks sample_oidc 0 5 ''idp'' sample_client :: ((unit, unit, unit) discovery_error + _) \<times> _)
   in client_wf c \<and> client_wf (with_cache_ttl 7 c)"
proof -
  let ?j = "jwks sample_oidc 0 5 ''idp'' sample_client :: ((unit, unit, unit) discovery_error + _) \<times> _"
  have "client_wf sample_client"
    by (simp add: client_wf_def sample_client_def)
  moreover have "?j = (fst ?j, snd ?j)"
    by simp
  ultimately have "client_wf (snd ?j)"
    using client_wf_preserved [where w = sample_oidc and c = sample_client and t = 0 and t' = 5
        and uri = "''idp''" and r = "fst ?j" and c' = "snd ?j"] by blast
  then show ?thesis
    unfolding Let_def using client_wf_preserved [where c = "snd ?j" and d = 7] by blast
qed

end
