(* ===== verification/Session_Store_Tests.thy ===== *)
theory Session_Store_Tests
  imports Test_Harness Session_Store
begin

text \<open>
  The unit tests of \<open>src/domain/session_store.rs\<close>, call by call, and the proof that they pass in
  every environment, not only in the run of a test machine. \<open>env i\<close> is the environment of the
  \<open>i\<close>-th call.
\<close>

section \<open>The tests\<close>

text \<open>
  The environments of a test, one per call in order: the crates behave as documented, the TTL can
  be added to the date, the clock does not run backwards from one call to the next, and a positive
  TTL does not run out while the test runs.
\<close>

definition test_env :: "int \<Rightarrow> (nat \<Rightarrow> call_env) \<Rightarrow> bool" where
  "test_env d env \<longleftrightarrow> (\<forall>i. (\<forall>a b. ct_eq (env i) a b = (a = b))
     \<and> add_duration (env i) (now_bind (env i)) d = Some (now_bind (env i) + d)
     \<and> (\<forall>j. i < j \<longrightarrow> now_bind (env i) \<le> now_evict (env j)
          \<and> (0 < d \<longrightarrow> now_evict (env j) < now_bind (env i) + d)))"

lemma test_envD:
  assumes "test_env d env"
  shows "ct_eq (env i) a b \<longleftrightarrow> a = b"
    and "add_duration (env i) (now_bind (env i)) d = Some (now_bind (env i) + d)"
    and "i < j \<Longrightarrow> 0 < d \<Longrightarrow> now_evict (env j) < now_bind (env i) + d"
    and "i < j \<Longrightarrow> now_bind (env i) \<le> now_evict (env j)"
  using assms by (simp_all add: test_env_def)

definition expired_store :: in_memory_store where
  "expired_store = store_with_ttl (- 1000000000)"

definition t_bind_state :: "call_env \<Rightarrow> string \<Rightarrow> string \<Rightarrow> (unit, in_memory_store) test" where
  "t_bind_state e t i = t_unwrap (bind_state e t i)"

definition t_verify_is :: "bool \<Rightarrow> call_env \<Rightarrow> string \<Rightarrow> string \<Rightarrow> (unit, in_memory_store) test" where
  "t_verify_is b e t i = t_bind (t_unwrap (verify_state e t i)) (\<lambda>r. t_assert (r = b))"

definition bind_and_verify_state_succeeds :: "(nat \<Rightarrow> call_env) \<Rightarrow> unit outcome" where
  "bind_and_verify_state_succeeds env = run_test
     (t_then (t_bind_state (env 0) ''state-1'' ''session-1'')
       (t_verify_is True (env 1) ''state-1'' ''session-1'')) store_new"

definition verify_wrong_session_fails :: "(nat \<Rightarrow> call_env) \<Rightarrow> unit outcome" where
  "verify_wrong_session_fails env = run_test
     (t_then (t_bind_state (env 0) ''state-1'' ''session-1'')
       (t_verify_is False (env 1) ''state-1'' ''session-2'')) store_new"

definition verify_missing_state_fails :: "(nat \<Rightarrow> call_env) \<Rightarrow> unit outcome" where
  "verify_missing_state_fails env = run_test
     (t_verify_is False (env 0) ''missing-state'' ''session-1'') store_new"

definition revoke_state_removes_binding :: "(nat \<Rightarrow> call_env) \<Rightarrow> unit outcome" where
  "revoke_state_removes_binding env = run_test
     (t_then (t_bind_state (env 0) ''state-1'' ''session-1'')
       (t_then (t_unwrap (revoke_state ''state-1''))
         (t_verify_is False (env 1) ''state-1'' ''session-1''))) store_new"

definition expired_state_is_rejected :: "(nat \<Rightarrow> call_env) \<Rightarrow> unit outcome" where
  "expired_state_is_rejected env = run_test
     (t_then (t_bind_state (env 0) ''state-1'' ''session-1'')
       (t_verify_is False (env 1) ''state-1'' ''session-1'')) expired_store"

definition rebinding_state_overwrites_previous_session :: "(nat \<Rightarrow> call_env) \<Rightarrow> unit outcome" where
  "rebinding_state_overwrites_previous_session env = run_test
     (t_then (t_bind_state (env 0) ''state-1'' ''session-1'')
       (t_then (t_bind_state (env 1) ''state-1'' ''session-2'')
         (t_then (t_verify_is False (env 2) ''state-1'' ''session-1'')
           (t_verify_is True (env 3) ''state-1'' ''session-2'')))) store_new"

definition constant_time_compare_rejects_same_length_wrong_session ::
  "(nat \<Rightarrow> call_env) \<Rightarrow> unit outcome" where
  "constant_time_compare_rejects_same_length_wrong_session env = run_test
     (t_then (t_bind_state (env 0) ''state-x'' ''aaaaaaaaaaaa'')
       (t_then (t_verify_is False (env 1) ''state-x'' ''bbbbbbbbbbbb'')
         (t_verify_is True (env 2) ''state-x'' ''aaaaaaaaaaaa''))) store_new"

definition new_store_is_empty :: "unit outcome" where
  "new_store_is_empty = run_test
     (t_bind (t_get store_len) (\<lambda>n. t_then (t_assert (n = 0))
       (t_bind (t_get store_is_empty) (\<lambda>b. t_assert b)))) store_new"

definition t_len_is :: "nat \<Rightarrow> (unit, in_memory_store) test" where
  "t_len_is n = t_bind (t_get store_len) (\<lambda>m. t_assert (m = n))"

definition capacity_rejects_overflow_but_allows_rebind :: "(nat \<Rightarrow> call_env) \<Rightarrow> unit outcome" where
  "capacity_rejects_overflow_but_allows_rebind env = run_test
     (t_then (t_bind_state (env 0) ''s1'' ''sess-1'')
       (t_then (t_bind_state (env 1) ''s2'' ''sess-2'')
         (t_then (t_len_is 2)
           (t_then (t_bind (bind_state (env 2) ''s3'' ''sess-3'') (\<lambda>r. t_assert (r = Inl (AtCapacity 2))))
             (t_then (t_bind_state (env 3) ''s1'' ''sess-1-rebound'')
               (t_then (t_verify_is True (env 4) ''s1'' ''sess-1-rebound'')
                 (t_len_is 2)))))))
     (store_with_capacity (duration_minutes 15) 2)"

definition capacity_zero_means_unbounded :: "(nat \<Rightarrow> call_env) \<Rightarrow> unit outcome" where
  "capacity_zero_means_unbounded env = run_test
     (t_then (t_for [0..<128] (\<lambda>i. t_bind_state (env i) (''s'' @ show_nat i) (''sess-'' @ show_nat i)))
       (t_len_is 128))
     (store_with_capacity (duration_minutes 15) 0)"

section \<open>How the calls run\<close>

text \<open>A store as the tests see it: unpoisoned, with the bindings that none has expired.\<close>

definition test_store :: "int \<Rightarrow> nat \<Rightarrow> (string, entry) hashmap \<Rightarrow> in_memory_store" where
  "test_store d n m = \<lparr>inner = m, poisoned = False, ttl = d, max_entries = n\<rparr>"

definition fresh_at :: "call_env \<Rightarrow> (string, entry) hashmap \<Rightarrow> bool" where
  "fresh_at e m \<longleftrightarrow> list_all (\<lambda>(_, en). now_evict e < expires_at en) m"

lemma evict_fresh: "fresh_at e m \<Longrightarrow> evict_expired (now_evict e) m = m"
  by (auto simp: fresh_at_def evict_expired_def hm_retain_def list_all_iff intro!: filter_True)

lemma fresh_at_Nil [simp]: "fresh_at e []"
  by (simp add: fresh_at_def)

lemma fresh_at_insert: "fresh_at e m \<Longrightarrow> now_evict e < expires_at en \<Longrightarrow> fresh_at e (hm_insert k en m)"
  by (induction m) (auto simp: fresh_at_def hm_insert_def)

lemma fresh_at_remove: "fresh_at e m \<Longrightarrow> fresh_at e (hm_remove k m)"
  by (auto simp: fresh_at_def hm_remove_def list_all_iff)

lemma hm_len_Nil [simp]: "hm_len [] = 0"
  by (simp add: hm_len_def)

lemma bind_fresh:
  assumes "test_env d env" and "fresh_at (env i) m"
    and "n = 0 \<or> hm_len m < n \<or> hm_contains m t"
  shows "bind_state (env i) t sid (test_store d n m) = (Ret (Inr ()),
    test_store d n (hm_insert t \<lparr>session_id = sid, expires_at = now_bind (env i) + d\<rparr> m))"
  using assms(3)
  by (auto simp: bind_state_def test_store_def Let_def evict_fresh [OF assms(2)] test_envD(2) [OF assms(1)])

lemma t_bind_state_run [test_simps]:
  assumes "test_env d env" and "fresh_at (env i) m"
    and "n = 0 \<or> hm_len m < n \<or> hm_contains m t"
  shows "t_bind_state (env i) t sid (test_store d n m) =
    (Ret (), test_store d n (hm_insert t \<lparr>session_id = sid, expires_at = now_bind (env i) + d\<rparr> m))"
  unfolding t_bind_state_def by (rule t_unwrap_Inr, rule bind_fresh [OF assms])

lemma verify_fresh:
  assumes "test_env d env" and "fresh_at (env i) m"
  shows "verify_state (env i) t sid (test_store d n m) =
    (Ret (Inr (case hm_get m t of None \<Rightarrow> False | Some en \<Rightarrow> session_id en = sid)), test_store d n m)"
  by (simp add: verify_state_def test_store_def Let_def evict_fresh [OF assms(2)]
      test_envD(1) [OF assms(1)] cong: option.case_cong)

lemma t_verify_is_run [test_simps]:
  assumes "test_env d env" and "fresh_at (env i) m"
  shows "t_verify_is b (env i) t sid (test_store d n m) =
    (if (case hm_get m t of None \<Rightarrow> False | Some en \<Rightarrow> session_id en = sid) = b then Ret () else Panic,
     test_store d n m)"
  using t_unwrap_Inr [of "verify_state (env i) t sid", OF verify_fresh [OF assms]]
  by (simp add: t_verify_is_def t_bind_Ret t_assert_run)

lemma t_len_is_run [test_simps]:
  "t_len_is k (test_store d n m) = (if hm_len m = k then Ret () else Panic, test_store d n m)"
  by (simp add: t_len_is_def t_bind_Ret t_get_run t_assert_run store_len_def test_store_def)

lemma revoke_run [test_simps]:
  "t_unwrap (revoke_state t) (test_store d n m) = (Ret (), test_store d n (hm_remove t m))"
  by (rule t_unwrap_Inr) (simp add: revoke_state_def test_store_def)

lemma new_test_store:
  "store_new = test_store (duration_minutes 15) DEFAULT_MAX_ENTRIES []"
  "expired_store = test_store (- 1000000000) DEFAULT_MAX_ENTRIES []"
  "store_with_capacity d n = test_store d n []"
  by (simp_all add: store_new_def store_default_def store_with_capacity_def test_store_def
      expired_store_def store_with_ttl_def)

text \<open>The bindings a loop over distinct tokens leaves in an unbounded store.\<close>

definition bound_map :: "(nat \<Rightarrow> call_env) \<Rightarrow> int \<Rightarrow> nat list \<Rightarrow> (string, entry) hashmap
    \<Rightarrow> (string, entry) hashmap" where
  "bound_map env d = fold (\<lambda>i. hm_insert (''s'' @ show_nat i)
     \<lparr>session_id = ''sess-'' @ show_nat i, expires_at = now_bind (env i) + d\<rparr>)"

lemma bind_loop_run:
  assumes env: "test_env d env" and d: "0 < d" and "\<And>j. a \<le> j \<Longrightarrow> fresh_at (env j) m"
  shows "t_for [a..<k] (\<lambda>i. t_bind_state (env i) (''s'' @ show_nat i) (''sess-'' @ show_nat i))
      (test_store d 0 m) = (Ret (), test_store d 0 (bound_map env d [a..<k] m))"
  using assms(3)
proof (induction "k - a" arbitrary: a m)
  case 0
  then show ?case
    by (simp add: t_return_run bound_map_def)
next
  case (Suc x)
  let ?m = "hm_insert (''s'' @ show_nat a)
    \<lparr>session_id = ''sess-'' @ show_nat a, expires_at = now_bind (env a) + d\<rparr> m"
  have "a < k"
    using Suc.hyps(2) by simp
  then have upt: "[a..<k] = a # [Suc a..<k]"
    by (rule upt_conv_Cons)
  have "fresh_at (env j) ?m" if "Suc a \<le> j" for j
    using Suc.prems [of j] test_envD(3) [OF env, of a j] d that by (intro fresh_at_insert) simp_all
  moreover have "t_bind_state (env a) (''s'' @ show_nat a) (''sess-'' @ show_nat a) (test_store d 0 m) =
      (Ret (), test_store d 0 ?m)"
    using Suc.prems by (intro t_bind_state_run [OF env]) simp_all
  ultimately show ?case
    using Suc.hyps(1) [of "Suc a" ?m] Suc.hyps(2)
    by (simp add: upt t_then_Ret bound_map_def)
qed

lemma bound_map_len: "hm_inv (bound_map env d [0..<k] []) \<and> hm_len (bound_map env d [0..<k] []) = k
    \<and> (\<forall>t. hm_contains (bound_map env d [0..<k] []) t \<longrightarrow> (\<exists>i < k. t = ''s'' @ show_nat i))"
proof (induction k)
  case 0
  then show ?case
    by (simp add: bound_map_def hm_contains_def)
next
  case (Suc k)
  have inj: "show_nat i = show_nat j \<Longrightarrow> i = j" for i j
    by (metis decimal_value_show_nat)
  have "\<not> hm_contains (bound_map env d [0..<k] []) (''s'' @ show_nat k)"
    using Suc.IH inj by fastforce
  moreover have "bound_map env d [0..<Suc k] [] = hm_insert (''s'' @ show_nat k)
      \<lparr>session_id = ''sess-'' @ show_nat k, expires_at = now_bind (env k) + d\<rparr> (bound_map env d [0..<k] [])"
    by (simp add: bound_map_def)
  ultimately show ?case
    using Suc.IH by (auto simp: hm_len_insert hm_contains_def hm_get_insert less_Suc_eq
        split: if_splits)
qed

section \<open>Properties\<close>

lemma at_capacity_run [test_simps]:
  assumes "fresh_at e m" and "n \<noteq> 0" and "n \<le> hm_len m" and "\<not> hm_contains m t"
  shows "bind_state e t sid (test_store d n m) = (Ret (Inl (AtCapacity n)), test_store d n m)"
  using assms(2-4) by (simp add: bind_state_def test_store_def Let_def evict_fresh [OF assms(1)])

lemmas store_test_simps = test_simps new_test_store run_test_def hm_simps fresh_at_insert test_envD(3)
  duration_minutes_def hm_contains_def DEFAULT_MAX_ENTRIES_def

lemma store_tests_run:
  assumes "test_env (duration_minutes 15) env"
  shows "bind_and_verify_state_succeeds env = Ret ()" "verify_wrong_session_fails env = Ret ()"
    "verify_missing_state_fails env = Ret ()" "revoke_state_removes_binding env = Ret ()"
    "rebinding_state_overwrites_previous_session env = Ret ()"
    "constant_time_compare_rejects_same_length_wrong_session env = Ret ()"
  using assms
  by (simp_all add: store_test_simps bind_and_verify_state_succeeds_def verify_wrong_session_fails_def
      verify_missing_state_fails_def revoke_state_removes_binding_def fresh_at_remove
      rebinding_state_overwrites_previous_session_def
      constant_time_compare_rejects_same_length_wrong_session_def)

lemma empty_test_run: "new_store_is_empty = Ret ()"
  by (simp add: new_store_is_empty_def run_test_def t_then_def t_bind_def t_get_def t_assert_run
      store_is_empty_def store_len_def new_test_store(1) test_store_def)

lemma expired_bind_verify:
  assumes "test_env (- 1000000000) env"
  obtains s where "t_bind_state (env 0) tok sid expired_store = (Ret (), s)"
    and "verify_state (env 1) tok sid s =
      (Ret (Inr False), test_store (- 1000000000) DEFAULT_MAX_ENTRIES [])"
proof
  let ?m = "hm_insert tok \<lparr>session_id = sid, expires_at = now_bind (env 0) + - 1000000000\<rparr> []"
  show "t_bind_state (env 0) tok sid expired_store =
      (Ret (), test_store (- 1000000000) DEFAULT_MAX_ENTRIES ?m)"
    unfolding new_test_store
    by (rule t_bind_state_run [OF assms]) (simp_all add: DEFAULT_MAX_ENTRIES_def)
  show "verify_state (env 1) tok sid
      (test_store (- 1000000000) DEFAULT_MAX_ENTRIES ?m) =
      (Ret (Inr False), test_store (- 1000000000) DEFAULT_MAX_ENTRIES [])"
    using test_envD(4) [OF assms, of 0 1]
    by (simp add: verify_state_def test_store_def Let_def evict_expired_def hm_retain_def hm_insert_def)
qed

lemma expired_pair_run:
  assumes "test_env (- 1000000000) env"
  shows "run_test (t_then (t_bind_state (env 0) tok sid) (t_verify_is False (env 1) tok sid)) expired_store =
    Ret ()"
proof (rule expired_bind_verify [OF assms, where tok = tok and sid = sid])
  fix s
  assume b: "t_bind_state (env 0) tok sid expired_store = (Ret (), s)"
    and v: "verify_state (env 1) tok sid s =
      (Ret (Inr False), test_store (- 1000000000) DEFAULT_MAX_ENTRIES [])"
  have "t_bind (t_unwrap (verify_state (env 1) tok sid)) f s =
      f False (test_store (- 1000000000) DEFAULT_MAX_ENTRIES [])" for f :: "bool \<Rightarrow> (unit, in_memory_store) test"
    by (rule t_bind_Ret, rule t_unwrap_Inr, rule v)
  then show ?thesis
    by (simp del: One_nat_def add: run_test_def t_verify_is_def t_assert_run
        t_then_Ret [where m = "t_bind_state (env 0) tok sid", OF b])
qed

lemma expired_test_run: "test_env (- 1000000000) env \<Longrightarrow> expired_state_is_rejected env = Ret ()"
  unfolding expired_state_is_rejected_def by (rule expired_pair_run)

lemma capacity_test_run:
  assumes "test_env (duration_minutes 15) env"
  shows "capacity_rejects_overflow_but_allows_rebind env = Ret ()"
  using assms
  by (simp add: store_test_simps capacity_rejects_overflow_but_allows_rebind_def)

lemma unbounded_test_run:
  assumes "test_env (duration_minutes 15) env"
  shows "capacity_zero_means_unbounded env = Ret ()"
proof -
  let ?d = "duration_minutes 15"
  have "t_for [0..<128] (\<lambda>i. t_bind_state (env i) (''s'' @ show_nat i) (''sess-'' @ show_nat i))
      (test_store ?d 0 []) = (Ret (), test_store ?d 0 (bound_map env ?d [0..<128] []))"
    by (rule bind_loop_run [OF assms]) (simp_all add: duration_minutes_def)
  then show ?thesis
    by (simp only: capacity_zero_means_unbounded_def run_test_def new_test_store(3) t_then_Ret t_len_is_run
        bound_map_len if_True fst_conv refl)
qed

text \<open>
  The unit tests of the session store pass in every environment: whatever the clock readings,
  as long as they do not run backwards from one call to the next and the test takes less than the
  TTL, each of the ten tests returns. The expiry test, whose store has a TTL of minus one second,
  needs the first of the two conditions only.
\<close>

theorem session_store_tests_pass:
  assumes "test_env (duration_minutes 15) env" and "test_env (- 1000000000) env'"
  shows "bind_and_verify_state_succeeds env = Ret () \<and> verify_wrong_session_fails env = Ret ()
    \<and> verify_missing_state_fails env = Ret () \<and> revoke_state_removes_binding env = Ret ()
    \<and> expired_state_is_rejected env' = Ret ()
    \<and> rebinding_state_overwrites_previous_session env = Ret ()
    \<and> constant_time_compare_rejects_same_length_wrong_session env = Ret ()
    \<and> new_store_is_empty = Ret () \<and> capacity_rejects_overflow_but_allows_rebind env = Ret ()
    \<and> capacity_zero_means_unbounded env = Ret ()"
  using store_tests_run [OF assms(1)] expired_test_run [OF assms(2)] empty_test_run
    capacity_test_run [OF assms(1)] unbounded_test_run [OF assms(1)] by blast



theorem session_store_tests_pass_witness:
  "capacity_zero_means_unbounded (\<lambda>i. (sample_env 0)\<lparr>add_duration := \<lambda>t d. Some (t + d)\<rparr>) = Ret ()"
proof -
  have "test_env d (\<lambda>i. (sample_env 0)\<lparr>add_duration := \<lambda>t d. Some (t + d)\<rparr>)" for d
    by (simp add: test_env_def sample_env_def)
  from session_store_tests_pass [OF this this] show ?thesis
    by blast
qed

end
