(* ===== verification/Utf8.thy ===== *)
theory Utf8
  imports AuthKit_Prelude
begin

text \<open>
  UTF-8 as the standard library reads it: \<open>String::from_utf8\<close> and \<open>str::from_utf8\<close> (well-formed
  byte sequences, surrogates and overlong forms excluded), \<open>str::is_char_boundary\<close> and
  \<open>str::split_at\<close>.
\<close>

abbreviation continuation :: "u8 \<Rightarrow> bool" where
  "continuation c \<equiv> 0x80 \<le> c \<and> c \<le> 0xBF"

fun valid_utf8 :: "u8 list \<Rightarrow> bool" where
  "valid_utf8 [] \<longleftrightarrow> True"
| "valid_utf8 (a # as) \<longleftrightarrow>
     (if a < 0x80 then valid_utf8 as
      else if 0xC2 \<le> a \<and> a \<le> 0xDF then
        (case as of c # cs \<Rightarrow> continuation c \<and> valid_utf8 cs | _ \<Rightarrow> False)
      else if 0xE0 \<le> a \<and> a \<le> 0xEF then
        (case as of c # d # cs \<Rightarrow> continuation c \<and> (a = 0xE0 \<longrightarrow> 0xA0 \<le> c) \<and> (a = 0xED \<longrightarrow> c \<le> 0x9F)
            \<and> continuation d \<and> valid_utf8 cs
         | _ \<Rightarrow> False)
      else if 0xF0 \<le> a \<and> a \<le> 0xF4 then
        (case as of c # d # e # cs \<Rightarrow> continuation c \<and> (a = 0xF0 \<longrightarrow> 0x90 \<le> c) \<and> (a = 0xF4 \<longrightarrow> c \<le> 0x8F)
            \<and> continuation d \<and> continuation e \<and> valid_utf8 cs
         | _ \<Rightarrow> False)
      else False)"

definition from_utf8 :: "u8 list \<Rightarrow> string option" where
  "from_utf8 bs = (if valid_utf8 bs then Some (map (\<lambda>b. char_of (unat b)) bs) else None)"

definition is_char_boundary :: "string \<Rightarrow> nat \<Rightarrow> bool" where
  "is_char_boundary s i \<longleftrightarrow> i = 0 \<or> i = length s
     \<or> i < length s \<and> \<not> continuation (of_char (s ! i))"

definition split_at :: "string \<Rightarrow> nat \<Rightarrow> (string \<times> string) outcome" where
  "split_at s i = (if is_char_boundary s i then Ret (take i s, drop i s) else Panic)"

lemma from_utf8_length: "from_utf8 data = Some s \<Longrightarrow> length s = length data"
  by (auto simp: from_utf8_def split: if_splits)

text \<open>The bytes of a string that is well formed read back as the string.\<close>

lemma from_utf8_as_bytes: "valid_utf8 (as_bytes s) \<Longrightarrow> from_utf8 (as_bytes s) = Some s"
  by (simp add: from_utf8_def as_bytes_def o_def)

end
