(* ===== verification/Callback_App.thy ===== *)
theory Callback_App
  imports Pkce_Middleware Json Utf8 Session_Store_Tests
begin

text \<open>
  The application around the middleware, as the tests of \<open>src/middleware/pkce_state_session.rs\<close>,
  \<open>tests/integration_test.rs\<close> and \<open>fuzz/fuzz_target.rs\<close> build it: a router with the one route
  \<open>/oauth/callback\<close>, the middleware on it, a handler that answers a constant, one request sent with
  \<open>oneshot\<close>. Here are the tests of the middleware; the others have their own theories.

  \<open>request_builder\<close> holds the two parsers of the \<open>http\<close> crate behind \<open>Request::builder()\<close>: of the
  URI, into path and query, and of a header value; \<open>None\<close> is the error on which the \<open>unwrap\<close> of the
  builder panics. \<open>Router::route_layer\<close> runs the middleware for a request that matches a route and
  answers 404 to any other.
\<close>

section \<open>The application\<close>

record request_builder =
  parse_uri :: "string \<Rightarrow> (string \<times> string option) option"
  parse_header :: "string \<Rightarrow> u8 list option"

definition build_request ::
  "request_builder \<Rightarrow> string \<Rightarrow> string option \<Rightarrow> (string \<times> http_request) outcome" where
  "build_request b uri cookie =
     (case parse_uri b uri of
        None \<Rightarrow> Panic
      | Some (path, query) \<Rightarrow>
     (case cookie of
        None \<Rightarrow> Ret (path, \<lparr>uri_query = query, cookie_header = None\<rparr>)
      | Some v \<Rightarrow>
     (case parse_header b v of
        None \<Rightarrow> Panic
      | Some h \<Rightarrow> Ret (path, \<lparr>uri_query = query, cookie_header = Some h\<rparr>))))"

text \<open>A response as the tests see it: the status and the body text.\<close>

type_synonym app_response = "nat \<times> string"

definition body_json :: "invalid_state_body \<Rightarrow> json" where
  "body_json b = JObj [(''error'', JStr (body_error b)), (''description'', JStr (body_description b))]"

definition into_response :: "app_response response \<Rightarrow> app_response" where
  "into_response r = (case r of JsonResponse n b \<Rightarrow> (n, json_text (body_json b)) | NextResponse r' \<Rightarrow> r')"

definition oneshot ::
  "app_response \<Rightarrow> http_env \<Rightarrow> ('c \<Rightarrow> string \<Rightarrow> string \<Rightarrow> 's \<Rightarrow> (session_store_error + bool) outcome \<times> 's)
     \<Rightarrow> 'c \<Rightarrow> string \<times> http_request \<Rightarrow> 's \<Rightarrow> app_response outcome \<times> 's" where
  "oneshot handler x verify c req s =
     (if fst req = ''/oauth/callback'' then
        (case enforce_pkce_state_session x verify c (snd req) (\<lambda>_. handler) s of
           (Ret (r, log), s') \<Rightarrow> (Ret (into_response r), s')
         | (Panic, s') \<Rightarrow> (Panic, s'))
      else (Ret (404, []), s))"

text \<open>
  \<open>to_bytes\<close> without a limit on a body that is in memory, and \<open>String::from_utf8\<close> with its \<open>unwrap\<close>.
\<close>

definition body_text :: "app_response \<Rightarrow> string outcome" where
  "body_text r = (case from_utf8 (as_bytes (snd r)) of None \<Rightarrow> Panic | Some body \<Rightarrow> Ret body)"

text \<open>One callback: the request is built, sent, and the response handed on.\<close>

definition send_callback ::
  "app_response \<Rightarrow> http_env \<Rightarrow> request_builder \<Rightarrow> call_env \<Rightarrow> string \<Rightarrow> string option
     \<Rightarrow> (app_response, in_memory_store) test" where
  "send_callback handler x b c uri cookie = t_bind (t_lift (build_request b uri cookie))
     (\<lambda>req. oneshot handler x verify_state c req)"

section \<open>The tests\<close>

definition ok_handler :: app_response where
  "ok_handler = (200, ''ok'')"

definition t_status :: "nat \<Rightarrow> (app_response, 's) test \<Rightarrow> (unit, 's) test" where
  "t_status n m = t_bind m (\<lambda>r. t_assert (fst r = n))"

definition valid_binding_allows_callback ::
  "http_env \<Rightarrow> request_builder \<Rightarrow> (nat \<Rightarrow> call_env) \<Rightarrow> unit outcome" where
  "valid_binding_allows_callback x b env = run_test
     (t_then (t_bind_state (env 0) ''state-1'' ''session-1'')
       (t_bind (send_callback ok_handler x b (env 1) ''/oauth/callback?state=state-1'' (Some ''session_id=session-1''))
         (\<lambda>r. t_then (t_assert (fst r = 200))
           (t_bind (t_lift (body_text r)) (\<lambda>body. t_assert (body = ''ok'')))))) store_new"

definition missing_state_is_rejected ::
  "http_env \<Rightarrow> request_builder \<Rightarrow> (nat \<Rightarrow> call_env) \<Rightarrow> unit outcome" where
  "missing_state_is_rejected x b env = run_test
     (t_bind (send_callback ok_handler x b (env 0) ''/oauth/callback'' (Some ''session_id=session-1''))
       (\<lambda>r. t_then (t_assert (fst r = 401))
         (t_bind (t_lift (body_text r)) (\<lambda>body. t_then (t_assert (contains body ''invalid_state''))
           (t_assert (contains body ''CSRF check failed'')))))) store_new"

definition missing_cookie_is_rejected ::
  "http_env \<Rightarrow> request_builder \<Rightarrow> (nat \<Rightarrow> call_env) \<Rightarrow> unit outcome" where
  "missing_cookie_is_rejected x b env = run_test
     (t_then (t_bind_state (env 0) ''state-1'' ''session-1'')
       (t_status 401 (send_callback ok_handler x b (env 1) ''/oauth/callback?state=state-1'' None))) store_new"

definition wrong_session_binding_is_rejected ::
  "http_env \<Rightarrow> request_builder \<Rightarrow> (nat \<Rightarrow> call_env) \<Rightarrow> unit outcome" where
  "wrong_session_binding_is_rejected x b env = run_test
     (t_then (t_bind_state (env 0) ''state-1'' ''session-1'')
       (t_status 401 (send_callback ok_handler x b (env 1) ''/oauth/callback?state=state-1''
          (Some ''session_id=session-2'')))) store_new"

definition expired_callback_is_rejected ::
  "http_env \<Rightarrow> request_builder \<Rightarrow> (nat \<Rightarrow> call_env) \<Rightarrow> unit outcome" where
  "expired_callback_is_rejected x b env = run_test
     (t_then (t_bind_state (env 0) ''state-1'' ''session-1'')
       (t_status 401 (send_callback ok_handler x b (env 1) ''/oauth/callback?state=state-1''
          (Some ''session_id=session-1'')))) expired_store"

definition percent_encoded_state_matches_decoded_binding ::
  "http_env \<Rightarrow> request_builder \<Rightarrow> (nat \<Rightarrow> call_env) \<Rightarrow> unit outcome" where
  "percent_encoded_state_matches_decoded_binding x b env = run_test
     (t_then (t_bind_state (env 0) ''hello world'' ''session-1'')
       (t_status 200 (send_callback ok_handler x b (env 1) ''/oauth/callback?state=hello%20world''
          (Some ''session_id=session-1'')))) store_new"

definition big_state :: string where
  "big_state = replicate (STATE_MAX_LEN + 1) CHR ''x''"

definition oversized_state_is_rejected ::
  "http_env \<Rightarrow> request_builder \<Rightarrow> (nat \<Rightarrow> call_env) \<Rightarrow> unit outcome" where
  "oversized_state_is_rejected x b env = run_test
     (t_then (t_bind_state (env 0) big_state ''session-1'')
       (t_status 401 (send_callback ok_handler x b (env 1) (''/oauth/callback?state='' @ big_state)
          (Some ''session_id=session-1'')))) store_new"

definition constant_time_compare_rejects_same_length_mismatch ::
  "http_env \<Rightarrow> request_builder \<Rightarrow> (nat \<Rightarrow> call_env) \<Rightarrow> unit outcome" where
  "constant_time_compare_rejects_same_length_mismatch x b env = run_test
     (t_then (t_bind_state (env 0) ''state-ct'' ''aaaaaaaaaaaa'')
       (t_status 401 (send_callback ok_handler x b (env 1) ''/oauth/callback?state=state-ct''
          (Some ''session_id=bbbbbbbbbbbb'')))) store_new"

section \<open>How a callback runs\<close>

text \<open>
  What the two crates document, on the inputs of the tests: a URI of at most 65534 bytes that is a
  path of plain characters, with or without a query of such, splits at its question mark; a header
  value of visible characters and spaces is itself; decoding leaves a text without percent signs
  alone and reads \<open>%20\<close> as a space.
\<close>

definition uri_plain :: "char \<Rightarrow> bool" where
  "uri_plain c \<longleftrightarrow> (let n = of_char c :: nat in
     65 \<le> n \<and> n \<le> 90 \<or> 97 \<le> n \<and> n \<le> 122 \<or> 48 \<le> n \<and> n \<le> 57)
     \<or> List.member ''-_.~/&=%'' c"

definition http_documented :: "http_env \<Rightarrow> request_builder \<Rightarrow> bool" where
  "http_documented x b \<longleftrightarrow>
     (\<forall>p. list_all uri_plain p \<and> length p < 65000 \<longrightarrow>
        parse_uri b (CHR ''/'' # p) = Some (CHR ''/'' # p, None))
   \<and> (\<forall>p q. list_all uri_plain p \<and> list_all uri_plain q \<and> length p + length q < 65000 \<longrightarrow>
        parse_uri b (CHR ''/'' # p @ CHR ''?'' # q) = Some (CHR ''/'' # p, Some q))
   \<and> (\<forall>v. list_all (\<lambda>c. graphic c \<or> c = CHR '' '') v \<longrightarrow>
        parse_header b v = Some (as_bytes v) \<and> header_to_str x (as_bytes v) = Some v)
   \<and> (\<forall>t. list_all uri_plain t \<and> CHR ''%'' \<notin> set t \<longrightarrow> percent_decode_utf8 x t = Some t)
   \<and> percent_decode_utf8 x ''hello%20world'' = Some ''hello world''"

definition rejection :: app_response where
  "rejection = into_response invalid_state_response"

lemma rejection_status [simp]: "fst rejection = 401"
  by (simp add: rejection_def into_response_def invalid_state_response_def)

lemma rejection_body:
  "contains (snd rejection) ''invalid_state''" "contains (snd rejection) ''CSRF check failed''"
  by (simp_all add: rejection_def into_response_def invalid_state_response_def body_json_def
      json_string_def json_escape_def INVALID_STATE_DESCRIPTION_def contains.simps Let_def)

lemma body_text_rejection [simp]: "body_text rejection = Ret (snd rejection)"
proof -
  have "(of_char (char_of (0xE2 :: nat) :: char) :: u8) = 0xE2" "(of_char (char_of (0x80 :: nat) :: char) :: u8) = 0x80"
    "(of_char (char_of (0x94 :: nat) :: char) :: u8) = 0x94"
    using of_char_unat [of "0xE2"] of_char_unat [of "0x80"] of_char_unat [of "0x94"] by simp_all
  then have "valid_utf8 (as_bytes (snd rejection))"
    by (simp add: rejection_def into_response_def invalid_state_response_def body_json_def
        json_string_def json_escape_def INVALID_STATE_DESCRIPTION_def as_bytes_def Let_def)
  then show ?thesis
    by (simp add: body_text_def from_utf8_as_bytes)
qed

definition session_cookie_names :: "string list" where
  "session_cookie_names = [''session_id'', ''authkit_session'', ''authvault_session'', ''sid'']"

lemma session_cookie_name:
  assumes "name \<in> set session_cookie_names"
  shows "CHR ''='' \<notin> set name" "CHR '';'' \<notin> set name" "list_all graphic name"
  using assms by (auto simp: session_cookie_names_def graphic_def)

lemma send_callback_state:
  assumes "http_documented x b" and "list_all uri_plain raw" and "CHR ''&'' \<notin> set raw"
    and "length raw < 2000" and "percent_decode_utf8 x raw = Some t" and "length t \<le> STATE_MAX_LEN"
    and "list_all graphic sid" and "CHR '';'' \<notin> set sid" and "name \<in> set session_cookie_names"
  shows "send_callback h x b e (''/oauth/callback?state='' @ raw) (Some (name @ CHR ''='' # sid)) s =
    (case verify_state e t sid s of
       (Ret (Inr True), s') \<Rightarrow> (Ret h, s')
     | (Ret _, s') \<Rightarrow> (Ret rejection, s')
     | (Panic, s') \<Rightarrow> (Panic, s'))"
proof -
  let ?cs = "[(name, sid)]"
  let ?req = "\<lparr>uri_query = Some (query_of [(''state'', raw)]), cookie_header = Some (as_bytes (cookie_of ?cs))\<rparr>"
  note name = session_cookie_name [OF assms(9)]
  have cs: "cookie_pairs_ok ?cs" and ps: "query_pairs_ok [(''state'', raw)]"
    using assms(3,7,8) name by (simp_all add: cookie_pairs_ok_def query_pairs_ok_def)
  have strs: "cookie_of ?cs = name @ CHR ''='' # sid" "query_of [(''state'', raw)] = ''state='' @ raw"
    by (simp_all add: cookie_of_def query_of_def render_pair_def)
  have "list_all (\<lambda>c. graphic c \<or> c = CHR '' '') (name @ CHR ''='' # sid)"
    using assms(7) name(3) by (auto simp: list_all_iff graphic_def)
  then have h: "parse_header b (name @ CHR ''='' # sid) = Some (as_bytes (name @ CHR ''='' # sid))"
    "header_to_str x (as_bytes (name @ CHR ''='' # sid)) = Some (name @ CHR ''='' # sid)"
    using assms(1) by (simp_all only: http_documented_def)
  have "list_all uri_plain ''oauth/callback'' \<and> list_all uri_plain (''state='' @ raw)
      \<and> length ''oauth/callback'' + length (''state='' @ raw) < 65000"
    using assms(2,4) by (simp add: uri_plain_def Let_def)
  then have "parse_uri b (CHR ''/'' # ''oauth/callback'' @ CHR ''?'' # (''state='' @ raw)) =
      Some (CHR ''/'' # ''oauth/callback'', Some (''state='' @ raw))"
    using assms(1) unfolding http_documented_def by blast
  moreover have "''/oauth/callback?state='' @ raw = CHR ''/'' # ''oauth/callback'' @ CHR ''?'' # (''state='' @ raw)"
    by simp
  ultimately have "build_request b (''/oauth/callback?state='' @ raw) (Some (name @ CHR ''='' # sid)) =
      Ret (''/oauth/callback'', ?req)"
    by (simp only: build_request_def h strs option.case prod.case)
  moreover have "extract_state_token x ?req = Some t"
    using extract_state_token_query_of [OF ps, of ?req x] assms(5,6) by simp
  moreover have "extract_session_id x ?req = Some sid"
    using extract_session_id_cookie_of [OF cs, of ?req "as_bytes (cookie_of ?cs)" x] h(2) assms(9)
    unfolding strs by (auto simp: session_cookie_names_def)
  ultimately show ?thesis
    by (simp add: send_callback_def t_bind_def t_lift_def oneshot_def enforce_pkce_state_session_def
        rejection_def into_response_def split: prod.split outcome.split sum.split bool.split)
qed

text \<open>After one binding in a fresh store, and in a store whose bindings are born expired.\<close>

lemma one_binding:
  assumes "http_documented x b" and "test_env (duration_minutes 15) env"
    and "list_all uri_plain raw" and "CHR ''&'' \<notin> set raw"
    and "length raw < 2000" and "percent_decode_utf8 x raw = Some t" and "length t \<le> STATE_MAX_LEN"
    and "list_all graphic sid" and "CHR '';'' \<notin> set sid" and "name \<in> set session_cookie_names"
  obtains s where "t_bind_state (env 0) tok sess store_new = (Ret (), s)"
    and "send_callback h x b (env 1) (''/oauth/callback?state='' @ raw) (Some (name @ CHR ''='' # sid)) s =
      (Ret (if tok = t \<and> sess = sid then h else rejection), s)"
proof
  let ?d = "duration_minutes 15"
  let ?m = "hm_insert tok \<lparr>session_id = sess, expires_at = now_bind (env 0) + ?d\<rparr> []"
  show "t_bind_state (env 0) tok sess store_new = (Ret (), test_store ?d DEFAULT_MAX_ENTRIES ?m)"
    unfolding new_test_store
    by (rule t_bind_state_run [OF assms(2)]) (simp_all add: DEFAULT_MAX_ENTRIES_def)
  have "fresh_at (env 1) ?m"
    using test_envD(3) [OF assms(2), of 0 1] by (intro fresh_at_insert) (simp_all add: duration_minutes_def)
  then show "send_callback h x b (env 1) (''/oauth/callback?state='' @ raw) (Some (name @ CHR ''='' # sid))
      (test_store ?d DEFAULT_MAX_ENTRIES ?m) =
      (Ret (if tok = t \<and> sess = sid then h else rejection), test_store ?d DEFAULT_MAX_ENTRIES ?m)"
    unfolding send_callback_state [OF assms(1,3-10)]
    by (simp add: verify_fresh [OF assms(2)] hm_get_insert)
qed

text \<open>A test that binds one token, sends one callback and looks at the response.\<close>

lemma one_callback:
  assumes "http_documented x b" and "test_env (duration_minutes 15) env"
    and "list_all uri_plain raw" and "CHR ''&'' \<notin> set raw"
    and "length raw < 2000" and "percent_decode_utf8 x raw = Some t" and "length t \<le> STATE_MAX_LEN"
    and "list_all graphic sid" and "CHR '';'' \<notin> set sid" and "name \<in> set session_cookie_names"
    and "uri = ''/oauth/callback?state='' @ raw" and "cookie = name @ CHR ''='' # sid"
    and "\<And>s. fst (k (if tok = t \<and> sess = sid then h else rejection) s) = r"
  shows "run_test (t_then (t_bind_state (env 0) tok sess)
      (t_bind (send_callback h x b (env 1) uri (Some cookie)) k)) store_new = r"
  unfolding assms(11,12)
  by (rule one_binding [OF assms(1-10), of tok sess h])
    (auto simp: run_test_def t_then_Ret t_bind_Ret assms(13))

lemma plain_literals [simp]:
  "list_all uri_plain ''state-1''" "list_all uri_plain ''state-ct''" "list_all uri_plain ''hello%20world''"
  by (simp_all add: uri_plain_def Let_def)

lemma decoded_literals:
  assumes "http_documented x b"
  shows "percent_decode_utf8 x ''state-1'' = Some ''state-1''"
    and "percent_decode_utf8 x ''state-ct'' = Some ''state-ct''"
    and "percent_decode_utf8 x ''hello%20world'' = Some ''hello world''"
proof -
  have p: "list_all uri_plain t \<Longrightarrow> CHR ''%'' \<notin> set t \<Longrightarrow> percent_decode_utf8 x t = Some t" for t
    using assms unfolding http_documented_def by blast
  show "percent_decode_utf8 x ''state-1'' = Some ''state-1''"
    and "percent_decode_utf8 x ''state-ct'' = Some ''state-ct''"
    by (rule p; simp add: uri_plain_def Let_def)+
  show "percent_decode_utf8 x ''hello%20world'' = Some ''hello world''"
    using assms by (simp add: http_documented_def)
qed

lemmas callback_tests_defs = valid_binding_allows_callback_def wrong_session_binding_is_rejected_def
  percent_encoded_state_matches_decoded_binding_def
  constant_time_compare_rejects_same_length_mismatch_def

lemma callback_tests_bound:
  assumes doc: "http_documented x b" and env: "test_env (duration_minutes 15) env"
  shows "valid_binding_allows_callback x b env = Ret ()" "wrong_session_binding_is_rejected x b env = Ret ()"
    "percent_encoded_state_matches_decoded_binding x b env = Ret ()"
    "constant_time_compare_rejects_same_length_mismatch x b env = Ret ()"
proof -
  have "valid_utf8 (as_bytes ''ok'')"
    by (simp add: as_bytes_def)
  then have ok: "t_lift (body_text ok_handler) = t_return ''ok''"
    by (simp add: body_text_def from_utf8_as_bytes ok_handler_def fun_eq_iff t_lift_def t_return_def)
  note run = t_status_def t_assert_run t_then_Ret t_bind_Ret [OF t_return_run] ok ok_handler_def [THEN arg_cong, of fst]
    session_cookie_names_def graphic_def STATE_MAX_LEN_def uri_plain_def Let_def
  show "valid_binding_allows_callback x b env = Ret ()"
    unfolding valid_binding_allows_callback_def
    by (rule one_callback [OF doc env _ _ _ decoded_literals(1) [OF doc], where sid = "''session-1''" and name = "''session_id''"])
      (simp_all add: run)
  show "wrong_session_binding_is_rejected x b env = Ret ()"
    unfolding wrong_session_binding_is_rejected_def t_status_def
    by (rule one_callback [OF doc env _ _ _ decoded_literals(1) [OF doc], where sid = "''session-2''" and name = "''session_id''"])
      (simp_all add: run)
  show "percent_encoded_state_matches_decoded_binding x b env = Ret ()"
    unfolding percent_encoded_state_matches_decoded_binding_def t_status_def
    by (rule one_callback [OF doc env _ _ _ decoded_literals(3) [OF doc], where sid = "''session-1''" and name = "''session_id''"])
      (simp_all add: run)
  show "constant_time_compare_rejects_same_length_mismatch x b env = Ret ()"
    unfolding constant_time_compare_rejects_same_length_mismatch_def t_status_def
    by (rule one_callback [OF doc env _ _ _ decoded_literals(2) [OF doc], where sid = "''bbbbbbbbbbbb''" and name = "''session_id''"])
      (simp_all add: run)
qed

text \<open>Requests that carry no usable state, or no cookie, are rejected whatever the store holds.\<close>

lemma send_callback_rejected:
  assumes "build_request b uri cookie = Ret (''/oauth/callback'', req)"
    and "extract_state_token x req = None \<or> extract_session_id x req = None"
  shows "send_callback h x b e uri cookie s = (Ret rejection, s)"
  using assms
  by (auto simp: send_callback_def t_bind_def t_lift_def oneshot_def enforce_pkce_state_session_def rejection_def
      split: option.split)

lemma t_status_rejected:
  assumes "send_callback h x b e uri cookie s = (Ret rejection, s')"
  shows "t_status 401 (send_callback h x b e uri cookie) s = (Ret (), s')"
  by (simp add: t_status_def t_bind_def assms t_assert_run)

lemma plain_request:
  assumes "http_documented x b" and "list_all uri_plain q" and "length q < 2000"
  shows "parse_uri b (''/oauth/callback?'' @ q) = Some (''/oauth/callback'', Some q)"
    and "parse_uri b ''/oauth/callback'' = Some (''/oauth/callback'', None)"
proof -
  let ?p = "''oauth/callback''"
  have p: "list_all uri_plain ?p" "length ?p + length q < 65000" "length ?p < 65000"
    using assms(3) by (simp_all add: uri_plain_def Let_def)
  then have "parse_uri b (CHR ''/'' # ?p @ CHR ''?'' # q) = Some (CHR ''/'' # ?p, Some q)"
    and "parse_uri b (CHR ''/'' # ?p) = Some (CHR ''/'' # ?p, None)"
    using assms(1,2) unfolding http_documented_def by blast+
  then show "parse_uri b (''/oauth/callback?'' @ q) = Some (''/oauth/callback'', Some q)"
    and "parse_uri b ''/oauth/callback'' = Some (''/oauth/callback'', None)"
    by simp_all
qed

lemma plain_header:
  assumes "http_documented x b"
  shows "parse_header b ''session_id=session-1'' = Some (as_bytes ''session_id=session-1'')"
proof -
  have "list_all (\<lambda>c. graphic c \<or> c = CHR '' '') ''session_id=session-1''"
    by (simp add: graphic_def)
  then show ?thesis
    using assms unfolding http_documented_def by blast
qed

lemma missing_state_run:
  assumes "http_documented x b"
  shows "missing_state_is_rejected x b env = Ret ()"
proof -
  have "build_request b ''/oauth/callback'' (Some ''session_id=session-1'') = Ret (''/oauth/callback'',
      \<lparr>uri_query = None, cookie_header = Some (as_bytes ''session_id=session-1'')\<rparr>)"
    by (simp only: build_request_def plain_request(2) [OF assms, of "[]"] plain_header [OF assms]
        option.case prod.case list.pred_inject list.size)
  from send_callback_rejected [OF this, of x ok_handler "env 0" store_new]
  have "t_bind (send_callback ok_handler x b (env 0) ''/oauth/callback'' (Some ''session_id=session-1'')) k store_new =
      k rejection store_new" for k :: "app_response \<Rightarrow> (unit, in_memory_store) test"
    by (intro t_bind_Ret) (simp add: extract_state_token_def)
  then show ?thesis
    by (simp add: missing_state_is_rejected_def run_test_def t_then_Ret t_assert_run t_bind_lift
        rejection_body)
qed

lemma missing_cookie_run:
  assumes "http_documented x b" and "test_env (duration_minutes 15) env"
  shows "missing_cookie_is_rejected x b env = Ret ()"
proof -
  have "list_all uri_plain ''state=state-1''"
    by (simp add: uri_plain_def Let_def)
  from plain_request(1) [OF assms(1) this]
  have "build_request b ''/oauth/callback?state=state-1'' None = Ret (''/oauth/callback'',
      \<lparr>uri_query = Some ''state=state-1'', cookie_header = None\<rparr>)"
    by (simp add: build_request_def)
  from send_callback_rejected [OF this, of x ok_handler]
  have r: "send_callback ok_handler x b (env 1) ''/oauth/callback?state=state-1'' None s = (Ret rejection, s)" for s
    by (simp add: extract_session_id_def)
  obtain s where "t_bind_state (env 0) ''state-1'' ''session-1'' store_new = (Ret (), s)"
    unfolding new_test_store using t_bind_state_run [OF assms(2), of 0 "[]"]
    by (auto simp: DEFAULT_MAX_ENTRIES_def)
  then show ?thesis
    unfolding missing_cookie_is_rejected_def run_test_def
    by (simp only: t_then_Ret t_status_rejected [OF r] fst_conv)
qed

lemma expired_callback_run:
  assumes "http_documented x b" and "test_env (- 1000000000) env"
  shows "expired_callback_is_rejected x b env = Ret ()"
proof (rule expired_bind_verify [OF assms(2), where tok = "''state-1''" and sid = "''session-1''"])
  fix s
  let ?s = "test_store (- 1000000000) DEFAULT_MAX_ENTRIES []"
  assume b: "t_bind_state (env 0) ''state-1'' ''session-1'' expired_store = (Ret (), s)"
    and v: "verify_state (env 1) ''state-1'' ''session-1'' s = (Ret (Inr False), ?s)"
  have "send_callback ok_handler x b (env 1) (''/oauth/callback?state='' @ ''state-1'')
      (Some (''session_id'' @ CHR ''='' # ''session-1'')) s = (Ret rejection, ?s)"
    by (subst send_callback_state [OF assms(1) _ _ _ decoded_literals(1) [OF assms(1)]], unfold v)
      (simp_all add: graphic_def STATE_MAX_LEN_def uri_plain_def session_cookie_names_def Let_def)
  then have r: "send_callback ok_handler x b (env 1) ''/oauth/callback?state=state-1''
      (Some ''session_id=session-1'') s = (Ret rejection, ?s)"
    by simp
  show ?thesis
    unfolding expired_callback_is_rejected_def run_test_def
    by (simp only: t_then_Ret [where m = "t_bind_state (env 0) ''state-1'' ''session-1''", OF b]
        t_status_rejected [OF r] fst_conv)
qed

text \<open>The oversized state: decoded it is as long as sent, one byte over the limit.\<close>

lemma big_state_plain: "list_all uri_plain (''state='' @ big_state)" "length big_state = 1025"
    "list_all uri_plain big_state" "CHR ''%'' \<notin> set big_state" "CHR ''&'' \<notin> set big_state"
  by (simp_all add: big_state_def STATE_MAX_LEN_def uri_plain_def Let_def list_all_iff)

lemma oversized_run:
  assumes "http_documented x b" and "test_env (duration_minutes 15) env"
  shows "oversized_state_is_rejected x b env = Ret ()"
proof -
  let ?q = "''state='' @ big_state"
  let ?req = "\<lparr>uri_query = Some ?q, cookie_header = Some (as_bytes ''session_id=session-1'')\<rparr>"
  have uri: "''/oauth/callback?'' @ ?q = ''/oauth/callback?state='' @ big_state"
    by simp
  have "parse_uri b (''/oauth/callback?state='' @ big_state) = Some (''/oauth/callback'', Some ?q)"
    using plain_request(1) [OF assms(1) big_state_plain(1)] unfolding uri
    by (simp add: big_state_plain(2))
  then have req: "build_request b (''/oauth/callback?state='' @ big_state) (Some ''session_id=session-1'') =
      Ret (''/oauth/callback'', ?req)"
    by (simp only: build_request_def plain_header [OF assms(1)] option.case prod.case)
  have "percent_decode_utf8 x big_state = Some big_state"
    using assms(1) big_state_plain(3,4) unfolding http_documented_def by blast
  then have "extract_state_token x ?req = None"
    using query_param_state [OF big_state_plain(5)]
    by (simp add: extract_state_token_def big_state_plain(2) STATE_MAX_LEN_def)
  with send_callback_rejected [OF req, of x ok_handler]
  have r: "send_callback ok_handler x b (env 1) (''/oauth/callback?state='' @ big_state)
      (Some ''session_id=session-1'') s = (Ret rejection, s)" for s
    by blast
  obtain s where "t_bind_state (env 0) big_state ''session-1'' store_new = (Ret (), s)"
    unfolding new_test_store using t_bind_state_run [OF assms(2), of 0 "[]"]
    by (auto simp: DEFAULT_MAX_ENTRIES_def)
  then show ?thesis
    unfolding oversized_state_is_rejected_def run_test_def
    by (simp only: t_then_Ret t_status_rejected [OF r] fst_conv)
qed

section \<open>Property\<close>

text \<open>
  The unit tests of the middleware pass, through request builder, router, middleware and
  in-memory store, whatever the crates \<open>http\<close> and \<open>percent-encoding\<close> are that behave as documented
  on the inputs of the tests, and whatever the clock: each of the eight tests returns. The test of
  the oversized state does not depend on the binding, as its comment says.
\<close>

theorem middleware_tests_pass:
  assumes "http_documented x b" and "test_env (duration_minutes 15) env"
    and "test_env (- 1000000000) env'"
  shows "valid_binding_allows_callback x b env = Ret () \<and> missing_state_is_rejected x b env = Ret ()
    \<and> missing_cookie_is_rejected x b env = Ret () \<and> wrong_session_binding_is_rejected x b env = Ret ()
    \<and> expired_callback_is_rejected x b env' = Ret ()
    \<and> percent_encoded_state_matches_decoded_binding x b env = Ret ()
    \<and> oversized_state_is_rejected x b env = Ret ()
    \<and> constant_time_compare_rejects_same_length_mismatch x b env = Ret ()"
  using callback_tests_bound [OF assms(1,2)] missing_state_run [OF assms(1)]
    missing_cookie_run [OF assms(1,2)] expired_callback_run [OF assms(1,3)] oversized_run [OF assms(1,2)]
  by blast

definition sample_builder :: request_builder where
  "sample_builder = \<lparr>parse_uri = (\<lambda>u. let p = takeWhile (\<lambda>c. c \<noteq> CHR ''?'') u; q = drop (length p) u in
       Some (p, if q = [] then None else Some (tl q))),
     parse_header = (\<lambda>v. Some (as_bytes v))\<rparr>"

definition sample_decoder :: http_env where
  "sample_decoder = sample_http\<lparr>percent_decode_utf8 := \<lambda>t. Some (if t = ''hello%20world'' then ''hello world'' else t)\<rparr>"

lemma takeWhile_plain: "list_all uri_plain p \<Longrightarrow> takeWhile (\<lambda>c. c \<noteq> CHR ''?'') p = p"
    "list_all uri_plain p \<Longrightarrow> takeWhile (\<lambda>c. c \<noteq> CHR ''?'') (p @ CHR ''?'' # q) = p"
proof -
  have "\<not> uri_plain CHR ''?''"
    by (simp add: uri_plain_def Let_def)
  then have "c \<noteq> CHR ''?''" if "uri_plain c" for c
    using that by metis
  then show "list_all uri_plain p \<Longrightarrow> takeWhile (\<lambda>c. c \<noteq> CHR ''?'') p = p"
    "list_all uri_plain p \<Longrightarrow> takeWhile (\<lambda>c. c \<noteq> CHR ''?'') (p @ CHR ''?'' # q) = p"
    by (induction p) auto
qed

lemma sample_documented: "http_documented sample_decoder sample_builder"
  unfolding http_documented_def
proof (intro conjI allI impI)
  fix p q :: string
  assume "list_all uri_plain p \<and> list_all uri_plain q \<and> length p + length q < 65000"
  then show "parse_uri sample_builder (CHR ''/'' # p @ CHR ''?'' # q) = Some (CHR ''/'' # p, Some q)"
    by (simp add: sample_builder_def Let_def takeWhile_plain)
next
  fix v
  show "parse_header sample_builder v = Some (as_bytes v)"
    "header_to_str sample_decoder (as_bytes v) = Some v"
    by (simp_all add: sample_builder_def sample_decoder_def)
qed (auto simp: sample_builder_def sample_decoder_def Let_def takeWhile_plain)

theorem middleware_tests_pass_witness:
  "oversized_state_is_rejected sample_decoder sample_builder
     (\<lambda>i. (sample_env 0)\<lparr>add_duration := \<lambda>t d. Some (t + d)\<rparr>) = Ret ()"
proof -
  have "test_env d (\<lambda>i. (sample_env 0)\<lparr>add_duration := \<lambda>t d. Some (t + d)\<rparr>)" for d
    by (simp add: test_env_def sample_env_def)
  from middleware_tests_pass [OF sample_documented this this] show ?thesis
    by blast
qed

end
