(* ===== verification/Fuzz_Target.thy ===== *)
theory Fuzz_Target
  imports Callback_App
begin

text \<open>
  The fuzz target of \<open>fuzz/fuzz_target.rs\<close>: the input is read as UTF-8, split in the middle, its
  halves go into a callback request for the middleware over a fresh store. The target is meant to
  panic only when the middleware does. Here are the target
  and exactly when it panics.
\<close>

section \<open>The target\<close>

text \<open>
  \<open>rt\<close> tells whether \<open>tokio\<close> can start a runtime. The result of \<open>bind_state\<close> is dropped, but a panic
  in it is a panic of the target; so is one of the builder's \<open>unwrap\<close>. The response is dropped.
\<close>

definition fuzz_request :: "string \<Rightarrow> string \<Rightarrow> request_builder \<Rightarrow> (string \<times> http_request) outcome" where
  "fuzz_request query_val cookie_val b =
     build_request b (''/oauth/callback?state='' @ query_val) (Some (''session_id='' @ cookie_val))"

definition fuzz_target ::
  "http_env \<Rightarrow> request_builder \<Rightarrow> bool \<Rightarrow> (nat \<Rightarrow> call_env) \<Rightarrow> u8 list \<Rightarrow> unit outcome" where
  "fuzz_target x b rt env data =
     (case from_utf8 data of
        None \<Rightarrow> Ret ()
      | Some s \<Rightarrow>
        if s = [] then Ret ()
        else let pivot = length s div 2 in
          (case split_at s pivot of
             Panic \<Rightarrow> Panic
           | Ret (query_val, cookie_val) \<Rightarrow>
          (case bind_state (env 0) query_val cookie_val store_new of
             (Panic, _) \<Rightarrow> Panic
           | (Ret _, store) \<Rightarrow>
          (case fuzz_request query_val cookie_val b of
             Panic \<Rightarrow> Panic
           | Ret req \<Rightarrow>
             if \<not> rt then Panic
             else (case oneshot (200, ''ok'') x verify_state (env 1) req store of
                (Ret _, _) \<Rightarrow> Ret () | (Panic, _) \<Rightarrow> Panic)))))"

section \<open>When it panics\<close>

lemma oneshot_returns: "fst (oneshot h x verify_state c req s) \<noteq> Panic"
  using mem.enforce_returns [of x c "snd req" "\<lambda>_. h" s]
  by (auto simp: oneshot_def split: prod.split outcome.split)

lemma bind_new_returns:
  assumes "add_duration e (now_bind e) (duration_minutes 15) \<noteq> None"
  obtains s where "bind_state e t i store_new = (Ret (Inr ()), s)"
  using assms
  by (auto simp: bind_state_def new_test_store(1) test_store_def evict_expired_def hm_retain_def
      hm_len_def DEFAULT_MAX_ENTRIES_def)

text \<open>A two-byte character alone: the pivot falls between its bytes.\<close>

lemma lone_character_panics:
  assumes "0xC2 \<le> a" and "a \<le> 0xDF" and "continuation c"
  shows "fuzz_target x b rt env [a, c] = Panic"
proof -
  have "\<not> a < 0x80"
    using assms(1) by (simp add: word_le_nat_alt word_less_nat_alt)
  then have "from_utf8 [a, c] = Some [char_of (unat a), char_of (unat c)]"
    using assms by (simp add: from_utf8_def)
  then show ?thesis
    using assms(3) by (simp add: fuzz_target_def split_at_def is_char_boundary_def)
qed

section \<open>Property\<close>

text \<open>
  C36. The fuzz target never panics because of the middleware or the store: as long as the fresh
  store can compute an expiry and the runtime starts, it panics exactly on the inputs that are
  valid UTF-8, not empty, and either have a character across their middle byte, where \<open>split_at\<close>
  panics, or halves from which the request builder cannot make a request, where \<open>unwrap\<close> does.
  Both are panics of the harness and not of the code under test; a lone two-byte character is one.
\<close>

theorem fuzz_target_panics_iff:
  assumes "add_duration (env 0) (now_bind (env 0)) (duration_minutes 15) \<noteq> None"
  shows "fuzz_target x b True env data = Panic \<longleftrightarrow>
    (case from_utf8 data of None \<Rightarrow> False
     | Some s \<Rightarrow> s \<noteq> [] \<and> (\<not> is_char_boundary s (length s div 2)
         \<or> fuzz_request (take (length s div 2) s) (drop (length s div 2) s) b = Panic))"
proof (cases "from_utf8 data")
  case None
  then show ?thesis
    by (simp add: fuzz_target_def)
next
  case (Some s)
  let ?q = "take (length s div 2) s" and ?c = "drop (length s div 2) s"
  obtain st where "bind_state (env 0) ?q ?c store_new = (Ret (Inr ()), st)"
    by (rule bind_new_returns [OF assms])
  then show ?thesis
    using oneshot_returns [of "(200, ''ok'')" x "env 1" _ st] Some
    by (auto simp: fuzz_target_def split_at_def Let_def split: outcome.split prod.split)
      (metis fst_conv)+
qed

theorem fuzz_target_panics_iff_witness:
  "fuzz_target sample_decoder sample_builder True (\<lambda>i. sample_env (int i)) [0xC3, 0xA9] = Panic
   \<and> fuzz_target sample_decoder sample_builder True (\<lambda>i. sample_env (int i)) (as_bytes ''ab'') = Ret ()"
proof -
  have "add_duration (sample_env (int 0)) (now_bind (sample_env (int 0))) (duration_minutes 15) \<noteq> None"
    by (simp add: sample_env_def duration_minutes_def)
  note outcome = fuzz_target_panics_iff [where env = "\<lambda>i. sample_env (int i)", OF this,
      of sample_decoder sample_builder]
  have "(of_char (char_of (169 :: nat) :: char) :: u8) = 0xA9"
    using of_char_unat [of "0xA9"] by simp
  then have panic: "fuzz_target sample_decoder sample_builder True (\<lambda>i. sample_env (int i)) [0xC3, 0xA9] = Panic"
    unfolding outcome by (simp add: from_utf8_def is_char_boundary_def)
  have "(char_of (97 :: nat) :: char) = CHR ''a''" "(char_of (98 :: nat) :: char) = CHR ''b''"
    using char_of_char [of "CHR ''a''", where 'a = nat] char_of_char [of "CHR ''b''", where 'a = nat]
    by simp_all
  moreover have "build_request sample_builder ''/oauth/callback?state=a'' (Some ''session_id=b'') =
      Ret (''/oauth/callback'', sample_request ''state=a'' ''session_id=b'')"
    by (simp add: build_request_def sample_builder_def sample_request_def Let_def)
  ultimately have "fuzz_target sample_decoder sample_builder True (\<lambda>i. sample_env (int i)) (as_bytes ''ab'') \<noteq> Panic"
    unfolding outcome by (simp add: from_utf8_def is_char_boundary_def as_bytes_def fuzz_request_def)
  then have "fuzz_target sample_decoder sample_builder True (\<lambda>i. sample_env (int i)) (as_bytes ''ab'') = Ret ()"
    by (cases "fuzz_target sample_decoder sample_builder True (\<lambda>i. sample_env (int i)) (as_bytes ''ab'')")
      simp_all
  with panic show ?thesis
    by blast
qed

end
