(* ===== verification/Integration_Tests.thy ===== *)
theory Integration_Tests
  imports Callback_App
begin

text \<open>
  The integration tests of \<open>tests/integration_test.rs\<close>, call by call: the store and the middleware
  through the public interface of the crate, with the three other names of the session cookie and
  a lifecycle of one store. \<open>env i\<close> is the environment of the \<open>i\<close>-th call that reads the clock.
\<close>

section \<open>The tests\<close>

definition callback_handler :: app_response where
  "callback_handler = (200, ''callback_ok'')"

text \<open>\<open>make_request\<close> sets no header for an empty cookie; the router is that of the callback app.\<close>

definition oauth_request ::
  "http_env \<Rightarrow> request_builder \<Rightarrow> call_env \<Rightarrow> string \<Rightarrow> string \<Rightarrow> (app_response, in_memory_store) test" where
  "oauth_request x b e uri cookie =
     send_callback callback_handler x b e uri (if cookie = [] then None else Some cookie)"

definition integration_valid_callback_passes_through ::
  "http_env \<Rightarrow> request_builder \<Rightarrow> (nat \<Rightarrow> call_env) \<Rightarrow> unit outcome" where
  "integration_valid_callback_passes_through x b env = run_test
     (t_then (t_bind_state (env 0) ''abc-123-state'' ''user-session-42'')
       (t_bind (oauth_request x b (env 1) ''/oauth/callback?state=abc-123-state''
            ''session_id=user-session-42'')
         (\<lambda>r. t_then (t_assert (fst r = 200))
           (t_bind (t_lift (body_text r)) (\<lambda>body. t_assert (body = ''callback_ok'')))))) store_new"

definition integration_unbound_state_rejected ::
  "http_env \<Rightarrow> request_builder \<Rightarrow> (nat \<Rightarrow> call_env) \<Rightarrow> unit outcome" where
  "integration_unbound_state_rejected x b env = run_test
     (t_bind (oauth_request x b (env 0) ''/oauth/callback?state=forged-state''
          ''session_id=user-session-42'')
       (\<lambda>r. t_then (t_assert (fst r = 401))
         (t_bind (t_lift (body_text r)) (\<lambda>body. t_then (t_assert (contains body ''invalid_state''))
           (t_assert (contains body ''CSRF check failed'')))))) store_new"

definition integration_wrong_session_rejected ::
  "http_env \<Rightarrow> request_builder \<Rightarrow> (nat \<Rightarrow> call_env) \<Rightarrow> unit outcome" where
  "integration_wrong_session_rejected x b env = run_test
     (t_then (t_bind_state (env 0) ''state-abc'' ''session-A'')
       (t_status 401 (oauth_request x b (env 1) ''/oauth/callback?state=state-abc''
          ''session_id=session-B''))) store_new"

definition integration_missing_state_rejected ::
  "http_env \<Rightarrow> request_builder \<Rightarrow> (nat \<Rightarrow> call_env) \<Rightarrow> unit outcome" where
  "integration_missing_state_rejected x b env = run_test
     (t_then (t_bind_state (env 0) ''state-abc'' ''session-1'')
       (t_status 401 (oauth_request x b (env 1) ''/oauth/callback'' ''session_id=session-1''))) store_new"

definition integration_missing_cookie_rejected ::
  "http_env \<Rightarrow> request_builder \<Rightarrow> (nat \<Rightarrow> call_env) \<Rightarrow> unit outcome" where
  "integration_missing_cookie_rejected x b env = run_test
     (t_then (t_bind_state (env 0) ''state-abc'' ''session-1'')
       (t_status 401 (oauth_request x b (env 1) ''/oauth/callback?state=state-abc'' []))) store_new"

definition integration_session_store_trait_lifecycle :: "(nat \<Rightarrow> call_env) \<Rightarrow> unit outcome" where
  "integration_session_store_trait_lifecycle env = run_test
     (t_then (t_bind_state (env 0) ''s1'' ''sess-1'')
     (t_then (t_verify_is True (env 1) ''s1'' ''sess-1'')
     (t_then (t_verify_is False (env 2) ''s1'' ''sess-other'')
     (t_then (t_verify_is False (env 3) ''unknown'' ''sess-1'')
     (t_then (t_bind_state (env 4) ''s1'' ''sess-2'')
     (t_then (t_verify_is True (env 5) ''s1'' ''sess-2'')
     (t_then (t_verify_is False (env 6) ''s1'' ''sess-1'')
     (t_then (t_unwrap (revoke_state ''s1''))
     (t_then (t_verify_is False (env 7) ''s1'' ''sess-2'')
             (t_unwrap (revoke_state ''already-gone''))))))))))) store_new"

definition integration_expired_entries_evicted :: "(nat \<Rightarrow> call_env) \<Rightarrow> unit outcome" where
  "integration_expired_entries_evicted env = run_test
     (t_then (t_bind_state (env 0) ''expired-state'' ''sess-1'')
       (t_verify_is False (env 1) ''expired-state'' ''sess-1'')) expired_store"

definition integration_authkit_session_cookie_alias ::
  "http_env \<Rightarrow> request_builder \<Rightarrow> (nat \<Rightarrow> call_env) \<Rightarrow> unit outcome" where
  "integration_authkit_session_cookie_alias x b env = run_test
     (t_then (t_bind_state (env 0) ''state-x'' ''sess-x'')
       (t_status 200 (oauth_request x b (env 1) ''/oauth/callback?state=state-x''
          ''authkit_session=sess-x''))) store_new"

definition integration_authvault_session_cookie_alias ::
  "http_env \<Rightarrow> request_builder \<Rightarrow> (nat \<Rightarrow> call_env) \<Rightarrow> unit outcome" where
  "integration_authvault_session_cookie_alias x b env = run_test
     (t_then (t_bind_state (env 0) ''state-y'' ''sess-y'')
       (t_status 200 (oauth_request x b (env 1) ''/oauth/callback?state=state-y''
          ''authvault_session=sess-y''))) store_new"

definition integration_sid_cookie_alias ::
  "http_env \<Rightarrow> request_builder \<Rightarrow> (nat \<Rightarrow> call_env) \<Rightarrow> unit outcome" where
  "integration_sid_cookie_alias x b env = run_test
     (t_then (t_bind_state (env 0) ''state-z'' ''sess-z'')
       (t_status 200 (oauth_request x b (env 1) ''/oauth/callback?state=state-z'' ''sid=sess-z''))) store_new"

section \<open>How they run\<close>

lemma decoded_plain:
  "http_documented x b \<Longrightarrow> list_all uri_plain t \<Longrightarrow> CHR ''%'' \<notin> set t \<Longrightarrow> percent_decode_utf8 x t = Some t"
  unfolding http_documented_def by blast

lemma oauth_request_cookie:
  "cookie \<noteq> [] \<Longrightarrow> oauth_request x b e uri cookie = send_callback callback_handler x b e uri (Some cookie)"
  by (simp add: oauth_request_def)

lemma one_oauth_callback:
  assumes "http_documented x b" and "test_env (duration_minutes 15) env"
    and "list_all uri_plain t" and "CHR ''%'' \<notin> set t" and "CHR ''&'' \<notin> set t"
    and "length t \<le> STATE_MAX_LEN" and "list_all graphic sid" and "CHR '';'' \<notin> set sid"
    and "name \<in> set session_cookie_names"
    and "uri = ''/oauth/callback?state='' @ t" and "cookie = name @ CHR ''='' # sid"
    and "\<And>s. fst (k (if tok = t \<and> sess = sid then callback_handler else rejection) s) = r"
  shows "run_test (t_then (t_bind_state (env 0) tok sess)
      (t_bind (oauth_request x b (env 1) uri cookie) k)) store_new = r"
proof -
  have "cookie \<noteq> []"
    by (simp add: assms(11))
  moreover have "length t < 2000"
    using assms(6) by (simp add: STATE_MAX_LEN_def)
  ultimately show ?thesis
    unfolding oauth_request_cookie [OF \<open>cookie \<noteq> []\<close>]
    by (intro one_callback [OF assms(1-3,5) _ decoded_plain [OF assms(1,3,4)] assms(6-11)] assms(12))
qed

lemma status_of_handler:
  "fst (t_assert (fst callback_handler = 200) s) = Ret ()" "fst (t_assert (fst rejection = 401) s) = Ret ()"
  by (simp_all add: t_assert_run callback_handler_def)

lemma body_text_handler: "body_text callback_handler = Ret ''callback_ok''"
proof -
  have "valid_utf8 (as_bytes ''callback_ok'')"
    by (simp add: as_bytes_def)
  then show ?thesis
    by (simp add: body_text_def from_utf8_as_bytes callback_handler_def)
qed

lemma bound_tests_run:
  assumes doc: "http_documented x b" and env: "test_env (duration_minutes 15) env"
  shows "integration_valid_callback_passes_through x b env = Ret ()"
    "integration_wrong_session_rejected x b env = Ret ()"
    "integration_authkit_session_cookie_alias x b env = Ret ()"
    "integration_authvault_session_cookie_alias x b env = Ret ()"
    "integration_sid_cookie_alias x b env = Ret ()"
proof -
  note run = t_assert_run t_then_Ret t_bind_lift body_text_handler callback_handler_def [THEN arg_cong, of fst]
    session_cookie_names_def graphic_def STATE_MAX_LEN_def uri_plain_def Let_def
  show "integration_valid_callback_passes_through x b env = Ret ()"
    unfolding integration_valid_callback_passes_through_def
    by (rule one_oauth_callback [OF doc env, where t = "''abc-123-state''" and sid = "''user-session-42''"
          and name = "''session_id''"]) (simp_all add: run)
  show "integration_wrong_session_rejected x b env = Ret ()"
    unfolding integration_wrong_session_rejected_def t_status_def
    by (rule one_oauth_callback [OF doc env, where t = "''state-abc''" and sid = "''session-B''"
          and name = "''session_id''"]) (simp_all add: run)
  show "integration_authkit_session_cookie_alias x b env = Ret ()"
    unfolding integration_authkit_session_cookie_alias_def t_status_def
    by (rule one_oauth_callback [OF doc env, where t = "''state-x''" and sid = "''sess-x''"
          and name = "''authkit_session''"]) (simp_all add: run)
  show "integration_authvault_session_cookie_alias x b env = Ret ()"
    unfolding integration_authvault_session_cookie_alias_def t_status_def
    by (rule one_oauth_callback [OF doc env, where t = "''state-y''" and sid = "''sess-y''"
          and name = "''authvault_session''"]) (simp_all add: run)
  show "integration_sid_cookie_alias x b env = Ret ()"
    unfolding integration_sid_cookie_alias_def t_status_def
    by (rule one_oauth_callback [OF doc env, where t = "''state-z''" and sid = "''sess-z''"
          and name = "''sid''"]) (simp_all add: run)
qed

lemma unbound_test_run:
  assumes doc: "http_documented x b" and env: "test_env (duration_minutes 15) env"
  shows "integration_unbound_state_rejected x b env = Ret ()"
proof -
  let ?s = "test_store (duration_minutes 15) DEFAULT_MAX_ENTRIES []"
  have p: "list_all uri_plain ''forged-state''"
    by (simp add: uri_plain_def Let_def)
  have "send_callback callback_handler x b (env 0) (''/oauth/callback?state='' @ ''forged-state'')
      (Some (''session_id'' @ CHR ''='' # ''user-session-42'')) ?s = (Ret rejection, ?s)"
    by (subst send_callback_state [OF doc p _ _ decoded_plain [OF doc p]])
      (simp_all add: verify_fresh [OF env] session_cookie_names_def graphic_def STATE_MAX_LEN_def)
  then have "oauth_request x b (env 0) ''/oauth/callback?state=forged-state''
      ''session_id=user-session-42'' ?s = (Ret rejection, ?s)"
    by (simp add: oauth_request_def)
  note step = t_bind_Ret [where m = "oauth_request x b (env 0) ''/oauth/callback?state=forged-state''
      ''session_id=user-session-42''", OF this]
  show ?thesis
    unfolding integration_unbound_state_rejected_def run_test_def new_test_store(1) step
    by (simp add: t_then_Ret t_assert_run t_bind_lift rejection_body)
qed

lemma fresh_bind:
  assumes "test_env (duration_minutes 15) env"
  obtains s where "t_bind_state (env 0) tok sess store_new = (Ret (), s)"
  unfolding new_test_store using t_bind_state_run [OF assms, of 0 "[]"]
  by (auto simp: DEFAULT_MAX_ENTRIES_def)

lemma missing_tests_run:
  assumes doc: "http_documented x b" and env: "test_env (duration_minutes 15) env"
  shows "integration_missing_state_rejected x b env = Ret ()"
    and "integration_missing_cookie_rejected x b env = Ret ()"
proof -
  obtain s where b: "t_bind_state (env 0) ''state-abc'' ''session-1'' store_new = (Ret (), s)"
    by (rule fresh_bind [OF env])
  note bound = t_then_Ret [where m = "t_bind_state (env 0) ''state-abc'' ''session-1''", OF b]
  have "build_request b ''/oauth/callback'' (Some ''session_id=session-1'') = Ret (''/oauth/callback'',
      \<lparr>uri_query = None, cookie_header = Some (as_bytes ''session_id=session-1'')\<rparr>)"
    by (simp only: build_request_def plain_request(2) [OF doc, of "[]"] plain_header [OF doc]
        option.case prod.case list.pred_inject list.size)
  from t_status_rejected [OF send_callback_rejected [OF this], of x callback_handler "env 1" s]
  show "integration_missing_state_rejected x b env = Ret ()"
    unfolding integration_missing_state_rejected_def run_test_def bound
    by (simp add: oauth_request_def extract_state_token_def)
  have "list_all uri_plain ''state=state-abc''"
    by (simp add: uri_plain_def Let_def)
  from plain_request(1) [OF doc this]
  have "build_request b ''/oauth/callback?state=state-abc'' None = Ret (''/oauth/callback'',
      \<lparr>uri_query = Some ''state=state-abc'', cookie_header = None\<rparr>)"
    by (simp add: build_request_def)
  from t_status_rejected [OF send_callback_rejected [OF this], of x callback_handler "env 1" s]
  show "integration_missing_cookie_rejected x b env = Ret ()"
    unfolding integration_missing_cookie_rejected_def run_test_def bound
    by (simp add: oauth_request_def extract_session_id_def)
qed

lemma store_integration_run:
  assumes "test_env (duration_minutes 15) env"
  shows "integration_session_store_trait_lifecycle env = Ret ()"
  using assms
  by (simp add: store_test_simps integration_session_store_trait_lifecycle_def fresh_at_remove)

lemma expired_integration_run:
  "test_env (- 1000000000) env \<Longrightarrow> integration_expired_entries_evicted env = Ret ()"
  unfolding integration_expired_entries_evicted_def by (rule expired_pair_run)

section \<open>Property\<close>

text \<open>
  The integration tests pass, whatever the crates \<open>http\<close> and \<open>percent-encoding\<close> are that
  behave as documented on the inputs of the tests, and whatever the clock, as long as it does not
  run backwards and a test takes less than the TTL: each of the ten returns. In particular the
  bodies are well-formed UTF-8 (the description of a rejection has an em dash) and all four names
  of the session cookie are accepted.
\<close>

theorem integration_tests_pass:
  assumes "http_documented x b" and "test_env (duration_minutes 15) env"
    and "test_env (- 1000000000) env'"
  shows "integration_valid_callback_passes_through x b env = Ret ()
    \<and> integration_unbound_state_rejected x b env = Ret ()
    \<and> integration_wrong_session_rejected x b env = Ret ()
    \<and> integration_missing_state_rejected x b env = Ret ()
    \<and> integration_missing_cookie_rejected x b env = Ret ()
    \<and> integration_session_store_trait_lifecycle env = Ret ()
    \<and> integration_expired_entries_evicted env' = Ret ()
    \<and> integration_authkit_session_cookie_alias x b env = Ret ()
    \<and> integration_authvault_session_cookie_alias x b env = Ret ()
    \<and> integration_sid_cookie_alias x b env = Ret ()"
  using bound_tests_run [OF assms(1,2)] unbound_test_run [OF assms(1,2)]
    missing_tests_run [OF assms(1,2)] store_integration_run [OF assms(2)]
    expired_integration_run [OF assms(3)] by blast

theorem integration_tests_pass_witness:
  "integration_authvault_session_cookie_alias sample_decoder sample_builder
     (\<lambda>i. (sample_env 0)\<lparr>add_duration := \<lambda>t d. Some (t + d)\<rparr>) = Ret ()"
proof -
  have "test_env d (\<lambda>i. (sample_env 0)\<lparr>add_duration := \<lambda>t d. Some (t + d)\<rparr>)" for d
    by (simp add: test_env_def sample_env_def)
  from integration_tests_pass [OF sample_documented this this] show ?thesis
    by blast
qed

end
