(* ===== verification/Benchmarks.thy ===== *)
theory Benchmarks
  imports Session_Store_Tests
begin

text \<open>
  The workloads of \<open>benches/criterion_bench.rs\<close> on the in-memory store: what criterion repeats, any
  number of times, from the store each benchmark creates. A benchmark is good when no \<open>unwrap\<close> in
  it panics, however often it is repeated and however much time that takes; time is not modelled.
\<close>

section \<open>The workloads\<close>

text \<open>\<open>env i\<close> is the environment of the \<open>i\<close>th call that reads the clock, \<open>n\<close> the number of iterations.\<close>

definition bench_bind :: "(nat \<Rightarrow> call_env) \<Rightarrow> string \<Rightarrow> nat \<Rightarrow> (unit, in_memory_store) test" where
  "bench_bind env state n = t_for [0..<n] (\<lambda>i. t_bind_state (env i) state ''bench-session'')"

definition t_verify :: "call_env \<Rightarrow> string \<Rightarrow> string \<Rightarrow> (unit, in_memory_store) test" where
  "t_verify e t i = t_bind (t_unwrap (verify_state e t i)) (\<lambda>_. t_return ())"

definition bench_verify_bound ::
  "(nat \<Rightarrow> call_env) \<Rightarrow> string \<Rightarrow> nat \<Rightarrow> (unit, in_memory_store) test" where
  "bench_verify_bound env state n = t_then (t_bind_state (env 0) state ''bench-session'')
     (t_for [0..<n] (\<lambda>i. t_verify (env (Suc i)) state ''bench-session''))"

text \<open>The same on a new store for each of four lengths, with the random characters as an argument.\<close>

definition bench_verify_lengths ::
  "(nat \<Rightarrow> nat \<Rightarrow> call_env) \<Rightarrow> (nat \<Rightarrow> string) \<Rightarrow> nat \<Rightarrow> unit outcome" where
  "bench_verify_lengths env alphanumeric n =
     foldr (\<lambda>token_len rest. and_then
         (fst (bench_verify_bound (env token_len) (take token_len (alphanumeric token_len)) n store_new))
         (\<lambda>_. rest))
       [8, 32, 64, 128] (Ret ())"

definition bench_verify_missing :: "(nat \<Rightarrow> call_env) \<Rightarrow> nat \<Rightarrow> (unit, in_memory_store) test" where
  "bench_verify_missing env n = t_for [0..<n] (\<lambda>i. t_verify (env i) ''no-such-state'' ''no-such-session'')"

definition bench_revoke_existing :: "(nat \<Rightarrow> call_env) \<Rightarrow> nat \<Rightarrow> (unit, in_memory_store) test" where
  "bench_revoke_existing env n = t_then (t_bind_state (env 0) ''bench-revoke'' ''bench-session'')
     (t_for [0..<n] (\<lambda>i. t_then (t_bind_state (env (Suc i)) ''bench-revoke'' ''bench-session'')
        (t_unwrap (revoke_state ''bench-revoke''))))"

definition bench_revoke_missing :: "nat \<Rightarrow> (unit, in_memory_store) test" where
  "bench_revoke_missing n = t_for [0..<n] (\<lambda>i. t_unwrap (revoke_state ''no-such-state''))"

text \<open>The counter is incremented before its first use and is far from the end of \<open>u64\<close>.\<close>

definition bench_cycle :: "(nat \<Rightarrow> call_env) \<Rightarrow> nat \<Rightarrow> (unit, in_memory_store) test" where
  "bench_cycle env n = t_for [0..<n] (\<lambda>i. let state = ''state-'' @ show_nat (Suc i) in
     t_then (t_bind_state (env (2 * i)) state ''session'')
       (t_then (t_verify (env (2 * i + 1)) state ''session'')
         (t_unwrap (revoke_state state))))"

section \<open>How they run\<close>

text \<open>The one thing asked of the environment: the date 15 minutes ahead is in range.\<close>

definition bench_env :: "(nat \<Rightarrow> call_env) \<Rightarrow> bool" where
  "bench_env env \<longleftrightarrow> (\<forall>i. add_duration (env i) (now_bind (env i)) (duration_minutes 15) \<noteq> None)"

text \<open>A store of the benchmarks that holds at most the tokens of \<open>ts\<close>.\<close>

definition holds_only :: "string set \<Rightarrow> in_memory_store \<Rightarrow> bool" where
  "holds_only ts s \<longleftrightarrow> \<not> poisoned s \<and> hm_inv (inner s) \<and> dom (hm_get (inner s)) \<subseteq> ts
     \<and> ttl s = duration_minutes 15 \<and> max_entries s = DEFAULT_MAX_ENTRIES"

lemma holds_only_new: "holds_only {} store_new"
  by (simp add: holds_only_def store_new_def store_default_def store_with_capacity_def fun_eq_iff)

lemma holds_only_mono: "holds_only ts s \<Longrightarrow> ts \<subseteq> us \<Longrightarrow> holds_only us s"
  by (auto simp: holds_only_def)

lemma evict_subset: "hm_inv m \<Longrightarrow> dom (hm_get (evict_expired now m)) \<subseteq> dom (hm_get m)"
  by (auto simp: hm_get_evict split: option.splits)

text \<open>\<open>m\<close> returns from every state in \<open>I\<close>, in a state in \<open>J\<close>.\<close>

definition returns :: "('s \<Rightarrow> bool) \<Rightarrow> (unit, 's) test \<Rightarrow> ('s \<Rightarrow> bool) \<Rightarrow> bool" where
  "returns I m J \<longleftrightarrow> (\<forall>s. I s \<longrightarrow> (\<exists>s'. m s = (Ret (), s') \<and> J s'))"

lemma returns_then: "returns I m J \<Longrightarrow> returns J k K \<Longrightarrow> returns I (t_then m k) K"
  unfolding returns_def by (metis t_then_Ret)

lemma returns_weaken:
  "returns I m J \<Longrightarrow> (\<And>s. I' s \<Longrightarrow> I s) \<Longrightarrow> (\<And>s. J s \<Longrightarrow> J' s) \<Longrightarrow> returns I' m J'"
  unfolding returns_def by blast

lemma returns_for: "(\<And>i. returns I (body i) I) \<Longrightarrow> returns I (t_for is body) I"
proof (induction "is")
  case (Cons i js)
  then show ?case
    by (auto intro: returns_then)
qed (simp add: returns_def t_return_run)

lemma returns_bind:
  assumes "bench_env env" and "ts \<subseteq> {t}"
  shows "returns (holds_only ts) (t_bind_state (env i) t j) (holds_only {t})"
  unfolding returns_def
proof (intro allI impI)
  fix s
  assume s: "holds_only ts s"
  let ?m = "evict_expired (now_evict (env i)) (inner s)"
  have inv: "hm_inv ?m" and "dom (hm_get (inner s)) \<subseteq> ts"
    using s by (simp_all add: holds_only_def)
  moreover have "dom (hm_get ?m) \<subseteq> dom (hm_get (inner s))"
    using s by (intro evict_subset) (simp add: holds_only_def)
  ultimately have dom: "dom (hm_get ?m) \<subseteq> {t}"
    using assms(2) by simp
  have "hm_len ?m \<le> 1"
    using card_mono [OF _ dom] by (simp add: hm_len_card [OF inv])
  moreover obtain x where "add_duration (env i) (now_bind (env i)) (duration_minutes 15) = Some x"
    using assms(1) by (auto simp: bench_env_def)
  ultimately have "bind_state (env i) t j s =
      (Ret (Inr ()), s\<lparr>inner := hm_insert t \<lparr>session_id = j, expires_at = x\<rparr> ?m\<rparr>)"
    using s by (simp add: bind_state_def holds_only_def DEFAULT_MAX_ENTRIES_def Let_def)
  moreover have "holds_only {t} (s\<lparr>inner := hm_insert t \<lparr>session_id = j, expires_at = x\<rparr> ?m\<rparr>)"
    using s inv dom by (auto simp: holds_only_def hm_simps)
  ultimately show "\<exists>s'. t_bind_state (env i) t j s = (Ret (), s') \<and> holds_only {t} s'"
    by (auto simp: t_bind_state_def t_unwrap_Inr)
qed

lemma returns_verify: "returns (holds_only ts) (t_verify e t j) (holds_only ts)"
  unfolding returns_def
proof (intro allI impI)
  fix s
  assume s: "holds_only ts s"
  obtain b s' where v: "verify_state e t j s = (Ret (Inr b), s')"
    and s': "s' = s\<lparr>inner := evict_expired (now_evict e) (inner s)\<rparr>"
    using s by (auto simp: verify_state_def holds_only_def Let_def)
  have "holds_only ts s'"
    using s evict_subset [of "inner s" "now_evict e"] by (auto simp: s' holds_only_def)
  moreover have "t_verify e t j s = (Ret (), s')"
    by (simp add: t_verify_def t_unwrap_def t_bind_def v t_return_run)
  ultimately show "\<exists>s'. t_verify e t j s = (Ret (), s') \<and> holds_only ts s'"
    by blast
qed

lemma returns_revoke:
  "ts - {t} \<subseteq> us \<Longrightarrow> returns (holds_only ts) (t_unwrap (revoke_state t)) (holds_only us)"
  unfolding returns_def
  by (auto simp: t_unwrap_def t_bind_def t_return_run revoke_state_def holds_only_def hm_simps)

lemma returns_new:
  "returns (holds_only ts) m J \<Longrightarrow> \<exists>s. m store_new = (Ret (), s) \<and> J s"
  using holds_only_mono [OF holds_only_new, of ts] by (simp add: returns_def)

lemma verify_bound_returns:
  assumes "bench_env env"
  shows "fst (bench_verify_bound env state n store_new) = Ret ()"
proof -
  have "returns (holds_only {}) (bench_verify_bound env state n) (holds_only {state})"
    unfolding bench_verify_bound_def
    by (intro returns_then [where J = "holds_only {state}"] returns_for returns_verify
        returns_bind [OF assms]) simp
  from returns_new [OF this] show ?thesis
    by auto
qed

section \<open>Property\<close>

text \<open>
  No benchmark panics. For every number of iterations, every token and every clock (readings
  that jump in either direction included), each workload returns from a new store; the workloads
  that revoke what they bind leave the store empty, so that the mixed one can be repeated beyond
  the ceiling of 65536 entries.
\<close>

theorem benchmarks_return:
  assumes "bench_env env"
  shows "fst (bench_bind env state n store_new) = Ret ()
    \<and> fst (bench_verify_bound env state n store_new) = Ret ()
    \<and> bench_verify_lengths (\<lambda>_. env) alphanumeric n = Ret ()
    \<and> fst (bench_verify_missing env n store_new) = Ret ()
    \<and> fst (bench_revoke_existing env n store_new) = Ret ()
    \<and> fst (bench_revoke_missing n store_new) = Ret ()
    \<and> (\<exists>s. bench_cycle env n store_new = (Ret (), s) \<and> store_is_empty s)"
proof (intro conjI)
  note bind = returns_bind [OF assms]
  have "returns (holds_only {state}) (bench_bind env state n) (holds_only {state})"
    unfolding bench_bind_def by (intro returns_for bind) simp
  from returns_new [OF this] show "fst (bench_bind env state n store_new) = Ret ()"
    by auto
  show "fst (bench_verify_bound env state n store_new) = Ret ()"
    by (rule verify_bound_returns [OF assms])
  show "bench_verify_lengths (\<lambda>_. env) alphanumeric n = Ret ()"
    by (simp add: bench_verify_lengths_def verify_bound_returns [OF assms])
  have "returns (holds_only {}) (bench_verify_missing env n) (holds_only {})"
    unfolding bench_verify_missing_def by (intro returns_for returns_verify)
  from returns_new [OF this] show "fst (bench_verify_missing env n store_new) = Ret ()"
    by auto
  let ?k = "''bench-revoke''"
  have "returns (holds_only {}) (bench_revoke_existing env n) (holds_only {?k})"
    unfolding bench_revoke_existing_def
    by (intro returns_then [where J = "holds_only {?k}"] returns_for returns_revoke bind) simp_all
  from returns_new [OF this] show "fst (bench_revoke_existing env n store_new) = Ret ()"
    by auto
  have "returns (holds_only {}) (bench_revoke_missing n) (holds_only {})"
    unfolding bench_revoke_missing_def by (intro returns_for returns_revoke) simp
  from returns_new [OF this] show "fst (bench_revoke_missing n store_new) = Ret ()"
    by auto
  have "returns (holds_only {}) (t_then (t_bind_state (env j) t ''session'')
      (t_then (t_verify (env k) t ''session'') (t_unwrap (revoke_state t)))) (holds_only {})" for j k t
    by (intro returns_then [where J = "holds_only {t}"] returns_verify returns_revoke bind) simp_all
  then have "returns (holds_only {}) (bench_cycle env n) (holds_only {})"
    unfolding bench_cycle_def Let_def by (rule returns_for)
  from returns_new [OF this]
  show "\<exists>s. bench_cycle env n store_new = (Ret (), s) \<and> store_is_empty s"
    by (auto simp: holds_only_def store_is_empty_def store_len_def hm_len_card)
qed

theorem benchmarks_return_witness:
  "fst (bench_bind (\<lambda>i. sample_env (if even i then 5 else 0)) ''k'' 100000 store_new) = Ret ()"
proof -
  have "bench_env (\<lambda>i. sample_env (if even i then 5 else 0))"
    by (simp add: bench_env_def sample_env_def duration_minutes_def)
  from benchmarks_return [OF this] show ?thesis
    by blast
qed

end
