(* ===== verification/Totp_Tests.thy ===== *)
theory Totp_Tests
  imports Test_Harness Totp
begin

text \<open>
  The unit tests of \<open>src/totp.rs\<close>. Most of them pass whatever the crates are that behave as
  documented; two fail with every HMAC, and of the RFC 6238 vectors two contradict each other.

  Left out is \<open>verify_with_window_rejects_far_drift\<close>: it passes \<open>-1\<close> for a \<open>u64\<close>, which is not a
  program (and keeps the whole test module from compiling).
\<close>

section \<open>The tests\<close>

definition RFC6238_SECRET :: "u8 list" where
  "RFC6238_SECRET = as_bytes ''12345678901234567890''"

text \<open>\<open>try_into().unwrap()\<close> to an array of 20 bytes.\<close>

definition try_into_20 :: "u8 list \<Rightarrow> u8 list outcome" where
  "try_into_20 b = (if length b = 20 then Ret b else Panic)"

definition rfc6238_test_vector_t0 :: "totp_crates \<Rightarrow> bool \<Rightarrow> unit outcome" where
  "rfc6238_test_vector_t0 x debug =
     and_then (hotp x debug RFC6238_SECRET 1 8 Sha1) (\<lambda>code. assert_all [code = ''94287082''])"

definition rfc6238_test_vector_t30 :: "totp_crates \<Rightarrow> bool \<Rightarrow> unit outcome" where
  "rfc6238_test_vector_t30 x debug =
     and_then (hotp x debug RFC6238_SECRET 1 8 Sha1) (\<lambda>code. assert_all [code = ''46119246''])"

definition rfc6238_test_vector_t59 :: "totp_crates \<Rightarrow> bool \<Rightarrow> unit outcome" where
  "rfc6238_test_vector_t59 x debug =
     and_then (try_into_20 RFC6238_SECRET) (\<lambda>b.
       and_then (secret_at x debug (secret_from_bytes b) 59 30 8) (\<lambda>code.
         assert_all [code = ''94287082'']))"

definition secret_roundtrip_base32 ::
  "totp_crates \<Rightarrow> (string \<Rightarrow> string) \<Rightarrow> (u8 list \<Rightarrow> u8 list) \<Rightarrow> unit outcome" where
  "secret_roundtrip_base32 x up fill =
     (let secret = secret_generate fill; s = to_base32 x secret
      in case from_base32 x up s of Inl _ \<Rightarrow> Panic | Inr recovered \<Rightarrow> assert_all [secret = recovered])"

definition secret_roundtrip_base64 ::
  "totp_crates \<Rightarrow> (string \<Rightarrow> u8 list option) \<Rightarrow> (u8 list \<Rightarrow> u8 list) \<Rightarrow> unit outcome" where
  "secret_roundtrip_base64 x base64_decode fill =
     (let secret = secret_generate fill; s = to_base64 x secret
      in and_then (unwrap_some (base64_decode s)) (\<lambda>bytes.
         and_then (try_into_20 bytes) (\<lambda>b. assert_all [secret = secret_from_bytes b])))"

definition to_lowercase :: "(string \<Rightarrow> string) \<Rightarrow> string \<Rightarrow> string" where
  "to_lowercase lo s = (if list_all (\<lambda>c. (of_char c :: nat) < 0x80) s then map ascii_lower s else lo s)"

definition secret_from_base32_lowercase ::
  "totp_crates \<Rightarrow> (string \<Rightarrow> string) \<Rightarrow> (string \<Rightarrow> string) \<Rightarrow> (u8 list \<Rightarrow> u8 list) \<Rightarrow> unit outcome" where
  "secret_from_base32_lowercase x up lo fill =
     (let s = secret_generate fill; upper = to_base32 x s; lower = to_lowercase lo upper
      in case from_base32 x up upper of
           Inl _ \<Rightarrow> Panic
         | Inr a \<Rightarrow> and_then (assert_all [a = s]) (\<lambda>_.
             case from_base32 x up lower of Inl _ \<Rightarrow> Panic | Inr b \<Rightarrow> assert_all [b = s]))"

definition secret_from_base32_empty :: "totp_crates \<Rightarrow> (string \<Rightarrow> string) \<Rightarrow> unit outcome" where
  "secret_from_base32_empty x up =
     (case from_base32 x up [] of
        Inr _ \<Rightarrow> Panic | Inl e \<Rightarrow> assert_all [e = InvalidSecret ''empty base32 secret''])"

definition secret_from_base32_wrong_length :: "totp_crates \<Rightarrow> (string \<Rightarrow> string) \<Rightarrow> unit outcome" where
  "secret_from_base32_wrong_length x up =
     (let short_b32 = base32_encode x (replicate 10 0)
      in assert_all [from_base32 x up short_b32 = Inl (InvalidSecret ''secret must be 160 bits'')])"

definition verify_accepts_current_code :: "totp_crates \<Rightarrow> bool \<Rightarrow> unit outcome" where
  "verify_accepts_current_code x debug =
     and_then (try_into_20 RFC6238_SECRET) (\<lambda>b.
       let secret = secret_from_bytes b; now = 59
       in and_then (secret_at x debug secret now 30 8) (\<lambda>code.
          and_then (verify x debug secret code now 30) (\<lambda>r. assert_all [r])))"

definition verify_rejects_wrong_code :: "totp_crates \<Rightarrow> bool \<Rightarrow> unit outcome" where
  "verify_rejects_wrong_code x debug =
     and_then (try_into_20 RFC6238_SECRET) (\<lambda>b.
       and_then (verify x debug (secret_from_bytes b) ''00000000'' 59 30) (\<lambda>r. assert_all [\<not> r]))"

definition verify_with_window_accepts_drift :: "totp_crates \<Rightarrow> bool \<Rightarrow> unit outcome" where
  "verify_with_window_accepts_drift x debug =
     and_then (try_into_20 RFC6238_SECRET) (\<lambda>b.
       let secret = secret_from_bytes b
       in and_then (secret_at x debug secret 59 30 8) (\<lambda>code.
          and_then (verify_with_window x debug secret code 30 30 1) (\<lambda>r.
          and_then (assert_all [r]) (\<lambda>_.
          and_then (verify_with_window x debug secret code 89 30 1) (\<lambda>r. assert_all [r])))))"

definition seconds_remaining_returns_correct_window :: "unit outcome" where
  "seconds_remaining_returns_correct_window =
     and_then (seconds_remaining 0 30) (\<lambda>a. and_then (assert_all [a = 30]) (\<lambda>_.
     and_then (seconds_remaining 29 30) (\<lambda>b. and_then (assert_all [b = 1]) (\<lambda>_.
     and_then (seconds_remaining 30 30) (\<lambda>c. and_then (assert_all [c = 30]) (\<lambda>_.
     and_then (seconds_remaining 45 30) (\<lambda>d. assert_all [d = 15])))))))"

definition starts_with :: "string \<Rightarrow> string \<Rightarrow> bool" where
  "starts_with s p \<longleftrightarrow> take (length p) s = p"

definition enrollment_uri_format :: "totp_crates \<Rightarrow> unit outcome" where
  "enrollment_uri_format x =
     (let secret = secret_from_bytes (replicate 20 0x42);
          uri = enrollment_uri x secret ''alice@example.com'' ''AuthKit'' 30 6
      in assert_all [starts_with uri ''otpauth://totp/AuthKit:alice%40example.com'',
           contains uri ''secret='', contains uri ''period=30'', contains uri ''digits=6'',
           contains uri ''algorithm=SHA1'', contains uri ''issuer=AuthKit''])"

definition hotp_truncation_constant_time_eq :: "unit outcome" where
  "hotp_truncation_constant_time_eq = assert_all
     [\<not> constant_time_eq (as_bytes ''123456'') (as_bytes ''123457''),
      \<not> constant_time_eq (as_bytes ''12345'') (as_bytes ''123456''),
      constant_time_eq (as_bytes []) (as_bytes [])]"

definition algorithm_str_roundtrip :: "unit outcome" where
  "algorithm_str_roundtrip = assert_all
     [algorithm_as_str Sha1 = ''SHA1'', algorithm_as_str Sha256 = ''SHA256'',
      algorithm_as_str Sha512 = ''SHA512'', algorithm_display Sha1 = ''SHA1'']"

section \<open>Secrets\<close>

lemma rfc_secret_20 [simp]: "try_into_20 RFC6238_SECRET = Ret RFC6238_SECRET"
  by (simp add: try_into_20_def RFC6238_SECRET_def)

lemma generated_ok: "(\<And>b. length (fill b) = length b) \<Longrightarrow> secret_ok (secret_generate fill)"
  by (simp add: secret_ok_def secret_generate_def)

lemma base32_lowercase:
  "base32_ok x \<Longrightarrow> to_lowercase lo (base32_encode x b) = map ascii_lower (base32_encode x b)"
  using base32_text(1) [of x b] by (auto simp: to_lowercase_def list_all_iff base32_char_def)

lemma base32_tests_run:
  assumes "base32_ok x" and "\<And>b. length (fill b) = length b"
  shows "secret_roundtrip_base32 x up fill = Ret ()"
    "secret_from_base32_lowercase x up lo fill = Ret ()" "secret_from_base32_empty x up = Ret ()"
    "secret_from_base32_wrong_length x up = Ret ()"
proof -
  let ?s = "secret_generate fill"
  note b32 = base32_text [OF assms(1)] base32_lowercase [OF assms(1)]
  have "from_base32 x up (to_base32 x ?s) = Inr ?s"
    "from_base32 x up (to_lowercase lo (to_base32 x ?s)) = Inr ?s"
    by (rule from_base32_text [OF assms(1) generated_ok [OF assms(2)]];
        simp add: to_base32_def b32 to_uppercase_lower)+
  then show "secret_roundtrip_base32 x up fill = Ret ()"
    "secret_from_base32_lowercase x up lo fill = Ret ()"
    by (simp_all add: secret_roundtrip_base32_def secret_from_base32_lowercase_def assert_all_def Let_def)
  show "secret_from_base32_empty x up = Ret ()"
    using trim_id [of "[]"] by (simp add: secret_from_base32_empty_def from_base32_def assert_all_def)
  have "from_base32 x up (base32_encode x (replicate 10 0)) = Inl (InvalidSecret ''secret must be 160 bits'')"
    using assms(1) b32(1) [of "replicate 10 0"]
    by (simp add: from_base32_def b32 base32_no_space base32_ok_def or_else_def)
  then show "secret_from_base32_wrong_length x up = Ret ()"
    by (simp add: secret_from_base32_wrong_length_def assert_all_def)
qed

lemma base64_test_run:
  assumes "\<And>b. base64_decode (base64_encode x b) = Some b" and "\<And>b. length (fill b) = length b"
  shows "secret_roundtrip_base64 x base64_decode fill = Ret ()"
  by (simp add: secret_roundtrip_base64_def to_base64_def assms unwrap_some_def try_into_20_def
      secret_generate_def secret_from_bytes_def assert_all_def)

section \<open>Codes\<close>

lemma eight_digit_code:
  assumes "mac_ok x"
  obtains code where "hotp x debug k c 8 Sha1 = Ret code" and "length code = 8"
  using hotp_digits [OF assms, of 8 debug k c Sha1] by auto

lemma eight_digits_rejected:
  assumes "mac_ok x" and "length cand = 8" and "period \<noteq> 0"
  shows "verify_with_window x debug s cand t period w = Ret False"
  using hotp6.verify_loop_length [of "(x, debug, secret_bytes s)" cand "t div period"] assms
  by (simp add: verify_with_window_def u64_div_eq)

lemma code_tests_run:
  assumes "mac_ok x"
  shows "verify_accepts_current_code x debug = Panic" "verify_with_window_accepts_drift x debug = Panic"
    "verify_rejects_wrong_code x debug = Ret ()"
proof -
  obtain code where code: "hotp x debug RFC6238_SECRET 1 8 Sha1 = Ret code" "length code = 8"
    by (rule eight_digit_code [OF assms])
  then have "secret_at x debug (secret_from_bytes RFC6238_SECRET) 59 30 8 = Ret code"
    by (simp add: secret_at_def u64_div_def secret_from_bytes_def)
  then show "verify_accepts_current_code x debug = Panic" "verify_with_window_accepts_drift x debug = Panic"
    using eight_digits_rejected [OF assms code(2)]
    by (simp_all add: verify_accepts_current_code_def verify_with_window_accepts_drift_def Let_def
        verify_def assert_all_def)
  show "verify_rejects_wrong_code x debug = Ret ()"
    using eight_digits_rejected [OF assms, of "''00000000''"]
    by (simp add: verify_rejects_wrong_code_def verify_def assert_all_def)
qed

lemma countdown_test_run: "seconds_remaining_returns_correct_window = Ret ()"
  by (simp add: seconds_remaining_returns_correct_window_def seconds_remaining_def u64_rem_def assert_all_def)

lemma plain_tests_run:
  "hotp_truncation_constant_time_eq = Ret ()" "algorithm_str_roundtrip = Ret ()"
  by (simp_all add: hotp_truncation_constant_time_eq_def constant_time_eq_correct assert_all_def
      algorithm_str_roundtrip_def algorithm_display_def)

lemma enrollment_test_run: "enrollment_uri_format x = Ret ()"
proof -
  let ?u = "enrollment_uri x (secret_from_bytes (replicate 20 0x42)) ''alice@example.com'' ''AuthKit'' 30 6"
  have enc: "urlencoding ''alice@example.com'' = ''alice%40example.com''" "urlencoding ''AuthKit'' = ''AuthKit''"
    by code_simp+
  have num: "show_nat 30 = ''30''" "show_nat 6 = ''6''"
    by code_simp+
  define b32 where "b32 = to_base32 x (secret_from_bytes (replicate 20 0x42))"
  have u: "?u = ''otpauth://totp/AuthKit:alice%40example.com?secret='' @ b32
      @ ''&issuer=AuthKit&period=30&digits=6&algorithm=SHA1''"
    by (simp add: enrollment_uri_def enc num b32_def)
  have "contains (a @ n @ c) n" for a n c
    by (rule contains_later)
  note this [of "''otpauth://totp/AuthKit:alice%40example.com?''" "''secret=''"
      "b32 @ ''&issuer=AuthKit&period=30&digits=6&algorithm=SHA1''"]
    this [of "''otpauth://totp/AuthKit:alice%40example.com?secret='' @ b32 @ ''&issuer=AuthKit&''" "''period=30''"
      "''&digits=6&algorithm=SHA1''"]
    this [of "''otpauth://totp/AuthKit:alice%40example.com?secret='' @ b32 @ ''&issuer=AuthKit&period=30&''"
      "''digits=6''" "''&algorithm=SHA1''"]
    this [of "''otpauth://totp/AuthKit:alice%40example.com?secret='' @ b32
      @ ''&issuer=AuthKit&period=30&digits=6&''" "''algorithm=SHA1''" "[]"]
    this [of "''otpauth://totp/AuthKit:alice%40example.com?secret='' @ b32 @ ''&''" "''issuer=AuthKit''"
      "''&period=30&digits=6&algorithm=SHA1''"]
  then show ?thesis
    unfolding enrollment_uri_format_def Let_def u starts_with_def
    by (simp add: assert_all_def)
qed

section \<open>Properties\<close>

text \<open>
  Ten of the unit tests of TOTP pass, whatever the crates are that behave as documented,
  whatever bytes the generator fills in and whatever the case tables for characters that are not
  ASCII: the round trips over Base32 and Base64, the two rejections of \<open>from_base32\<close>, the
  rejection of a wrong code, the countdown, the enrollment URI, the comparison and the algorithm
  names.
\<close>

theorem totp_tests_pass:
  assumes "mac_ok x" and "base32_ok x" and "\<And>b. base64_decode (base64_encode x b) = Some b"
    and "\<And>b. length (fill b) = length b"
  shows "secret_roundtrip_base32 x up fill = Ret () \<and> secret_roundtrip_base64 x base64_decode fill = Ret ()
    \<and> secret_from_base32_lowercase x up lo fill = Ret () \<and> secret_from_base32_empty x up = Ret ()
    \<and> secret_from_base32_wrong_length x up = Ret () \<and> verify_rejects_wrong_code x debug = Ret ()
    \<and> seconds_remaining_returns_correct_window = Ret () \<and> enrollment_uri_format x = Ret ()
    \<and> hotp_truncation_constant_time_eq = Ret () \<and> algorithm_str_roundtrip = Ret ()"
  using base32_tests_run [OF assms(2,4)] base64_test_run [of base64_decode x fill, OF assms(3,4)]
    code_tests_run(3) [OF assms(1)] countdown_test_run enrollment_test_run plain_tests_run
  by blast

text \<open>The witness: the sample crates with Base64 replaced by one letter per byte.\<close>

definition sample_crates64 :: totp_crates where
  "sample_crates64 = sample_crates\<lparr>base64_encode := \<lambda>b. map (\<lambda>w. char_of (unat w)) b\<rparr>"

theorem totp_tests_pass_witness:
  "secret_roundtrip_base64 sample_crates64 (\<lambda>s. Some (as_bytes s)) (\<lambda>b. b) = Ret ()
   \<and> verify_rejects_wrong_code sample_crates64 True = Ret ()"
proof -
  have "mac_ok sample_crates64" "base32_ok sample_crates64"
    using sample_crates_ok by (simp_all add: sample_crates64_def mac_ok_def base32_ok_def)
  moreover have "Some (as_bytes (base64_encode sample_crates64 b)) = Some b" for b
    by (simp add: sample_crates64_def as_bytes_def o_def)
  ultimately show ?thesis
    using totp_tests_pass [of sample_crates64 "\<lambda>s. Some (as_bytes s)" "\<lambda>b. b"] by blast
qed

text \<open>
  The other tests contradict the code or one another. \<open>verify_accepts_current_code\<close> and
  \<open>verify_with_window_accepts_drift\<close> present an eight-digit code to a verification that compares with six
  digits: they fail for every HMAC of the right output length. The first and the second RFC 6238
  vector expect different codes of the same call, so at most one passes; the third passes exactly
  when the first does.
\<close>

theorem totp_tests_fail:
  assumes "mac_ok x"
  shows "verify_accepts_current_code x debug = Panic \<and> verify_with_window_accepts_drift x debug = Panic
    \<and> (rfc6238_test_vector_t0 x debug = Panic \<or> rfc6238_test_vector_t30 x debug = Panic)
    \<and> rfc6238_test_vector_t59 x debug = rfc6238_test_vector_t0 x debug"
proof -
  obtain code where "hotp x debug RFC6238_SECRET 1 8 Sha1 = Ret code"
    by (rule eight_digit_code [OF assms])
  then show ?thesis
    using code_tests_run(1,2) [OF assms]
    by (simp add: rfc6238_test_vector_t0_def rfc6238_test_vector_t30_def rfc6238_test_vector_t59_def
        secret_at_def u64_div_def secret_from_bytes_def assert_all_def)
qed

theorem totp_tests_fail_witness:
  "verify_accepts_current_code sample_crates True = Panic
   \<and> rfc6238_test_vector_t59 sample_crates True = rfc6238_test_vector_t0 sample_crates True"
  using totp_tests_fail [OF sample_crates_ok(1)] by blast

end
