(* ===== verification/Webauthn_Tests.thy ===== *)
theory Webauthn_Tests
  imports Session_Store_Tests Webauthn_Json Webauthn_Challenges
begin

text \<open>
  The unit tests of \<open>src/webauthn.rs\<close>, call by call, over a store of the shape the file calls: the
  environment \<open>w\<close> holds its methods, \<open>st\<close> is the store the fixture makes. \<open>rnd i\<close> are the bytes of the
  \<open>i\<close>-th call of \<open>rand_bytes\<close>, \<open>now\<close> the formatted time. All tests pass when the store keeps a challenge
  until it is verified and then consumes it.
\<close>

section \<open>Helpers\<close>

type_synonym ('a, 's) verifier_test = "('a, 's verifier) test"

definition t_call :: "('s \<Rightarrow> 'a \<times> 's) \<Rightarrow> ('a, 's) test" where
  "t_call f s = (Ret (fst (f s)), snd (f s))"

definition t_outcome :: "'a outcome \<Rightarrow> ('a, 's) test" where
  "t_outcome r s = (r, s)"

definition fixture_config :: webauthn_config where
  "fixture_config = config_new ''auth.example.com'' [''https://app.example.com'']"

definition fixture :: "'s \<Rightarrow> 's verifier" where
  "fixture st = verifier_new st"

definition fake_auth_data :: "('e, 's, 'r) webauthn_env \<Rightarrow> string \<Rightarrow> authenticator_data" where
  "fake_auth_data w rp = \<lparr>rp_id_hash = sha256 w (as_bytes rp),
     flags = \<lparr>up = True, uv = True, be = False, bs = False, at = False, ed = False\<rparr>, sign_count = 1\<rparr>"

text \<open>\<open>json!\<close> keeps the keys sorted.\<close>

definition client_json :: "string \<Rightarrow> string \<Rightarrow> string \<Rightarrow> json" where
  "client_json t chal orig = JObj
     [(''challenge'', JStr chal), (''crossOrigin'', JBool False), (''origin'', JStr orig), (''type'', JStr t)]"

definition client_data :: "string \<Rightarrow> string \<Rightarrow> string \<Rightarrow> string" where
  "client_data t chal orig = json_text (client_json t chal orig)"

text \<open>The calls of the tests, all for the user \<open>alice\<close>.\<close>

definition t_challenge ::
  "('e, 's, 'r) webauthn_env \<Rightarrow> u8 list \<Rightarrow> string \<Rightarrow> (string, 's) verifier_test" where
  "t_challenge w bytes operation =
     t_unwrap (generate_challenge w fixture_config (Some bytes) ''alice'' operation)"

definition t_register ::
  "('e, 's, 'r) webauthn_env \<Rightarrow> string \<Rightarrow> string \<Rightarrow> authenticator_data \<Rightarrow> string
     \<Rightarrow> string \<Rightarrow> string \<Rightarrow> ('e webauthn_error + webauthn_credential, 's) verifier_test" where
  "t_register w now chal ad cd cid pk = t_call
     (verify_registration w fixture_config now ''alice'' chal ad cd (as_bytes cid) (as_bytes pk))"

definition t_authenticate ::
  "('e, 's, 'r) webauthn_env \<Rightarrow> string \<Rightarrow> authenticator_data \<Rightarrow> string
     \<Rightarrow> string \<Rightarrow> ('e webauthn_error + unit, 's) verifier_test" where
  "t_authenticate w chal ad cd cid =
     t_call (verify_authentication w fixture_config ''alice'' chal ad cd (as_bytes cid))"

section \<open>The tests\<close>

definition generate_challenge_returns_32_byte_url_safe_b64 ::
  "('e, 's, 'r) webauthn_env \<Rightarrow> (string \<Rightarrow> u8 list option) \<Rightarrow> 's \<Rightarrow> (nat \<Rightarrow> u8 list)
     \<Rightarrow> unit outcome" where
  "generate_challenge_returns_32_byte_url_safe_b64 w b64url_decode st rnd = run_test
     (t_bind (t_challenge w (rnd 0) ''create'') (\<lambda>c.
      t_bind (t_outcome (unwrap_some (b64url_decode c))) (\<lambda>bytes. t_assert (length bytes = 32)))) (fixture st)"

definition verify_registration_happy_path ::
  "('e, 's, 'r) webauthn_env \<Rightarrow> 's \<Rightarrow> (nat \<Rightarrow> u8 list) \<Rightarrow> string \<Rightarrow> unit outcome" where
  "verify_registration_happy_path w st rnd now = run_test
     (t_bind (t_challenge w (rnd 0) ''create'') (\<lambda>chal.
      t_bind (t_unwrap (t_register w now chal (fake_auth_data w ''auth.example.com'')
        (client_data ''webauthn.create'' chal ''https://app.example.com'') ''cred-id'' ''public-key'')) (\<lambda>cred.
      t_then (t_assert (cred_sign_count cred = 1))
        (t_bind (t_get (list_credentials ''alice'')) (\<lambda>cs. t_assert (length cs = 1)))))) (fixture st)"

definition registration_error ::
  "('e, 's, 'r) webauthn_env \<Rightarrow> 's \<Rightarrow> (nat \<Rightarrow> u8 list) \<Rightarrow> string \<Rightarrow> authenticator_data
     \<Rightarrow> string \<Rightarrow> ('e webauthn_error \<Rightarrow> bool) \<Rightarrow> unit outcome" where
  "registration_error w st rnd now ad orig expected = run_test
     (t_bind (t_challenge w (rnd 0) ''create'') (\<lambda>chal.
      t_bind (t_unwrap_err (t_register w now chal ad (client_data ''webauthn.create'' chal orig)
        ''cred-id'' ''public-key'')) (\<lambda>err. t_assert (expected err)))) (fixture st)"

definition verify_registration_rp_id_mismatch_rejected ::
  "('e, 's, 'r) webauthn_env \<Rightarrow> 's \<Rightarrow> (nat \<Rightarrow> u8 list) \<Rightarrow> string \<Rightarrow> unit outcome" where
  "verify_registration_rp_id_mismatch_rejected w st rnd now =
     registration_error w st rnd now (fake_auth_data w ''evil.example.com'') ''https://app.example.com''
       (\<lambda>err. case err of RpIdHashMismatch _ _ \<Rightarrow> True | _ \<Rightarrow> False)"

definition verify_registration_no_user_presence_rejected ::
  "('e, 's, 'r) webauthn_env \<Rightarrow> 's \<Rightarrow> (nat \<Rightarrow> u8 list) \<Rightarrow> string \<Rightarrow> unit outcome" where
  "verify_registration_no_user_presence_rejected w st rnd now =
     (let auth = fake_auth_data w ''auth.example.com''; auth = auth\<lparr>flags := (flags auth)\<lparr>up := False\<rparr>\<rparr>
      in registration_error w st rnd now auth ''https://app.example.com'' (\<lambda>err. err = UserPresenceNotSet))"

definition verify_registration_origin_not_allowed ::
  "('e, 's, 'r) webauthn_env \<Rightarrow> 's \<Rightarrow> (nat \<Rightarrow> u8 list) \<Rightarrow> string \<Rightarrow> unit outcome" where
  "verify_registration_origin_not_allowed w st rnd now =
     registration_error w st rnd now (fake_auth_data w ''auth.example.com'') ''https://evil.example.com''
       (\<lambda>err. err = ChallengeNotFound)"

definition verify_registration_challenge_replay_rejected ::
  "('e, 's, 'r) webauthn_env \<Rightarrow> 's \<Rightarrow> (nat \<Rightarrow> u8 list) \<Rightarrow> string \<Rightarrow> unit outcome" where
  "verify_registration_challenge_replay_rejected w st rnd now =
     (let auth = fake_auth_data w ''auth.example.com'' in run_test
     (t_bind (t_challenge w (rnd 0) ''create'') (\<lambda>chal.
      t_bind (t_unwrap (t_register w now chal auth
        (client_data ''webauthn.create'' chal ''https://app.example.com'') ''cred-id'' ''public-key'')) (\<lambda>_.
      t_bind (t_unwrap_err (t_register w now chal (auth\<lparr>sign_count := 2\<rparr>)
        (client_data ''webauthn.create'' chal ''https://app.example.com'') ''cred-id-2'' ''public-key-2'')) (\<lambda>err.
      t_assert (case err of SessionStoreErr _ \<Rightarrow> True | _ \<Rightarrow> False))))) (fixture st))"

definition registered_then ::
  "('e, 's, 'r) webauthn_env \<Rightarrow> (nat \<Rightarrow> u8 list) \<Rightarrow> string
     \<Rightarrow> (unit, 's) verifier_test \<Rightarrow> (unit, 's) verifier_test" where
  "registered_then w rnd now k =
     t_bind (t_challenge w (rnd 0) ''create'') (\<lambda>c1.
     t_bind (t_unwrap (t_register w now c1 (fake_auth_data w ''auth.example.com'')
       (client_data ''webauthn.create'' c1 ''https://app.example.com'') ''cred-id'' ''public-key'')) (\<lambda>_. k))"

text \<open>A fresh challenge, the \<open>j\<close>-th, and an assertion with counter 5.\<close>

definition assertion_5 ::
  "('e, 's, 'r) webauthn_env \<Rightarrow> (nat \<Rightarrow> u8 list) \<Rightarrow> nat \<Rightarrow> ('e webauthn_error + unit, 's) verifier_test" where
  "assertion_5 w rnd j =
     t_bind (t_challenge w (rnd j) ''get'') (\<lambda>c.
       t_authenticate w c ((fake_auth_data w ''auth.example.com'')\<lparr>sign_count := 5\<rparr>)
         (client_data ''webauthn.get'' c ''https://app.example.com'') ''cred-id'')"

definition verify_authentication_happy_path_increments_sign_count ::
  "('e, 's, 'r) webauthn_env \<Rightarrow> 's \<Rightarrow> (nat \<Rightarrow> u8 list) \<Rightarrow> string \<Rightarrow> unit outcome" where
  "verify_authentication_happy_path_increments_sign_count w st rnd now = run_test
     (registered_then w rnd now
       (t_then (t_unwrap (assertion_5 w rnd 1))
         (t_bind (t_get (list_credentials ''alice'')) (\<lambda>creds.
          t_bind (t_outcome (index_at creds 0)) (\<lambda>c. t_assert (cred_sign_count c = 5)))))) (fixture st)"

definition verify_authentication_replay_rejected_by_sign_count ::
  "('e, 's, 'r) webauthn_env \<Rightarrow> 's \<Rightarrow> (nat \<Rightarrow> u8 list) \<Rightarrow> string \<Rightarrow> unit outcome" where
  "verify_authentication_replay_rejected_by_sign_count w st rnd now = run_test
     (registered_then w rnd now
       (t_then (t_unwrap (assertion_5 w rnd 1))
         (t_bind (t_unwrap_err (assertion_5 w rnd 2)) (\<lambda>err. t_assert (err = CredentialNotFound)))))
     (fixture st)"

definition flags_byte_roundtrip :: "unit outcome" where
  "flags_byte_roundtrip =
     (let f = \<lparr>up = True, uv = True, be = False, bs = True, at = True, ed = False\<rparr>;
          byte = flags_to_byte f
      in assert_all [byte = 0x01 OR 0x04 OR 0x10 OR 0x40, flags_from_byte byte = f])"

definition auth_data_parse_too_short :: "unit outcome" where
  "auth_data_parse_too_short =
     assert_all [isl (parse_authenticator_data (replicate 10 0) :: unit webauthn_error + authenticator_data)]"

section \<open>The store\<close>

text \<open>
  A store that works for the verifier: it takes every challenge, answers \<open>Ok\<close> for the one that is
  pending under a key and consumes it, and an error for every other.
\<close>

definition keeps_challenges :: "('s \<Rightarrow> string \<Rightarrow> string option) \<Rightarrow> ('e, 's, 'r) webauthn_env \<Rightarrow> bool" where
  "keeps_challenges pending w \<longleftrightarrow>
     (\<forall>k c kind secs st. fst (challenge_bind w k c kind secs st) = Ret (Inr ())
        \<and> pending (snd (challenge_bind w k c kind secs st)) = (pending st)(k \<mapsto> c))
     \<and> (\<forall>k c kind st. isl (fst (challenge_verify w k c kind st)) = (pending st k \<noteq> Some c)
        \<and> (pending st k = Some c \<longrightarrow>
            pending (snd (challenge_verify w k c kind st)) = (pending st)(k := None)))"

definition after_bind :: "('e, 's, 'r) webauthn_env \<Rightarrow> string \<Rightarrow> string \<Rightarrow> 's \<Rightarrow> 's" where
  "after_bind w k c st =
     snd (challenge_bind w k c ''webauthn-challenge'' (challenge_ttl_secs fixture_config) st)"

definition after_verify :: "('e, 's, 'r) webauthn_env \<Rightarrow> string \<Rightarrow> string \<Rightarrow> 's \<Rightarrow> 's" where
  "after_verify w k c st = snd (challenge_verify w k c ''webauthn-challenge'' st)"

lemma keeps_bind:
  assumes "keeps_challenges pending w"
  shows "challenge_bind w k c ''webauthn-challenge'' (challenge_ttl_secs fixture_config) st =
      (Ret (Inr ()), after_bind w k c st)"
    and "pending (after_bind w k c st) = (pending st)(k \<mapsto> c)"
  using assms by (simp_all add: keeps_challenges_def after_bind_def prod_eq_iff)

lemma keeps_verify:
  assumes "keeps_challenges pending w"
  shows "pending st k = Some c \<Longrightarrow>
      \<exists>r. challenge_verify w k c ''webauthn-challenge'' st = (Inr r, after_verify w k c st)"
    and "pending st k = Some c \<Longrightarrow> pending (after_verify w k c st) = (pending st)(k := None)"
    and "pending st k \<noteq> Some c \<Longrightarrow>
      \<exists>err. challenge_verify w k c ''webauthn-challenge'' st = (Inl err, after_verify w k c st)"
proof -
  have "isl (fst (challenge_verify w k c ''webauthn-challenge'' st)) = (pending st k \<noteq> Some c)"
    using assms by (simp add: keeps_challenges_def)
  then show "pending st k = Some c \<Longrightarrow>
      \<exists>r. challenge_verify w k c ''webauthn-challenge'' st = (Inr r, after_verify w k c st)"
    and "pending st k \<noteq> Some c \<Longrightarrow>
      \<exists>err. challenge_verify w k c ''webauthn-challenge'' st = (Inl err, after_verify w k c st)"
    by (cases "fst (challenge_verify w k c ''webauthn-challenge'' st)";
        simp add: after_verify_def prod_eq_iff)+
  show "pending st k = Some c \<Longrightarrow> pending (after_verify w k c st) = (pending st)(k := None)"
    using assms by (simp add: keeps_challenges_def after_verify_def)
qed

section \<open>How the calls run\<close>

definition test_verifier :: "'s \<Rightarrow> registry \<Rightarrow> 's verifier" where
  "test_verifier st cr = \<lparr>session_store = st, credentials = cr\<rparr>"

abbreviation alice_key :: "string \<Rightarrow> string" where
  "alice_key operation \<equiv> challenge_key operation ''auth.example.com'' ''alice''"

lemma fixture_test_verifier: "fixture st = test_verifier st []"
  by (simp add: fixture_def verifier_new_def test_verifier_def)

lemma fixture_config_simps [simp]:
  "rp_id fixture_config = ''auth.example.com''"
  "allowed_origins fixture_config = [''https://app.example.com'']"
  by (simp_all add: fixture_config_def config_new_def)

lemma challenge_run:
  assumes "keeps_challenges pending w"
  shows "t_challenge w bytes operation (test_verifier st cr) = (Ret (b64url_encode w bytes),
    test_verifier (after_bind w (alice_key operation) (b64url_encode w bytes) st) cr)"
  unfolding t_challenge_def
  by (intro t_unwrap_Inr)
    (simp add: generate_challenge_def rand_bytes_def Let_def test_verifier_def keeps_bind(1) [OF assms])

text \<open>The reader gives back what the helper \<open>client_data\<close> of the tests wrote.\<close>

definition reads_client_data :: "(string \<Rightarrow> 'e + json) \<Rightarrow> string \<Rightarrow> bool" where
  "reads_client_data reader chal \<longleftrightarrow>
     (\<forall>t \<in> {''webauthn.create'', ''webauthn.get''}.
      \<forall>orig \<in> {''https://app.example.com'', ''https://evil.example.com''}.
        reader (client_data t chal orig) = Inr (client_json t chal orig))"

lemma client_data_of_client_json: "client_data_of_json (client_json t chal orig) =
    Some \<lparr>ty = t, challenge = chal, origin = orig, cross_origin = False, token_binding = None\<rparr>"
  by (simp add: client_data_of_json_def client_json_def required_field_def default_field_def)

lemma client_data_read:
  assumes "reads_client_data reader chal"
    and "t \<in> {''webauthn.create'', ''webauthn.get''}"
    and "orig \<in> {''https://app.example.com'', ''https://evil.example.com''}"
  shows "client_data_from_json (with_json reader mismatch w) (client_data t chal orig) =
    Inr \<lparr>ty = t, challenge = chal, origin = orig, cross_origin = False, token_binding = None\<rparr>"
proof -
  have "reader (client_data t chal orig) = Inr (client_json t chal orig)"
    using assms unfolding reads_client_data_def by blast
  then show ?thesis
    by (simp add: with_json_def client_data_of_client_json)
qed

lemma with_json_fields [simp]:
  "sha256 (with_json reader mismatch w) = sha256 w"
  "b64url_encode (with_json reader mismatch w) = b64url_encode w"
  by (simp_all add: with_json_def)

lemma client_data_ok_app:
  assumes "reads_client_data reader chal" and "t \<in> {''webauthn.create'', ''webauthn.get''}"
  shows "client_data_ok (with_json reader mismatch w) fixture_config t chal
    (client_data t chal ''https://app.example.com'')"
  using client_data_read [OF assms, of "''https://app.example.com''" mismatch w]
  by (simp add: client_data_ok_def)

definition new_credential :: "string \<Rightarrow> string \<Rightarrow> string \<Rightarrow> u32 \<Rightarrow> webauthn_credential" where
  "new_credential now cid pk n = \<lparr>credential_id = as_bytes cid, public_key = as_bytes pk,
     cred_sign_count = n, label = None, created_at = now\<rparr>"

lemma new_credential_fields [simp]:
  "credential_id (new_credential now cid pk n) = as_bytes cid"
  "public_key (new_credential now cid pk n) = as_bytes pk"
  "cred_sign_count (new_credential now cid pk n) = n"
  "(new_credential now cid pk n)\<lparr>cred_sign_count := k\<rparr> = new_credential now cid pk k"
  by (simp_all add: new_credential_def)

lemma register_run:
  assumes "keeps_challenges pending (with_json reader mismatch w)"
    and "pending st (alice_key ''create'') = Some chal"
    and "reads_client_data reader chal" and "\<not> credential_exists (as_bytes cid) cr"
  shows "t_unwrap (t_register (with_json reader mismatch w) now chal
      ((fake_auth_data (with_json reader mismatch w) ''auth.example.com'')\<lparr>sign_count := n\<rparr>)
      (client_data ''webauthn.create'' chal ''https://app.example.com'') cid pk) (test_verifier st cr) =
    (Ret (new_credential now cid pk n),
     test_verifier (after_verify (with_json reader mismatch w) (alice_key ''create'') chal st)
       (add_credential ''alice'' (new_credential now cid pk n) cr))"
proof -
  let ?w = "with_json reader mismatch w"
  have "verify_registration ?w fixture_config now ''alice'' chal
      ((fake_auth_data ?w ''auth.example.com'')\<lparr>sign_count := n\<rparr>)
      (client_data ''webauthn.create'' chal ''https://app.example.com'') (as_bytes cid) (as_bytes pk)
      (test_verifier st cr) =
    (Inr (new_credential now cid pk n),
     test_verifier (after_verify ?w (alice_key ''create'') chal st)
       (add_credential ''alice'' (new_credential now cid pk n) cr))"
    unfolding verify_registration_Inr
    using keeps_verify(1) [OF assms(1), OF assms(2)] client_data_ok_app [OF assms(3), of "''webauthn.create''" mismatch w]
      assms(4)
    by (auto simp: fake_auth_data_def test_verifier_def new_credential_def)
  then show ?thesis
    by (intro t_unwrap_Inr) (simp add: t_register_def t_call_def)
qed

lemma register_refused:
  assumes "keeps_challenges pending (with_json reader mismatch w)"
    and "pending st (alice_key ''create'') \<noteq> Some chal" and "reads_client_data reader chal"
  shows "\<exists>err. t_unwrap_err (t_register (with_json reader mismatch w) now chal
      ((fake_auth_data (with_json reader mismatch w) ''auth.example.com'')\<lparr>sign_count := n\<rparr>)
      (client_data ''webauthn.create'' chal ''https://app.example.com'') cid pk) (test_verifier st cr) =
    (Ret (SessionStoreErr err),
     test_verifier (after_verify (with_json reader mismatch w) (alice_key ''create'') chal st) cr)"
proof -
  let ?w = "with_json reader mismatch w"
  let ?ad = "(fake_auth_data ?w ''auth.example.com'')\<lparr>sign_count := n\<rparr>"
  obtain err where cv: "challenge_verify ?w (alice_key ''create'') chal ''webauthn-challenge'' st =
      (Inl err, after_verify ?w (alice_key ''create'') chal st)"
    using keeps_verify(3) [OF assms(1), OF assms(2)] by blast
  have "client_data_check ?w fixture_config ''webauthn.create'' chal
      (client_data ''webauthn.create'' chal ''https://app.example.com'') = None"
    using client_data_ok_app [OF assms(3), of "''webauthn.create''" mismatch w] by (simp add: client_data_check_None)
  moreover have "rp_id_hash_check ?w fixture_config ?ad = None"
    by (simp add: rp_id_hash_check_None fake_auth_data_def)
  ultimately show ?thesis
    using cv by (intro exI [of _ err] t_unwrap_err_Inl)
      (simp add: t_register_def t_call_def verify_registration_def test_verifier_def fake_auth_data_def)
qed

lemma authenticate_run:
  assumes "keeps_challenges pending (with_json reader mismatch w)"
    and "pending st (alice_key ''get'') = Some chal" and "reads_client_data reader chal"
    and "hm_get cr ''alice'' = Some [c]" and "credential_id c = as_bytes cid" and "public_key c \<noteq> []"
  shows "t_authenticate (with_json reader mismatch w) chal
      ((fake_auth_data (with_json reader mismatch w) ''auth.example.com'')\<lparr>sign_count := n\<rparr>)
      (client_data ''webauthn.get'' chal ''https://app.example.com'') cid (test_verifier st cr) =
    (Ret (if cred_sign_count c < n then Inr () else Inl CredentialNotFound),
     test_verifier (after_verify (with_json reader mismatch w) (alice_key ''get'') chal st)
       (if cred_sign_count c < n then hm_insert ''alice'' [c\<lparr>cred_sign_count := n\<rparr>] cr else cr))"
proof -
  let ?w = "with_json reader mismatch w"
  let ?ad = "(fake_auth_data ?w ''auth.example.com'')\<lparr>sign_count := n\<rparr>"
  have "client_data_check ?w fixture_config ''webauthn.get'' chal
      (client_data ''webauthn.get'' chal ''https://app.example.com'') = None"
    using client_data_ok_app [OF assms(3), of "''webauthn.get''" mismatch w] by (simp add: client_data_check_None)
  moreover have "rp_id_hash_check ?w fixture_config ?ad = None"
    by (simp add: rp_id_hash_check_None fake_auth_data_def)
  moreover obtain b where "challenge_verify ?w (alice_key ''get'') chal ''webauthn-challenge'' st =
      (Inr b, after_verify ?w (alice_key ''get'') chal st)"
    using keeps_verify(1) [OF assms(1), OF assms(2)] by blast
  ultimately show ?thesis
    using assms(4-6)
    by (auto simp: t_authenticate_def t_call_def verify_authentication_def test_verifier_def
        fake_auth_data_def verify_signature_def Let_def not_less)
qed

section \<open>The tests run\<close>

lemma fake_auth_data_count [simp]: "(fake_auth_data w rp)\<lparr>sign_count := 1\<rparr> = fake_auth_data w rp"
  by (simp add: fake_auth_data_def)

lemma registry_eval:
  "\<not> credential_exists cid []" "hm_get (add_credential u c []) u = Some [c]"
  "credential_exists cid (add_credential u c []) \<longleftrightarrow> cid = credential_id c"
  "list_credentials u (test_verifier st cr) = (case hm_get cr u of None \<Rightarrow> [] | Some cs \<Rightarrow> cs)"
  by (auto simp: credential_exists_def add_credential_def hm_insert_def hm_get_def list_credentials_def
      test_verifier_def)

definition webauthn_test_env ::
  "('s \<Rightarrow> string \<Rightarrow> string option) \<Rightarrow> (string \<Rightarrow> 'e + json) \<Rightarrow> ('e, 's, 'r) webauthn_env
     \<Rightarrow> (nat \<Rightarrow> u8 list) \<Rightarrow> bool" where
  "webauthn_test_env pending reader w rnd \<longleftrightarrow> keeps_challenges pending w
     \<and> (\<forall>j. reads_client_data reader (b64url_encode w (rnd j)))"

lemma keeps_with_json: "keeps_challenges pending (with_json reader mismatch w) \<longleftrightarrow> keeps_challenges pending w"
  by (simp add: keeps_challenges_def with_json_def)

lemma webauthn_test_envD:
  assumes "webauthn_test_env pending reader w rnd"
  shows "keeps_challenges pending (with_json reader mismatch w)"
    and "reads_client_data reader (b64url_encode w (rnd j))"
  using assms by (simp_all add: webauthn_test_env_def keeps_with_json)

text \<open>The store after the first challenge, and after the registration with it.\<close>

abbreviation bound_create where
  "bound_create w rnd st \<equiv> after_bind w (alice_key ''create'') (b64url_encode w (rnd (0 :: nat))) st"

abbreviation used_create where
  "used_create w rnd st \<equiv>
     after_verify w (alice_key ''create'') (b64url_encode w (rnd (0 :: nat))) (bound_create w rnd st)"

abbreviation first_credential :: "string \<Rightarrow> webauthn_credential" where
  "first_credential now \<equiv> new_credential now ''cred-id'' ''public-key'' 1"

lemma first_challenge:
  assumes "webauthn_test_env pending reader w rnd"
  shows "t_challenge (with_json reader mismatch w) (rnd 0) ''create'' (fixture st) =
    (Ret (b64url_encode w (rnd 0)), test_verifier (bound_create (with_json reader mismatch w) rnd st) [])"
  using challenge_run [OF webauthn_test_envD(1) [OF assms]] by (simp add: fixture_test_verifier)

lemma first_pending:
  assumes "webauthn_test_env pending reader w rnd"
  shows "pending (bound_create (with_json reader mismatch w) rnd st) (alice_key ''create'') =
      Some (b64url_encode w (rnd 0))"
    and "pending (used_create (with_json reader mismatch w) rnd st) (alice_key ''create'') = None"
proof -
  note keeps = webauthn_test_envD(1) [OF assms, of mismatch]
  show 1: "pending (bound_create (with_json reader mismatch w) rnd st) (alice_key ''create'') =
      Some (b64url_encode w (rnd 0))"
    by (simp add: keeps_bind(2) [OF keeps])
  then show "pending (used_create (with_json reader mismatch w) rnd st) (alice_key ''create'') = None"
    using keeps_verify(2) [OF keeps] by simp
qed

lemma first_registration:
  assumes "webauthn_test_env pending reader w rnd"
  shows "t_unwrap (t_register (with_json reader mismatch w) now (b64url_encode w (rnd 0))
      (fake_auth_data (with_json reader mismatch w) ''auth.example.com'')
      (client_data ''webauthn.create'' (b64url_encode w (rnd 0)) ''https://app.example.com'')
      ''cred-id'' ''public-key'') (test_verifier (bound_create (with_json reader mismatch w) rnd st) []) =
    (Ret (first_credential now),
     test_verifier (used_create (with_json reader mismatch w) rnd st)
       (add_credential ''alice'' (first_credential now) []))"
  using register_run [where chal = "b64url_encode w (rnd 0)" and cid = "''cred-id''"
      and cr = "[]" and mismatch = mismatch and now = now and n = 1 and pk = "''public-key''" and w = w,
      OF webauthn_test_envD(1) [OF assms], OF first_pending(1) [OF assms] webauthn_test_envD(2) [OF assms]]
  by (simp add: registry_eval)

lemmas first_steps = first_challenge first_registration
lemmas step_case = t_bind_def prod.case outcome.case

lemma happy_path:
  assumes "webauthn_test_env pending reader w rnd"
  shows "verify_registration_happy_path (with_json reader mismatch w) st rnd now = Ret ()"
  unfolding verify_registration_happy_path_def run_test_def
  by (simp only: step_case first_steps [OF assms] t_then_def)
    (simp add: t_assert_run t_get_run registry_eval new_credential_def)

lemma replay_refused:
  assumes "webauthn_test_env pending reader w rnd"
  shows "verify_registration_challenge_replay_rejected (with_json reader mismatch w) st rnd now = Ret ()"
proof -
  let ?w = "with_json reader mismatch w" and ?c = "b64url_encode w (rnd 0)"
  have "pending (used_create ?w rnd st) (alice_key ''create'') \<noteq> Some ?c"
    using first_pending(2) [OF assms, of mismatch st] by simp
  from register_refused [OF webauthn_test_envD(1) [OF assms], OF this webauthn_test_envD(2) [OF assms],
      where now = now and n = 2 and cid = "''cred-id-2''" and pk = "''public-key-2''"
        and cr = "add_credential ''alice'' (first_credential now) []"]
  obtain err v where "t_unwrap_err (t_register ?w now ?c
      ((fake_auth_data ?w ''auth.example.com'')\<lparr>sign_count := 2\<rparr>)
      (client_data ''webauthn.create'' ?c ''https://app.example.com'') ''cred-id-2'' ''public-key-2'')
      (test_verifier (used_create ?w rnd st) (add_credential ''alice'' (first_credential now) [])) =
      (Ret (SessionStoreErr err), v)"
    by blast
  then show ?thesis
    unfolding verify_registration_challenge_replay_rejected_def run_test_def Let_def
    by (simp only: step_case first_steps [OF assms]) (simp add: t_assert_run)
qed

text \<open>The tests of a single error: the check that fails comes before the store is asked.\<close>

lemma registration_error_run:
  assumes "webauthn_test_env pending reader w rnd"
    and "\<And>v. verify_registration (with_json reader mismatch w) fixture_config now ''alice''
      (b64url_encode w (rnd 0)) ad (client_data ''webauthn.create'' (b64url_encode w (rnd 0)) orig)
      (as_bytes ''cred-id'') (as_bytes ''public-key'') v = (Inl err, v)" and "expected err"
  shows "registration_error (with_json reader mismatch w) st rnd now ad orig expected = Ret ()"
proof -
  have "t_unwrap_err (t_register (with_json reader mismatch w) now (b64url_encode w (rnd 0)) ad
      (client_data ''webauthn.create'' (b64url_encode w (rnd 0)) orig) ''cred-id'' ''public-key'') v = (Ret err, v)" for v
    using assms(2) by (intro t_unwrap_err_Inl) (simp add: t_register_def t_call_def)
  then show ?thesis
    unfolding registration_error_def run_test_def
    by (simp only: step_case first_steps [OF assms(1)]) (simp add: t_assert_run assms(3))
qed

lemma error_tests:
  assumes "webauthn_test_env pending reader w rnd"
  shows "sha256 w (as_bytes ''evil.example.com'') \<noteq> sha256 w (as_bytes ''auth.example.com'')
     \<Longrightarrow> verify_registration_rp_id_mismatch_rejected (with_json reader mismatch w) st rnd now = Ret ()"
    and "verify_registration_no_user_presence_rejected (with_json reader mismatch w) st rnd now = Ret ()"
    and "verify_registration_origin_not_allowed (with_json reader mismatch w) st rnd now = Ret ()"
proof -
  let ?w = "with_json reader mismatch w" and ?c = "b64url_encode w (rnd 0)"
  note early = verify_registration_def rp_id_hash_check_def fake_auth_data_def
  show "verify_registration_rp_id_mismatch_rejected ?w st rnd now = Ret ()"
    if "sha256 w (as_bytes ''evil.example.com'') \<noteq> sha256 w (as_bytes ''auth.example.com'')"
    unfolding verify_registration_rp_id_mismatch_rejected_def using that
    by (intro registration_error_run [OF assms, where err = "RpIdHashMismatch
        (b64url_encode w (sha256 w (as_bytes ''auth.example.com'')))
        (b64url_encode w (sha256 w (as_bytes ''evil.example.com'')))"]) (simp_all add: early)
  show "verify_registration_no_user_presence_rejected ?w st rnd now = Ret ()"
    unfolding verify_registration_no_user_presence_rejected_def Let_def
    by (intro registration_error_run [OF assms, where err = UserPresenceNotSet]) (simp_all add: early)
  have "client_data_from_json ?w
      (client_data ''webauthn.create'' ?c ''https://evil.example.com'') =
      Inr \<lparr>ty = ''webauthn.create'', challenge = ?c, origin = ''https://evil.example.com'',
        cross_origin = False, token_binding = None\<rparr>"
    using client_data_read [where t = "''webauthn.create''" and orig = "''https://evil.example.com''"
        and mismatch = mismatch and w = w, OF webauthn_test_envD(2) [OF assms, of 0]]
    by simp
  then show "verify_registration_origin_not_allowed ?w st rnd now = Ret ()"
    unfolding verify_registration_origin_not_allowed_def
    by (intro registration_error_run [OF assms, where err = ChallengeNotFound])
      (simp_all add: early client_data_check_def)
qed

text \<open>An assertion with a fresh challenge.\<close>

abbreviation used_get where
  "used_get w rnd j st \<equiv>
     after_verify w (alice_key ''get'') (b64url_encode w (rnd (j :: nat)))
       (after_bind w (alice_key ''get'') (b64url_encode w (rnd j)) st)"

lemma assertion_run:
  assumes "webauthn_test_env pending reader w rnd"
    and "hm_get cr ''alice'' = Some [c]" and "credential_id c = as_bytes ''cred-id''" and "public_key c \<noteq> []"
  shows "assertion_5 (with_json reader mismatch w) rnd j (test_verifier st cr) =
    (Ret (if cred_sign_count c < 5 then Inr () else Inl CredentialNotFound),
     test_verifier (used_get (with_json reader mismatch w) rnd j st)
       (if cred_sign_count c < 5 then hm_insert ''alice'' [c\<lparr>cred_sign_count := 5\<rparr>] cr else cr))"
proof -
  note keeps = webauthn_test_envD(1) [OF assms(1), of mismatch]
  let ?w = "with_json reader mismatch w"
  have "pending (after_bind ?w (alice_key ''get'') (b64url_encode w (rnd j)) st) (alice_key ''get'') =
      Some (b64url_encode w (rnd j))"
    by (simp add: keeps_bind(2) [OF keeps])
  from authenticate_run [OF keeps, OF this webauthn_test_envD(2) [OF assms(1)] assms(2-4), of 5] show ?thesis
    by (simp add: assertion_5_def t_bind_def challenge_run [OF keeps])
qed

lemma registered_then_run:
  assumes "webauthn_test_env pending reader w rnd"
  shows "registered_then (with_json reader mismatch w) rnd now k (fixture st) =
    k (test_verifier (used_create (with_json reader mismatch w) rnd st)
        (add_credential ''alice'' (first_credential now) []))"
  unfolding registered_then_def by (simp only: step_case first_steps [OF assms])

lemma authentication_tests:
  assumes "webauthn_test_env pending reader w rnd"
  shows "verify_authentication_happy_path_increments_sign_count (with_json reader mismatch w) st rnd now = Ret ()"
    and "verify_authentication_replay_rejected_by_sign_count (with_json reader mismatch w) st rnd now = Ret ()"
proof -
  let ?w = "with_json reader mismatch w"
  let ?st = "used_create ?w rnd st"
  let ?cr = "add_credential ''alice'' (first_credential now) []"
  let ?cr' = "hm_insert ''alice'' [new_credential now ''cred-id'' ''public-key'' 5] ?cr"
  have "assertion_5 ?w rnd 1 (test_verifier ?st ?cr) = (Ret (Inr ()), test_verifier (used_get ?w rnd 1 ?st) ?cr')"
    by (subst assertion_run [OF assms registry_eval(2)]) (simp_all add: as_bytes_def)
  note first = t_unwrap_Inr [of "assertion_5 ?w rnd 1", OF this]
  show "verify_authentication_happy_path_increments_sign_count ?w st rnd now = Ret ()"
    unfolding verify_authentication_happy_path_increments_sign_count_def run_test_def
    by (simp only: registered_then_run [OF assms] t_then_def step_case first)
      (simp add: t_bind_def t_get_run t_outcome_def t_assert_run registry_eval hm_get_insert index_at_def
        new_credential_def)
  have "hm_get ?cr' ''alice'' = Some [new_credential now ''cred-id'' ''public-key'' 5]"
    by (simp add: hm_get_insert)
  then have "assertion_5 ?w rnd 2 (test_verifier (used_get ?w rnd 1 ?st) ?cr') =
      (Ret (Inl CredentialNotFound), test_verifier (used_get ?w rnd 2 (used_get ?w rnd 1 ?st)) ?cr')"
    by (subst assertion_run [OF assms, where c = "new_credential now ''cred-id'' ''public-key'' 5"])
      (simp_all add: as_bytes_def)
  from t_unwrap_err_Inl [of "assertion_5 ?w rnd 2", OF this]
  show "verify_authentication_replay_rejected_by_sign_count ?w st rnd now = Ret ()"
    unfolding verify_authentication_replay_rejected_by_sign_count_def run_test_def
    by (simp only: registered_then_run [OF assms] t_then_def step_case first) (simp add: t_assert_run)
qed

lemma challenge_test_run:
  assumes "webauthn_test_env pending reader w rnd"
    and "b64url_decode (b64url_encode w (rnd 0)) = Some (rnd 0)" and "length (rnd 0) = 32"
  shows "generate_challenge_returns_32_byte_url_safe_b64 (with_json reader mismatch w) b64url_decode st rnd = Ret ()"
  unfolding generate_challenge_returns_32_byte_url_safe_b64_def run_test_def
  by (simp only: step_case first_steps [OF assms(1)])
    (simp add: t_bind_def t_outcome_def unwrap_some_def t_assert_run assms(2,3))

lemma data_tests_run: "flags_byte_roundtrip = Ret ()" "auth_data_parse_too_short = Ret ()"
proof -
  show "flags_byte_roundtrip = Ret ()"
    by (simp add: flags_byte_roundtrip_def flags_from_to_byte assert_all_def Let_def) (simp add: flags_to_byte_def)
  show "auth_data_parse_too_short = Ret ()"
    by (simp add: assert_all_def auth_data_parse_too_short_def parse_authenticator_data_def)
qed

section \<open>Properties\<close>

text \<open>
  The ten unit tests of the verifier pass, with the derived JSON codec, over any store that keeps a
  challenge until it is verified and consumes it then, whatever the random bytes, the hash (that
  tells the two relying parties apart), the encoding (that can be decoded) and the reader (that
  reads the client data the tests write) are.
\<close>

theorem webauthn_tests_pass:
  assumes "webauthn_test_env pending reader w rnd"
    and "sha256 w (as_bytes ''evil.example.com'') \<noteq> sha256 w (as_bytes ''auth.example.com'')"
    and "b64url_decode (b64url_encode w (rnd 0)) = Some (rnd 0)" and "length (rnd 0) = 32"
  shows "generate_challenge_returns_32_byte_url_safe_b64 (with_json reader mismatch w) b64url_decode st rnd = Ret ()
    \<and> verify_registration_happy_path (with_json reader mismatch w) st rnd now = Ret ()
    \<and> verify_registration_rp_id_mismatch_rejected (with_json reader mismatch w) st rnd now = Ret ()
    \<and> verify_registration_no_user_presence_rejected (with_json reader mismatch w) st rnd now = Ret ()
    \<and> verify_registration_origin_not_allowed (with_json reader mismatch w) st rnd now = Ret ()
    \<and> verify_registration_challenge_replay_rejected (with_json reader mismatch w) st rnd now = Ret ()
    \<and> verify_authentication_happy_path_increments_sign_count (with_json reader mismatch w) st rnd now = Ret ()
    \<and> verify_authentication_replay_rejected_by_sign_count (with_json reader mismatch w) st rnd now = Ret ()
    \<and> flags_byte_roundtrip = Ret () \<and> auth_data_parse_too_short = Ret ()"
  by (intro conjI challenge_test_run [where b64url_decode = b64url_decode, OF assms(1) assms(3) assms(4)]
      happy_path [OF assms(1)] error_tests(1) [OF assms(1,2)] error_tests(2,3) [OF assms(1)]
      replay_refused [OF assms(1)] authentication_tests [OF assms(1)] data_tests_run)

text \<open>A reader that knows the four texts of the tests, and an environment that has it.\<close>

definition sample_reader :: "string \<Rightarrow> string + json" where
  "sample_reader s =
     (case find_map (\<lambda>(t, orig). if s = client_data t ''c'' orig then Some (client_json t ''c'' orig) else None)
         [(''webauthn.create'', ''https://app.example.com''), (''webauthn.create'', ''https://evil.example.com''),
          (''webauthn.get'', ''https://app.example.com''), (''webauthn.get'', ''https://evil.example.com'')] of
        None \<Rightarrow> Inl ''expected value'' | Some j \<Rightarrow> Inr j)"

definition sample_hashing :: "(string, string \<Rightarrow> string option, unit) webauthn_env" where
  "sample_hashing = ticket_webauthn\<lparr>sha256 := \<lambda>b. take 32 (b @ replicate 32 0)\<rparr>"

lemma sample_reader_reads: "reads_client_data sample_reader ''c''"
  unfolding reads_client_data_def
  by (simp add: sample_reader_def client_data_def client_json_def json_string_def json_escape_def Let_def)

lemma sample_webauthn_test_env:
  "webauthn_test_env (\<lambda>m. m) sample_reader sample_hashing (\<lambda>_. replicate 32 7)"
  by (auto simp: webauthn_test_env_def sample_hashing_def ticket_webauthn_def sample_webauthn_def
      sample_reader_reads keeps_challenges_def)

theorem webauthn_tests_pass_witness:
  "verify_authentication_replay_rejected_by_sign_count (with_json sample_reader ''mismatch'' sample_hashing)
     Map.empty (\<lambda>_. replicate 32 7) ''now'' = Ret ()
   \<and> verify_registration_challenge_replay_rejected (with_json sample_reader ''mismatch'' sample_hashing)
     Map.empty (\<lambda>_. replicate 32 7) ''now'' = Ret ()"
proof -
  have "sha256 sample_hashing (as_bytes ''evil.example.com'') \<noteq> sha256 sample_hashing (as_bytes ''auth.example.com'')"
    by (simp add: sample_hashing_def as_bytes_def)
  from webauthn_tests_pass [OF sample_webauthn_test_env this, of "\<lambda>_. Some (replicate 32 7)" "''mismatch''"
      Map.empty "''now''"]
  show ?thesis
    by simp
qed

end
