(* ===== verification/Spec2Isabelle.thy ===== *)
theory Spec2Isabelle
  imports Session_Store Store_Refinement Store_Isolation Store_Liveness Pkce_Middleware Login_Service Callback_Race Totp Totp_Loop
    Totp_Acceptance Totp_Enrollment
    Webauthn Webauthn_Registry Webauthn_Challenges Webauthn_Race Webauthn_Json Webauthn_Table
    Webauthn_Assertions Webauthn_Isolation Webauthn_Service Webauthn_Errors Webauthn_Debug
    Oidc Oidc_Json Oidc_Cache Oidc_Keys
    Session_Store_Tests Callback_App Fuzz_Target Integration_Tests Benchmarks Totp_Tests Webauthn_Tests
begin

text \<open>
  A verification of AuthKit, a Rust crate for authentication boundaries.

  \<^bold>\<open>The program.\<close> A login binds an OAuth \<open>state\<close> to a session in a \<open>SessionStore\<close>
  (\<open>src/domain/session_store.rs\<close>, a trait and its in-memory adapter); the axum middleware of
  \<open>src/middleware/pkce_state_session.rs\<close> lets a callback through only when its \<open>state\<close> is bound to
  the session of its cookie. \<open>src/totp.rs\<close> computes and verifies one-time codes and writes
  enrollment URIs. \<open>src/webauthn.rs\<close> registers passkeys and verifies assertions, with its challenges
  in a session store. \<open>src/oidc.rs\<close> fetches discovery documents and caches key sets.

  \<^bold>\<open>Theories.\<close>
  \<^item> \<open>AuthKit_Prelude\<close>: \<open>outcome\<close> (a value or a panic), checked integer operations on words of the
    Rust widths, big-endian bytes, UTF-8 strings as lists of bytes with the standard library's
    splitting, trimming and upper-casing, decimal numbers, and \<open>HashMap\<close> as an association list
    with distinct keys. \<open>Str_Debug\<close>: the \<open>Debug\<close> output of a \<open>str\<close>.
  \<^item> \<open>Session_Store\<close>: the port as the locale \<open>session_store_port\<close>; the in-memory store (record
    \<open>in_memory_store\<close>, operations \<open>bind_state\<close>, \<open>verify_state\<close>, \<open>revoke_state\<close>, \<open>evict_expired\<close>, the
    constructors), the interpretation \<open>mem\<close> of the port by it, and \<open>store_history\<close>, the sequences of
    calls a store can go through. The properties say that verification is exact and sound over all
    histories, that the capacity holds, that \<open>bind_state\<close> refines a map with expiry, and what a
    panic leaves behind. \<open>Store_Liveness\<close>: a binding lives until its expiry, a full store frees itself.
  \<^item> \<open>Simulation_Locale\<close>: runs of a component (\<open>run\<close>, \<open>replies\<close>, \<open>final\<close>) and the locale \<open>lockstep\<close>, a
    component that follows a specification call by call. \<open>lockstep\<close> is interpreted three times: in
    \<open>Store_Refinement\<close> (the store and the map \<open>lazy_store\<close> that never evicts), in \<open>Webauthn_Table\<close> (the
    verifier and one flat \<open>table\<close> of credentials) and in \<open>Oidc_Cache\<close> (the client and one that asks the
    network every time, over networks that may change their answers after a TTL); each gives that
    all replies of all sequences of calls agree. The locale \<open>separation\<close> is about one party's calls
    among those of others; \<open>Store_Isolation\<close> interprets it for the calls on some tokens,
    \<open>Webauthn_Isolation\<close> for the calls of one user, each with the answer the challenge store gave it.
  \<^item> \<open>Pkce_Middleware\<close>: \<open>enforce_pkce_state_session\<close> over any store, its lemmas in the context of the
    port, its properties over the in-memory store: the decision on every branch, the trace from an
    accepted callback back to the login, which callbacks pass, and the audit log. \<open>Login_Service\<close>: a
    login from its binding to its callback, with any other calls in between. \<open>Callback_Race\<close>:
    requests that overlap, the check and the rest of the chain as separate steps of \<open>server_run\<close>,
    with the logins and logouts that decide which callbacks get through.
  \<^item> \<open>Totp\<close> (with \<open>Base32_Sample\<close>, a Base32 codec that instantiates the parameters in the witnesses):
    \<open>hotp\<close> against RFC 4226, the window loop for any code generator (locale \<open>counter_code\<close>,
    interpreted by \<open>hotp\<close> with six digits), Base32 secrets, URL encoding. \<open>Totp_Loop\<close>: the window
    loop as the machine runs it, over a \<open>RangeInclusive<i64>\<close>, ends and does what \<open>Totp\<close> says.
    \<open>Totp_Acceptance\<close>: how many codes one verification accepts. \<open>Totp_Enrollment\<close>: the enrollment
    URI scanned by an authenticator that follows RFC 6238, whose codes go back to \<open>verify\<close>.
  \<^item> \<open>Webauthn_Data\<close>: flags byte and authenticator data with their round trips, the other types.
    \<open>Webauthn\<close>: \<open>verify_registration\<close>, \<open>verify_authentication\<close> and the registry, when they accept and
    what they change; \<open>verifier_history\<close>, with the invariants on identifiers and sign counts.
    \<open>Webauthn_Registry\<close>: every operation keeps the registry well formed, and what is stored was
    registered. \<open>Webauthn_Challenges\<close>: over a store that consumes what it verifies
    (\<open>consumes_challenges\<close>, what the file says of its store), a challenge is good for one ceremony.
    \<open>Webauthn_Race\<close>: the two lock scopes of a registration as separate steps of \<open>registration_run\<close>,
    what the check still gives when they interleave, then with assertions among them
    (\<open>registry_run\<close>). \<open>Webauthn_Errors\<close>: every error with its exact condition.
    \<open>Webauthn_Assertions\<close>: the answers to a whole sequence of assertions of one authenticator.
    \<open>Webauthn_Isolation\<close>: users do not influence each other through the registry;
    \<open>Webauthn_Service\<close>: so an honest user whose challenges the store accepts is served, whatever the
    others do.
    \<open>Webauthn_Debug\<close>: the \<open>Debug\<close> output and the
    keys of challenges.
  \<^item> \<open>Oidc\<close>: \<open>discover\<close> and \<open>jwks\<close>, both feature variants; \<open>client_history\<close>, whose calls may
    overlap, and where the keys in the cache come from. \<open>Oidc_Keys\<close>: every key table maps an identifier
    to a key that carries it.
  \<^item> \<open>Json\<close>: JSON values, their compact text, and what \<open>serde\<close>'s field attributes mean; \<open>Webauthn_Json\<close> and
    \<open>Oidc_Json\<close>: the derived codecs of the structs, round trips, which documents cannot be read, and
    the tests of \<open>src/oidc.rs\<close>.
  \<^item> \<open>Test_Harness\<close>, \<open>Session_Store_Tests\<close>, \<open>Callback_App\<close>, \<open>Totp_Tests\<close>, \<open>Webauthn_Tests\<close>: the unit
    tests of the crate, call by call, with the router around the middleware; which of them pass and
    which fail in every environment, those of the verifier over a store that keeps challenges until
    they are verified (\<open>keeps_challenges\<close>). \<open>Fuzz_Target\<close> (with \<open>Utf8\<close>): the fuzz
    target of \<open>fuzz/fuzz_target.rs\<close>, and exactly when it panics. \<open>Integration_Tests\<close>: the tests of
    \<open>tests/integration_test.rs\<close>. \<open>Benchmarks\<close>: what \<open>benches/criterion_bench.rs\<close> repeats, any number of
    times.
  \<^item> This theory: properties that need several components.

  \<^bold>\<open>How code and model correspond.\<close> A struct is a record, an enum a datatype, an integer a word of
  its width (counts of elements, instants and durations are \<open>nat\<close> or \<open>int\<close>), a \<open>Result\<close> a sum with the
  error on the left, a method with \<open>self\<close> behind a lock a function that returns the new state. A
  panic is a value where the code can panic: the addition of a TTL beyond \<open>chrono\<close>'s range, a zero
  period, an overflowing power. Where debug and release builds differ the flag \<open>debug\<close> chooses. No
  definition uses fuel: the loops run over lists and intervals, and the one loop kept as a
  \<open>partial_function\<close>, \<open>window_loop\<close>, is shown to end.

  \<^bold>\<open>Parameters.\<close> What is not in the crate is an argument with the laws it is used under:
  \<open>call_env\<close> (clock readings, \<open>subtle\<close>, \<open>chrono\<close>; \<open>env_ok\<close>), \<open>http_env\<close> (header and percent
  decoding), \<open>totp_crates\<close> (HMAC, Base32, Base64, the largest format width; \<open>mac_ok\<close>, \<open>base32_ok\<close>), \<open>webauthn_env\<close> (SHA-256,
  Base64, JSON, the challenge store), \<open>oidc_env\<close> (\<open>url\<close> and \<open>reqwest\<close>), \<open>request_builder\<close> (the
  parsers of \<open>http\<close>; \<open>http_documented\<close> on the inputs of the tests), the reader of JSON text. The clock is not assumed to
  be monotonic unless a property says so. For code points beyond ASCII the tables of upper-casing and
  of \<open>Debug\<close> escapes are parameters; so is the text of a UUID.

  \<^bold>\<open>Not modelled.\<close> The unit test \<open>verify_with_window_rejects_far_drift\<close> (it passes \<open>-1\<close> for a \<open>u64\<close>
  and is not a program), module lists and re-exports, the timing of the benchmarks, CI scripts. The
  conversion of \<open>TotpError\<close> into \<open>SessionStoreError\<close> names a variant \<open>Other\<close> the type does not have;
  \<open>store_error_of_totp_error\<close> takes that constructor as an argument. The calls of
  \<open>src/webauthn.rs\<close> to its challenge store (key, value, kind, TTL) are not those of the trait, and no
  code under \<open>src/\<close> implements them: the store stays a parameter of \<open>webauthn_env\<close>, and what a property
  asks of its answers is in the property. \<open>verify_registration\<close> looks for the identifier and inserts
  it in one step; \<open>Webauthn_Race\<close> takes the two apart.

  \<^bold>\<open>What would come next.\<close> A store of the shape \<open>src/webauthn.rs\<close> calls, with a kind and a TTL per
  binding, once the trait has it, and the signature check, once \<open>verify_signature\<close> has one.
\<close>

section \<open>Properties across components\<close>

text \<open>
  C29. The enrollment URI says what it was given. For any account and issuer, even with
  \<open>:\<close>, \<open>?\<close>, \<open>&\<close> or non-ASCII characters in them, the URI splits at its first question mark into the
  label and a query in which the crate's own \<open>query_param\<close> finds the secret, the issuer, the
  period and the digits that went in; the label splits at its first colon after the prefix
  into issuer and account. Nothing a user types can add or override a parameter.
\<close>

theorem enrollment_uri_parses:
  assumes "base32_ok x"
  shows "\<exists>label query. split_once CHR ''?'' (enrollment_uri x s account issuer period digits)
      = Some (''otpauth://totp/'' @ label, query)
    \<and> map_option (\<lambda>(i, a). (percent_decode i, percent_decode a)) (split_once CHR '':'' label)
      = Some (issuer, account)
    \<and> query_param query ''secret'' = Some (to_base32 x s)
    \<and> map_option percent_decode (query_param query ''issuer'') = Some issuer
    \<and> map_option decimal_value (query_param query ''period'') = Some (unat period)
    \<and> map_option decimal_value (query_param query ''digits'') = Some (unat digits)
    \<and> query_param query ''algorithm'' = Some ''SHA1''"
  using enrollment_uri_split [of x s account issuer period digits]
    enrollment_label_split [of account issuer] enrollment_params_found [OF assms, of s issuer period digits]
  by (intro exI [of _ "enrollment_label account issuer"]
      exI [of _ "query_of (enrollment_params x s issuer period digits)"])
    (simp add: percent_decode_urlencoding enrollment_params_def)

theorem enrollment_uri_parses_witness:
  "\<exists>label query. split_once CHR ''?''
      (enrollment_uri sample_crates sample_secret ''a&digits=8'' ''Auth:Kit?'' 30 6)
      = Some (''otpauth://totp/'' @ label, query)
    \<and> map_option decimal_value (query_param query ''digits'') = Some 6"
  using enrollment_uri_parses [OF sample_crates_ok(2), of sample_secret "''a&digits=8''" "''Auth:Kit?''" 30 6]
  by auto

end
